theory Spec2Isabelle
  imports Complex_Main "HOL-Library.Sublist"
begin

section \<open>Line Framer (stdout data handler of ClaudeProcess.start)\<close>

text \<open>
  Strings are lists of characters standing for the code units of the JavaScript string
  obtained by \<open>chunk.toString()\<close>. The handler appends every chunk to \<open>stdoutBuffer\<close> and
  then runs the \<open>while ((newlineIndex = buffer.indexOf('\n')) !== -1)\<close> loop.
\<close>

definition NL :: char where
  "NL = CHR 0x0A"

definition CR :: char where
  "CR = CHR 0x0D"

text \<open>The white space removed by \<open>String.prototype.trim\<close>, as far as it lies in the
  8-bit range of \<^typ>\<open>char\<close>: TAB, LF, VT, FF, CR, SPACE and NBSP.\<close>

definition js_whitespace :: "char \<Rightarrow> bool" where
  "js_whitespace c \<longleftrightarrow> c \<in> {CHR 0x09, CHR 0x0A, CHR 0x0B, CHR 0x0C, CHR 0x0D, CHR 0x20, CHR 0xA0}"

definition trim :: "string \<Rightarrow> string" where
  "trim s = rev (dropWhile js_whitespace (rev (dropWhile js_whitespace s)))"

text \<open>\<open>s.indexOf('\n')\<close>: \<open>None\<close> stands for \<open>-1\<close>.\<close>

fun indexOf_NL :: "string \<Rightarrow> nat option" where
  "indexOf_NL [] = None"
| "indexOf_NL (c # cs) =
     (if c = NL then Some 0
      else case indexOf_NL cs of None \<Rightarrow> None | Some i \<Rightarrow> Some (Suc i))"

text \<open>\<open>if (line.endsWith('\r')) line = line.slice(0, -1)\<close>\<close>

definition strip_cr :: "string \<Rightarrow> string" where
  "strip_cr line = (if line \<noteq> [] \<and> last line = CR then butlast line else line)"

lemma indexOf_NL_less: "indexOf_NL s = Some i \<Longrightarrow> i < length s"
  by (induction s arbitrary: i) (auto split: if_splits option.splits)

text \<open>
  The loop, with the per-line action \<open>h\<close> (in the program: \<open>handleStreamLine\<close>, which never
  touches \<open>stdoutBuffer\<close>) and the state \<open>a\<close> that the action works on. A line whose
  \<open>trim()\<close> is empty is skipped.
\<close>

function frame_loop :: "(string \<Rightarrow> 'a \<Rightarrow> 'a) \<Rightarrow> string \<Rightarrow> 'a \<Rightarrow> string \<times> 'a" where
  "frame_loop h buf a =
     (case indexOf_NL buf of
        None \<Rightarrow> (buf, a)
      | Some newlineIndex \<Rightarrow>
          (let line = strip_cr (take newlineIndex buf);
               buf' = drop (newlineIndex + 1) buf
           in frame_loop h buf' (if trim line \<noteq> [] then h line a else a)))"
  by pat_completeness auto
termination
  by (relation "measure (\<lambda>(h, buf, a). length buf)") (auto dest: indexOf_NL_less)

declare frame_loop.simps [simp del]

text \<open>One \<open>'data'\<close> event: \<open>this.stdoutBuffer += chunkStr\<close>, then the loop.\<close>

definition on_stdout_data :: "(string \<Rightarrow> 'a \<Rightarrow> 'a) \<Rightarrow> string \<times> 'a \<Rightarrow> string \<Rightarrow> string \<times> 'a" where
  "on_stdout_data h st chunk = frame_loop h (fst st @ chunk) (snd st)"








subsection \<open>Chunk invariance of the framer\<close>















section \<open>Session persistence (ipc-handlers.ts)\<close>

record stored_session =
  ss_id :: string
  ss_title :: string
  ss_workingDirectory :: string
  ss_createdAt :: int
  ss_updatedAt :: int
  ss_messageCount :: nat
  ss_claudeSessionId :: "string option"
  ss_totalCost :: "rat option"

text \<open>\<open>Array.prototype.findIndex\<close>: \<open>None\<close> stands for \<open>-1\<close>.\<close>

fun findIndex :: "('a \<Rightarrow> bool) \<Rightarrow> 'a list \<Rightarrow> nat option" where
  "findIndex P [] = None"
| "findIndex P (x # xs) =
     (if P x then Some 0 else case findIndex P xs of None \<Rightarrow> None | Some i \<Rightarrow> Some (Suc i))"

text \<open>
  The sessions file: \<open>None\<close> when it is missing or unreadable (\<open>loadSessions\<close> then returns
  \<open>[]\<close>). \<open>saveSessions\<close> swallows a failed write; \<open>writable\<close> says whether the write
  succeeds.
\<close>

record session_store =
  sessions_file :: "stored_session list option"
  writable :: bool

definition loadSessions :: "session_store \<Rightarrow> stored_session list" where
  "loadSessions st = (case sessions_file st of None \<Rightarrow> [] | Some l \<Rightarrow> l)"

definition saveSessions :: "stored_session list \<Rightarrow> session_store \<Rightarrow> session_store" where
  "saveSessions l st = (if writable st then st\<lparr>sessions_file := Some l\<rparr> else st)"

text \<open>The body of the \<open>sessions:save\<close> handler on the loaded list.\<close>

definition upsert_session :: "stored_session list \<Rightarrow> stored_session \<Rightarrow> stored_session list" where
  "upsert_session sessions session =
     (let sessions' =
            (case findIndex (\<lambda>s. ss_id s = ss_id session) sessions of
               Some existingIndex \<Rightarrow> sessions[existingIndex := session]
             | None \<Rightarrow> session # sessions)
      in take 50 sessions')"

text \<open>\<open>ipcMain.handle('sessions:save', ...)\<close>: the returned list and the store afterwards.\<close>

definition sessions_save :: "session_store \<Rightarrow> stored_session \<Rightarrow> stored_session list \<times> session_store" where
  "sessions_save st session =
     (let trimmed = upsert_session (loadSessions st) session
      in (trimmed, saveSessions trimmed st))"

text \<open>A session record with a given id, for concrete inputs.\<close>

definition session_with_id :: "string \<Rightarrow> stored_session" where
  "session_with_id i =
     \<lparr>ss_id = i, ss_title = ''New Session'', ss_workingDirectory = ''/home/u'', ss_createdAt = 0,
      ss_updatedAt = 0, ss_messageCount = 0, ss_claudeSessionId = None, ss_totalCost = None\<rparr>"


subsection \<open>Upsert by id, capped at 50\<close>

lemma findIndex_None: "findIndex P xs = None \<longleftrightarrow> (\<forall>x \<in> set xs. \<not> P x)"
  by (induction xs) (auto split: option.splits)

lemma findIndex_Some:
  "findIndex P xs = Some i \<Longrightarrow> i < length xs \<and> P (xs ! i) \<and> (\<forall>j < i. \<not> P (xs ! j))"
proof (induction xs arbitrary: i)
  case Nil
  then show ?case by simp
next
  case (Cons x xs)
  show ?case
  proof (cases "P x")
    case True
    with Cons.prems show ?thesis by simp
  next
    case False
    with Cons.prems obtain k where k: "findIndex P xs = Some k" "i = Suc k"
      by (auto split: option.splits)
    from Cons.IH [OF k(1)] False k(2) show ?thesis
      by (auto simp: nth_Cons split: nat.splits)
  qed
qed

lemma filter_update_eq:
  assumes "distinct (map f xs)" "i < length xs" "f (xs ! i) = f s"
  shows "filter (\<lambda>e. f e = f s) (xs[i := s]) = [s]"
    and "filter (\<lambda>e. f e \<noteq> f s) (xs[i := s]) = filter (\<lambda>e. f e \<noteq> f s) xs"
  using assms
proof (induction xs arbitrary: i)
  case Nil
  { case 1 then show ?case by simp }
  { case 2 then show ?case by simp }
next
  case (Cons x xs)
  { case 1
    show ?case
    proof (cases i)
      case 0
      with 1 have "\<forall>e \<in> set xs. f e \<noteq> f s" by auto (metis image_eqI)
      then have "filter (\<lambda>e. f e = f s) xs = []" by (auto simp: filter_empty_conv)
      with 0 show ?thesis by simp
    next
      case (Suc k)
      with 1 have "f x \<noteq> f s" by auto (metis nth_mem image_eqI)
      with Suc 1 Cons.IH(1) [of k] show ?thesis by simp
    qed }
  { case 2
    show ?case
    proof (cases i)
      case 0
      with 2 show ?thesis by simp
    next
      case (Suc k)
      with 2 Cons.IH(2) [of k] show ?thesis by simp
    qed }
qed

lemma distinct_map_update:
  assumes "distinct (map f xs)" "i < length xs" "f (xs ! i) = f s"
  shows "distinct (map f (xs[i := s]))"
proof -
  have "map f (xs[i := s]) = (map f xs)[i := f (xs ! i)]"
    using assms by (simp add: map_update)
  also have "\<dots> = map f xs" using assms by (simp add: list_update_same_conv)
  finally show ?thesis using assms by simp
qed

text \<open>
  C9, as the spec states it, promises that saving preserves all other entries. The handler
  ends with \<open>sessions.slice(0, 50)\<close> (``keep only last 50 sessions''): saving a new session
  into a store that already holds 50 sessions drops the oldest one. Below, the store holds
  the sessions with ids \<open>s\<close>, \<open>ss\<close>, ..., \<open>s\<^sup>5\<^sup>0\<close>; after saving a session with a new id
  the entry \<open>s\<^sup>5\<^sup>0\<close>, whose id differs from the saved one, is gone.
\<close>

theorem C9_cap_drops_entry_counterexample:
  "session_with_id (replicate 50 (CHR ''s''))
      \<in> set (map (\<lambda>n. session_with_id (replicate n (CHR ''s''))) [1..<51])
   \<and> ss_id (session_with_id (replicate 50 (CHR ''s''))) \<noteq> ss_id (session_with_id ''new'')
   \<and> session_with_id (replicate 50 (CHR ''s''))
      \<notin> set (fst (sessions_save
            \<lparr>sessions_file = Some (map (\<lambda>n. session_with_id (replicate n (CHR ''s''))) [1..<51]),
             writable = True\<rparr>
            (session_with_id ''new'')))"
  by code_simp

text \<open>
  C9 (amended): for a store whose ids are distinct and that holds at most 50 entries (both
  hold of the empty store and are kept by the handler), the list returned by saving a
  session has at most 50 entries with distinct ids and exactly one entry with the saved id,
  the saved record. A record whose id is already stored replaces that entry in place, and
  all other entries are preserved in order; a record with a new id is put at the front, and
  of the other entries the first 49 are preserved in order (the list is cut to 50).
\<close>

theorem C9_sessions_save_upsert:
  assumes d: "distinct (map ss_id (loadSessions st))" and l: "length (loadSessions st) \<le> 50"
  shows "length (fst (sessions_save st s)) \<le> 50
    \<and> distinct (map ss_id (fst (sessions_save st s)))
    \<and> filter (\<lambda>e. ss_id e = ss_id s) (fst (sessions_save st s)) = [s]
    \<and> filter (\<lambda>e. ss_id e \<noteq> ss_id s) (fst (sessions_save st s)) =
        (if ss_id s \<in> ss_id ` set (loadSessions st)
         then filter (\<lambda>e. ss_id e \<noteq> ss_id s) (loadSessions st)
         else take 49 (loadSessions st))
    \<and> (case findIndex (\<lambda>e. ss_id e = ss_id s) (loadSessions st) of
         None \<Rightarrow> fst (sessions_save st s) ! 0 = s
       | Some i \<Rightarrow> fst (sessions_save st s) ! i = s)"
proof (cases "findIndex (\<lambda>e. ss_id e = ss_id s) (loadSessions st)")
  case None
  then have no: "\<forall>x \<in> set (loadSessions st). ss_id x \<noteq> ss_id s"
    by (simp add: findIndex_None)
  then have nin: "ss_id s \<notin> ss_id ` set (loadSessions st)" by auto
  have f1: "filter (\<lambda>e. ss_id e = ss_id s) (take 49 (loadSessions st)) = []"
    using no by (auto simp: filter_empty_conv dest: in_set_takeD)
  have f2: "filter (\<lambda>e. ss_id e \<noteq> ss_id s) (take 49 (loadSessions st)) = take 49 (loadSessions st)"
    using no by (auto simp: filter_id_conv dest: in_set_takeD)
  have t: "take 50 (s # loadSessions st) = s # take 49 (loadSessions st)"
    by (simp add: take_Cons')
  have d1: "distinct (map ss_id (take 49 (loadSessions st)))"
    using d by (simp add: take_map [symmetric] distinct_take)
  have d2: "ss_id s \<notin> ss_id ` set (take 49 (loadSessions st))"
    using nin by (auto dest: in_set_takeD)
  show ?thesis using None nin f1 f2 t d1 d2
    by (simp add: sessions_save_def upsert_session_def Let_def)
next
  case (Some i)
  from findIndex_Some [OF Some]
  have i: "i < length (loadSessions st)" "ss_id (loadSessions st ! i) = ss_id s"
    by auto
  then have mem: "ss_id s \<in> ss_id ` set (loadSessions st)" by (metis nth_mem image_eqI)
  show ?thesis
    using Some i l mem filter_update_eq [of ss_id "loadSessions st" i s, OF d i]
      distinct_map_update [of ss_id "loadSessions st" i s, OF d i]
    by (simp add: sessions_save_def upsert_session_def Let_def)
qed

theorem C9_sessions_save_witness:
  "distinct (map ss_id (loadSessions
       \<lparr>sessions_file = Some [session_with_id ''a'', session_with_id ''b''], writable = True\<rparr>))
   \<and> length (loadSessions
       \<lparr>sessions_file = Some [session_with_id ''a'', session_with_id ''b''], writable = True\<rparr>) \<le> 50
   \<and> filter (\<lambda>e. ss_id e = ''b'')
       (fst (sessions_save
          \<lparr>sessions_file = Some [session_with_id ''a'', session_with_id ''b''], writable = True\<rparr>
          ((session_with_id ''b'')\<lparr>ss_title := ''renamed''\<rparr>)))
     = [(session_with_id ''b'')\<lparr>ss_title := ''renamed''\<rparr>]
   \<and> filter (\<lambda>e. ss_id e \<noteq> ''b'')
       (fst (sessions_save
          \<lparr>sessions_file = Some [session_with_id ''a'', session_with_id ''b''], writable = True\<rparr>
          ((session_with_id ''b'')\<lparr>ss_title := ''renamed''\<rparr>)))
     = [session_with_id ''a'']"
proof -
  let ?st = "\<lparr>sessions_file = Some [session_with_id ''a'', session_with_id ''b''], writable = True\<rparr>"
  let ?s = "(session_with_id ''b'')\<lparr>ss_title := ''renamed''\<rparr>"
  have h1: "distinct (map ss_id (loadSessions ?st))"
    by (simp add: loadSessions_def session_with_id_def)
  have h2: "length (loadSessions ?st) \<le> 50"
    by (simp add: loadSessions_def)
  have i: "ss_id ?s = ''b''" by (simp add: session_with_id_def)
  from C9_sessions_save_upsert [OF h1 h2, of ?s] h1 h2 show ?thesis
    by (simp add: i) (simp add: loadSessions_def session_with_id_def)
qed


section \<open>JSON values and the JavaScript operators the code applies to them\<close>

text \<open>
  Event payloads are untyped (\<open>any\<close>) in the source and are probed field by field, so they
  are modelled as JSON values. \<open>JUndef\<close> is \<open>undefined\<close> (a missing property). Numbers are
  rationals: the code only copies and compares them.
\<close>

datatype json =
    JUndef
  | JNull
  | JBool bool
  | JNum rat
  | JStr string
  | JArr "json list"
  | JObj "(string \<times> json) list"

text \<open>Truthiness, \<open>a || b\<close> and \<open>a ?? b\<close>.\<close>

fun truthy :: "json \<Rightarrow> bool" where
  "truthy JUndef = False"
| "truthy JNull = False"
| "truthy (JBool b) = b"
| "truthy (JNum n) = (n \<noteq> 0)"
| "truthy (JStr s) = (s \<noteq> [])"
| "truthy (JArr xs) = True"
| "truthy (JObj kvs) = True"

definition js_or :: "json \<Rightarrow> json \<Rightarrow> json" where
  "js_or a b = (if truthy a then a else b)"

definition nullish_or :: "json \<Rightarrow> json \<Rightarrow> json" where
  "nullish_or a b = (if a = JUndef \<or> a = JNull then b else a)"

text \<open>
  Reading a property, \<open>j.k\<close> or \<open>j?.k\<close>, for the property names the code uses (none of
  them is defined on strings, numbers or arrays). On \<open>null\<close> and \<open>undefined\<close> this is the
  optional read \<open>j?.k\<close>; where the source reads without \<open>?.\<close> and the value may be
  \<open>null\<close>, the model writes out the \<open>TypeError\<close>.
\<close>

fun lookup_prop :: "(string \<times> json) list \<Rightarrow> string \<Rightarrow> json" where
  "lookup_prop [] k = JUndef"
| "lookup_prop ((k', v) # kvs) k = (if k' = k then v else lookup_prop kvs k)"

fun field :: "json \<Rightarrow> string \<Rightarrow> json" where
  "field (JObj kvs) k = lookup_prop kvs k"
| "field j k = JUndef"

text \<open>The own properties copied by an object spread \<open>{...j}\<close> (of an object, \<open>null\<close> or
  \<open>undefined\<close>).\<close>

fun props :: "json \<Rightarrow> (string \<times> json) list" where
  "props (JObj kvs) = kvs"
| "props j = []"

text \<open>\<open>{...o, k: v}\<close>: an existing key keeps its place, a new key goes last.\<close>

fun set_prop :: "(string \<times> json) list \<Rightarrow> string \<Rightarrow> json \<Rightarrow> (string \<times> json) list" where
  "set_prop [] k v = [(k, v)]"
| "set_prop ((k', v') # kvs) k v = (if k' = k then (k, v) # kvs else (k', v') # set_prop kvs k v)"

text \<open>
  A JavaScript \<open>Map\<close> as an association list in insertion order. Keys are compared by
  SameValueZero: primitives by value, objects and arrays by identity. Every key the code
  looks up comes from a freshly parsed (or freshly cloned) event, so an object or array
  key is never identical to a stored one. A lookup reads the first entry under the key,
  \<open>set\<close> overwrites it, and \<open>delete\<close> leaves no entry under the key.
\<close>

fun key_eq :: "json \<Rightarrow> json \<Rightarrow> bool" where
  "key_eq (JArr xs) k = False"
| "key_eq (JObj kvs) k = False"
| "key_eq k' k = (k' = k)"

fun map_get :: "(json \<times> 'v) list \<Rightarrow> json \<Rightarrow> 'v option" where
  "map_get [] k = None"
| "map_get ((k', v) # m) k = (if key_eq k' k then Some v else map_get m k)"

fun map_set :: "(json \<times> 'v) list \<Rightarrow> json \<Rightarrow> 'v \<Rightarrow> (json \<times> 'v) list" where
  "map_set [] k v = [(k, v)]"
| "map_set ((k', v') # m) k v = (if key_eq k' k then (k', v) # m else (k', v') # map_set m k v)"

fun map_delete :: "(json \<times> 'v) list \<Rightarrow> json \<Rightarrow> (json \<times> 'v) list" where
  "map_delete [] k = []"
| "map_delete ((k', v') # m) k = (if key_eq k' k then map_delete m k else (k', v') # map_delete m k)"

definition map_has :: "(json \<times> 'v) list \<Rightarrow> json \<Rightarrow> bool" where
  "map_has m k = (map_get m k \<noteq> None)"

section \<open>Session Process (claude-process.ts)\<close>

text \<open>An OS subprocess as \<open>spawn\<close> created it, with the signals \<open>kill\<close> has sent to it and
  the data written to its stdin. \<open>stdin_fails = Some msg\<close>: a write to stdin throws
  \<open>Error(msg)\<close>.\<close>

record child_process =
  spawn_file :: string
  spawn_args :: "string list"
  spawn_cwd :: string
  spawn_shell :: bool
  signals :: "string list"
  stdin_data :: "string list"
  stdin_fails :: "string option"

text \<open>
  What the main process shares between all \<open>ClaudeProcess\<close> instances: the browser window
  (\<open>sent\<close>: the \<open>claude:stream\<close> payloads handed to \<open>webContents.send\<close>, oldest first;
  \<open>sendToRenderer\<close> defers each send with \<open>setImmediate\<close>, which keeps the order), the
  table of spawned subprocesses (a \<open>ChildProcess\<close> handle is an index into it), and the
  host: what \<open>findClaudeCli()\<close> finds at this moment, \<open>os.homedir()\<close>, \<open>path.resolve\<close> and
  the platform.
\<close>

record main_env =
  windowDestroyed :: bool
  sent :: "json list"
  children :: "child_process list"
  cliFound :: "string option"
  homedir :: string
  path_resolve :: "string \<Rightarrow> string"
  isWindows :: bool

record claude_process =
  process :: "nat option"
  sessionId :: string
  currentCwd :: "string option"
  messageIdCounter :: nat
  stdoutBuffer :: string
  stderrRl :: bool
  claudePath :: "string option"
  heartbeatInterval :: bool
  eventCounter :: nat
  deltaBuffer :: "(json \<times> string) list"
  deltaFlushTimer :: bool
  lastDeltaEvent :: json

type_synonym proc_state = "main_env \<times> claude_process"







text \<open>\<open>sendToRenderer(data)\<close>: the payload is \<open>{...data, sessionId}\<close>.\<close>

definition sendToRenderer :: "(string \<times> json) list \<Rightarrow> proc_state \<Rightarrow> proc_state" where
  "sendToRenderer data st =
     (case st of (env, p) \<Rightarrow>
        if \<not> windowDestroyed env then
          (env\<lparr>sent := sent env @ [JObj (set_prop data ''sessionId'' (JStr (sessionId p)))]\<rparr>,
           p\<lparr>eventCounter := eventCounter p + 1\<rparr>)
        else (env, p))"

definition stopHeartbeat :: "proc_state \<Rightarrow> proc_state" where
  "stopHeartbeat st = (case st of (env, p) \<Rightarrow> (env, p\<lparr>heartbeatInterval := False\<rparr>))"


subsection \<open>Delta Batcher\<close>

text \<open>The batched event built in \<open>flushDeltaBuffer\<close> from the template \<open>lastDeltaEvent\<close>.\<close>

definition batchedEvent :: "json \<Rightarrow> json \<Rightarrow> string \<Rightarrow> json" where
  "batchedEvent template blockIndex accumulatedJson =
     JObj (set_prop (props template) ''event''
       (JObj (set_prop (set_prop (props (field template ''event'')) ''index'' blockIndex) ''delta''
          (JObj [(''type'', JStr ''input_json_delta''), (''partial_json'', JStr accumulatedJson)]))))"

text \<open>The \<open>for (const [blockIndex, accumulatedJson] of this.deltaBuffer)\<close> loop.\<close>

fun flush_entries :: "(json \<times> string) list \<Rightarrow> proc_state \<Rightarrow> proc_state" where
  "flush_entries [] st = st"
| "flush_entries ((blockIndex, accumulatedJson) # rest) st =
     flush_entries rest
       (if accumulatedJson \<noteq> [] \<and> truthy (lastDeltaEvent (snd st)) then
          sendToRenderer
            [(''type'', JStr ''stream_event''),
             (''data'', batchedEvent (lastDeltaEvent (snd st)) blockIndex accumulatedJson)] st
        else st)"

definition flushDeltaBuffer :: "proc_state \<Rightarrow> proc_state" where
  "flushDeltaBuffer st =
     (if deltaBuffer (snd st) = [] then st
      else case flush_entries (deltaBuffer (snd st)) st of
             (env, p) \<Rightarrow> (env, p\<lparr>deltaBuffer := []\<rparr>))"

definition ensureDeltaFlushTimer :: "proc_state \<Rightarrow> proc_state" where
  "ensureDeltaFlushTimer st = (case st of (env, p) \<Rightarrow> (env, p\<lparr>deltaFlushTimer := True\<rparr>))"

definition stopDeltaFlushTimer :: "proc_state \<Rightarrow> proc_state" where
  "stopDeltaFlushTimer st =
     (case st of (env, p) \<Rightarrow> flushDeltaBuffer (env, p\<lparr>deltaFlushTimer := False\<rparr>))"

text \<open>
  \<open>handleStreamLine(line)\<close>. \<open>parse\<close> is \<open>JSON.parse\<close> (\<open>None\<close>: it throws). The whole body
  is inside \<open>try\<close>: a \<open>TypeError\<close> (reading \<open>event.type\<close> of \<open>null\<close>, or
  \<open>partialJson.substring\<close> on a fragment that is not a string, evaluated for the log
  line before anything is stored) ends in the \<open>catch\<close>, which only logs.
\<close>

definition handleStreamLine :: "(string \<Rightarrow> json option) \<Rightarrow> string \<Rightarrow> proc_state \<Rightarrow> proc_state" where
  "handleStreamLine parse line st =
     (if trim line = [] then st
      else case parse line of
        None \<Rightarrow> st
      | Some event \<Rightarrow>
          if event = JNull \<or> event = JUndef then st
          else
            let innerType = field (field event ''event'') ''type'';
                deltaType = field (field (field event ''event'') ''delta'') ''type''
            in if deltaType = JStr ''input_json_delta'' then
                 (case js_or (field (field (field event ''event'') ''delta'') ''partial_json'') (JStr []) of
                    JStr partialJson \<Rightarrow>
                      (case st of (env, p) \<Rightarrow>
                         let blockIndex = nullish_or (field (field event ''event'') ''index'') (JNum 0);
                             existing = (case map_get (deltaBuffer p) blockIndex of
                                           None \<Rightarrow> [] | Some e \<Rightarrow> e)
                         in ensureDeltaFlushTimer
                              (env, p\<lparr>deltaBuffer := map_set (deltaBuffer p) blockIndex (existing @ partialJson),
                                      lastDeltaEvent := event\<rparr>))
                  | _ \<Rightarrow> st)
               else
                 let st1 = (if deltaBuffer (snd st) \<noteq> [] then flushDeltaBuffer st else st);
                     st2 = (if innerType = JStr ''content_block_stop'' then stopDeltaFlushTimer st1 else st1)
                 in sendToRenderer
                      [(''type'', js_or (field event ''type'') (JStr ''unknown'')), (''data'', event)] st2)"

text \<open>The stdout \<open>'data'\<close> handler of \<open>start\<close>: the Line Framer feeding \<open>handleStreamLine\<close>.\<close>

definition stdout_data :: "(string \<Rightarrow> json option) \<Rightarrow> string \<Rightarrow> proc_state \<Rightarrow> proc_state" where
  "stdout_data parse chunk st =
     (case st of (env, p) \<Rightarrow>
        case on_stdout_data (handleStreamLine parse) (stdoutBuffer p, (env, p)) chunk of
          (buf, (env', p')) \<Rightarrow> (env', p'\<lparr>stdoutBuffer := buf\<rparr>))"



subsection \<open>What the batcher holds and what a flush emits\<close>




text \<open>The payload \<open>sendToRenderer\<close> builds for one entry of the buffer, and the payloads a
  flush of the buffer of \<open>p\<close> hands to the window, in the order of the entries.\<close>

definition batched_payload :: "claude_process \<Rightarrow> json \<times> string \<Rightarrow> json" where
  "batched_payload p kv =
     JObj (set_prop [(''type'', JStr ''stream_event''),
                     (''data'', batchedEvent (lastDeltaEvent p) (fst kv) (snd kv))]
             ''sessionId'' (JStr (sessionId p)))"



































subsection \<open>Start, stop and send\<close>

text \<open>\<open>this.process.kill('SIGTERM')\<close> on the child with handle \<open>c\<close>.\<close>

definition kill_child :: "nat \<Rightarrow> string \<Rightarrow> main_env \<Rightarrow> main_env" where
  "kill_child c sig env =
     (if c < length (children env)
      then env\<lparr>children := (children env)[c := (children env ! c)\<lparr>signals := signals (children env ! c) @ [sig]\<rparr>]\<rparr>
      else env)"

definition stop :: "proc_state \<Rightarrow> proc_state" where
  "stop st =
     (case stopDeltaFlushTimer (stopHeartbeat st) of (env, p) \<Rightarrow>
        let p1 = p\<lparr>deltaBuffer := [], lastDeltaEvent := JNull, stdoutBuffer := [], stderrRl := False\<rparr>;
            env1 = (case process p1 of None \<Rightarrow> env | Some c \<Rightarrow> kill_child c ''SIGTERM'' env)
        in (env1, p1\<lparr>process := None, eventCounter := 0\<rparr>))"

definition isRunning :: "claude_process \<Rightarrow> bool" where
  "isRunning p = (process p \<noteq> None)"

definition getCwd :: "claude_process \<Rightarrow> string option" where
  "getCwd p = currentCwd p"




text \<open>
  \<open>send(message)\<close>. \<open>stringify\<close> is \<open>JSON.stringify\<close>. The children are spawned with
  \<open>stdio: 'pipe'\<close>, so a process has a stdin; a failing write is caught and reported.
\<close>

definition write_stdin :: "nat \<Rightarrow> string \<Rightarrow> main_env \<Rightarrow> main_env" where
  "write_stdin c d env =
     env\<lparr>children := (children env)[c := (children env ! c)\<lparr>stdin_data := stdin_data (children env ! c) @ [d]\<rparr>]\<rparr>"

definition send :: "(json \<Rightarrow> string) \<Rightarrow> string \<Rightarrow> proc_state \<Rightarrow> proc_state" where
  "send stringify message st =
     (case st of (env, p) \<Rightarrow>
        case process p of
          None \<Rightarrow>
            sendToRenderer
              [(''type'', JStr ''error''), (''error'', JStr ''Claude process not running. Please restart.'')] st
        | Some c \<Rightarrow>
            let inputMessage =
                  JObj [(''type'', JStr ''user''),
                        (''message'', JObj [(''role'', JStr ''user''), (''content'', JStr message)])];
                jsonLine = stringify inputMessage @ [NL]
            in if c < length (children env) then
                 (case stdin_fails (children env ! c) of
                    None \<Rightarrow> (write_stdin c jsonLine env, p)
                  | Some msg \<Rightarrow>
                      sendToRenderer
                        [(''type'', JStr ''error''), (''error'', JStr (''Failed to send message: '' @ msg))] st)
               else st)"

section \<open>Session Registry (claude-process-manager.ts)\<close>

text \<open>
  \<open>processes\<close> is the \<open>Map<string, ClaudeProcess>\<close> in insertion order. The map holds
  references to mutable objects; the model writes an instance back after each call on it.
\<close>

record manager =
  processes :: "(string \<times> claude_process) list"

type_synonym main_state = "main_env \<times> manager"

fun put_process :: "(string \<times> claude_process) list \<Rightarrow> string \<Rightarrow> claude_process \<Rightarrow> (string \<times> claude_process) list" where
  "put_process [] k v = [(k, v)]"
| "put_process ((k', v') # m) k v = (if k' = k then (k', v) # m else (k', v') # put_process m k v)"


text \<open>\<open>sendError\<close> sends at once, without \<open>setImmediate\<close>.\<close>

definition sendError :: "string \<Rightarrow> string \<Rightarrow> main_env \<Rightarrow> main_env" where
  "sendError sid err env =
     (if \<not> windowDestroyed env
      then env\<lparr>sent := sent env @ [JObj [(''type'', JStr ''error''), (''sessionId'', JStr sid), (''error'', JStr err)]]\<rparr>
      else env)"

definition manager_send :: "(json \<Rightarrow> string) \<Rightarrow> string \<Rightarrow> string \<Rightarrow> main_state \<Rightarrow> main_state" where
  "manager_send stringify sid message st =
     (case st of (env, m) \<Rightarrow>
        case map_of (processes m) sid of
          None \<Rightarrow> (sendError sid ''No Claude process running for this session. Please restart.'' env, m)
        | Some p \<Rightarrow>
            if \<not> isRunning p
            then (sendError sid ''Claude process not running. Please restart.'' env, m)
            else (case send stringify message (env, p) of
                    (env', p') \<Rightarrow> (env', m\<lparr>processes := put_process (processes m) sid p'\<rparr>)))"

definition manager_stop :: "string \<Rightarrow> main_state \<Rightarrow> main_state" where
  "manager_stop sid st =
     (case st of (env, m) \<Rightarrow>
        case map_of (processes m) sid of
          None \<Rightarrow> st
        | Some p \<Rightarrow>
            (case stop (env, p) of (env', p') \<Rightarrow> (env', m\<lparr>processes := put_process (processes m) sid p'\<rparr>)))"

definition manager_isRunning :: "string \<Rightarrow> manager \<Rightarrow> bool" where
  "manager_isRunning sid m = (case map_of (processes m) sid of None \<Rightarrow> False | Some p \<Rightarrow> isRunning p)"

text \<open>\<open>ipcMain.handle('claude:send', ...)\<close>: \<open>send\<close> runs inside \<open>try\<close>; nothing in it throws
  (the only throwing call, the write to stdin, is caught in \<open>ClaudeProcess.send\<close>), so the
  handler answers \<open>{success: true}\<close>.\<close>

definition ipc_claude_send :: "(json \<Rightarrow> string) \<Rightarrow> string \<Rightarrow> string \<Rightarrow> main_state \<Rightarrow> json \<times> main_state" where
  "ipc_claude_send stringify sid message st =
     (JObj [(''success'', JBool True)], manager_send stringify sid message st)"

text \<open>A host for concrete runs: a live window, nothing sent or spawned yet.\<close>

definition host0 :: main_env where
  "host0 =
     \<lparr>windowDestroyed = False, sent = [], children = [], cliFound = Some ''/usr/local/bin/claude'',
      homedir = ''/home/u'', path_resolve = (\<lambda>p. p), isWindows = False\<rparr>"



section \<open>Properties of the Delta Batcher\<close>












section \<open>Properties of the Session Registry\<close>

text \<open>
  C8: for a session id with no registered process, or whose process is not running,
  \<open>send\<close> hands the renderer window (which exists) exactly one event
  \<open>{type: 'error', sessionId, error}\<close> whose text says that no process is running, changes
  neither the registry nor any subprocess (nothing is written to a stdin), and returns
  normally: the IPC handler does not reach its \<open>catch\<close>.
\<close>

theorem C8_send_not_running:
  assumes nr: "\<not> manager_isRunning sid m" and win: "\<not> windowDestroyed env"
  shows "manager_send stringify sid message (env, m) =
      (env\<lparr>sent := sent env @
          [JObj [(''type'', JStr ''error''), (''sessionId'', JStr sid),
                 (''error'', JStr (if map_of (processes m) sid = None
                                    then ''No Claude process running for this session. Please restart.''
                                    else ''Claude process not running. Please restart.''))]]\<rparr>, m)
    \<and> children (fst (manager_send stringify sid message (env, m))) = children env
    \<and> ipc_claude_send stringify sid message (env, m) =
        (JObj [(''success'', JBool True)], manager_send stringify sid message (env, m))"
  using assms
  by (auto simp: manager_send_def manager_isRunning_def sendError_def ipc_claude_send_def
      split: option.splits)


theorem C8_send_not_running_witness:
  "\<not> manager_isRunning ''s1'' \<lparr>processes = []\<rparr>
   \<and> \<not> windowDestroyed host0
   \<and> sent (fst (manager_send (\<lambda>j. []) ''s1'' ''hello'' (host0, \<lparr>processes = []\<rparr>)))
     = [JObj [(''type'', JStr ''error''), (''sessionId'', JStr ''s1''),
              (''error'', JStr ''No Claude process running for this session. Please restart.'')]]
   \<and> children (fst (manager_send (\<lambda>j. []) ''s1'' ''hello'' (host0, \<lparr>processes = []\<rparr>))) = []"
proof -
  have h1: "\<not> manager_isRunning ''s1'' \<lparr>processes = []\<rparr>" by (simp add: manager_isRunning_def)
  have h2: "\<not> windowDestroyed host0" by (simp add: host0_def)
  have e: "sent host0 = []" "children host0 = []" by (simp_all add: host0_def)
  from C8_send_not_running [OF h1 h2, of "\<lambda>j. []" "''hello''"] h1 h2 show ?thesis
    by (simp add: e)
qed

subsection \<open>Restarting a session\<close>

text \<open>A subprocess counts as stopped once \<open>stop()\<close> has sent it \<open>SIGTERM\<close> (the source
  does not wait for its exit).\<close>
definition signalled :: "main_env \<Rightarrow> nat \<Rightarrow> bool" where
  "signalled env c \<longleftrightarrow> c < length (children env) \<and> ''SIGTERM'' \<in> set (signals (children env ! c))"





text \<open>Effect of stop.\<close>

lemma batched_payload_upd [simp]:
  "batched_payload (p\<lparr>heartbeatInterval := a\<rparr>) = batched_payload p"
  "batched_payload (p\<lparr>deltaFlushTimer := b\<rparr>) = batched_payload p"
  by (rule ext, simp add: batched_payload_def)+





lemma signalled_sent [simp]: "signalled (env\<lparr>sent := x\<rparr>) c = signalled env c"
  by (simp add: signalled_def)





lemma signalled_children_cong:
  "children env' = children env \<Longrightarrow> signalled env' c = signalled env c"
  by (simp add: signalled_def)














section \<open>Adaptive Stream Renderer (QuantumStreamRenderer.ts)\<close>

text \<open>
  Of a renderer the model keeps the character buffer and, for the \<open>onRender\<close> closure
  that \<open>getQuantumRenderer\<close> gives it, the value of \<open>currentSessionId\<close> when the renderer
  was created. The render mode and the timing metrics are floating-point state that only
  decides how many characters a frame renders; that number is an input of \<open>render\<close>.
\<close>

record renderer =
  buffer :: string
  closure_currentSessionId :: json

text \<open>\<open>Array.prototype.slice(start, end)\<close> and the count \<open>splice(0, n)\<close> removes.\<close>

definition js_slice :: "'a list \<Rightarrow> int \<Rightarrow> int \<Rightarrow> 'a list" where
  "js_slice xs a b =
     (let len = int (length xs);
          s = (if a < 0 then max (len + a) 0 else min a len);
          e = (if b < 0 then max (len + b) 0 else min b len)
      in take (nat (e - s)) (drop (nat s) xs))"

text \<open>\<open>s.indexOf(' ')\<close>, with \<open>-1\<close> for no occurrence.\<close>

fun indexOf_space :: "string \<Rightarrow> int" where
  "indexOf_space [] = -1"
| "indexOf_space (c # cs) =
     (if c = CHR '' '' then 0 else (let i = indexOf_space cs in if i < 0 then -1 else i + 1))"

text \<open>\<open>extractBatch(count)\<close>: the batch and the buffer left.\<close>

definition extractBatch :: "int \<Rightarrow> string \<Rightarrow> string \<times> string" where
  "extractBatch count buf =
     (let extractCount =
            (if count < int (length buf) then
               (let lookAhead = js_slice buf count (count + 10);
                    nextSpace = indexOf_space lookAhead
                in if nextSpace > 0 \<and> nextSpace < 5 then count + nextSpace + 1 else count)
             else count);
          n = nat (min (max extractCount 0) (int (length buf)))
      in (take n buf, drop n buf))"

section \<open>Conversation Reducer (App.tsx)\<close>

record content_block =
  blk_id :: string
  blk_type :: string
  blk_content :: string
  isComplete :: bool
  toolName :: json
  toolInput :: json
  toolStatus :: json

record message =
  msg_id :: json
  msg_role :: string
  msg_content :: "content_block list"
  msg_timestamp :: int
  msg_isStreaming :: json

record session_info =
  model :: json
  contextUsed :: json
  contextMax :: json
  outputTokens :: json
  totalCost :: json
  slashCommands :: json

record user_info =
  email :: json
  name :: json
  isLoggedIn :: bool

text \<open>
  The component's state: the React state the reducer writes (from \<open>messages\<close> to
  \<open>activeSessionIds\<close>), the refs, and the two sources of values from outside,
  \<open>Math.random\<close> behind \<open>generateId\<close> (\<open>ids n\<close> is the result of the \<open>n\<close>-th call) and
  the clock behind \<open>Date.now()\<close>. A \<open>setState(f)\<close> is applied at once; the handlers are
  the ones of the latest render, so the \<open>currentSessionId\<close> they close over is the state's.
  An entry of \<open>toolJsonFlushTimerRef\<close> is \<open>None\<close> for \<open>null\<close> and otherwise holds the
  \<open>currentSessionId\<close> that the timer's \<open>flushToolJson\<close> closure captured.
\<close>

record app =
  messages :: "message list"
  isStreaming :: bool
  isConnected :: bool
  sessionInfo :: session_info
  currentSessionId :: json
  claudeSessionId :: json
  error :: json
  thinkingStatus :: string
  todos :: json
  streamStartTime :: "int option"
  userInfo :: user_info
  activeSessionIds :: "json list"
  currentMessageIdRef :: "string option"
  currentBlockIndexRef :: json
  messagesPerSessionRef :: "(json \<times> message list) list"
  sessionInfoPerSessionRef :: "(json \<times> session_info) list"
  todosPerSessionRef :: "(json \<times> json) list"
  streamingPerSessionRef :: "(json \<times> bool) list"
  thinkingStatusPerSessionRef :: "(json \<times> string) list"
  currentMessageIdPerSessionRef :: "(json \<times> string option) list"
  currentBlockIndexPerSessionRef :: "(json \<times> json) list"
  claudeSessionIdPerSessionRef :: "(json \<times> json) list"
  streamStartTimePerSessionRef :: "(json \<times> int option) list"
  toolJsonAccumulatorRef :: "(json \<times> (json \<times> string) list) list"
  toolJsonFlushTimerRef :: "(json \<times> json option) list"
  lastFlushedLengthRef :: "(json \<times> (json \<times> nat) list) list"
  toolNameByBlockRef :: "(json \<times> (json \<times> json) list) list"
  quantumRendererRef :: "(json \<times> (json \<times> renderer) list) list"
  idCount :: nat
  ids :: "nat \<Rightarrow> string"
  now :: int


text \<open>How a handler ends other than by returning: a \<open>TypeError\<close> that the source does not
  catch, or a step that the model does not follow: a session id that is an array or an
  object (a \<open>Map\<close> key compared by identity), a block index that is a string, an array or
  an object (used as an array subscript), a block text or a JSON fragment that is not a
  string (stored as, or concatenated to, block content).\<close>

datatype js_error = TypeError | Unmodelled

text \<open>\<open>a === b\<close> for JSON values of which at most one is an object of the state.\<close>

definition strict_eq :: "json \<Rightarrow> json \<Rightarrow> bool" where
  "strict_eq a b = key_eq a b"

definition default_sessionInfo :: session_info where
  "default_sessionInfo =
     \<lparr>model = JStr ''claude-opus-4-5-20251101'', contextUsed = JNum 0, contextMax = JNum 200000,
      outputTokens = JNum 0, totalCost = JNum 0, slashCommands = JArr []\<rparr>"

definition generateId :: "app \<Rightarrow> string \<times> app" where
  "generateId s = (ids s (idCount s), s\<lparr>idCount := Suc (idCount s)\<rparr>)"

text \<open>\<open>getSessionMap(ref, sessionId)\<close> creates the session's map when it is missing;
  \<open>session_map\<close> reads it.\<close>

definition getSessionMap :: "(json \<times> (json \<times> 'v) list) list \<Rightarrow> json \<Rightarrow> (json \<times> (json \<times> 'v) list) list" where
  "getSessionMap ref sid = (if map_has ref sid then ref else map_set ref sid [])"

definition session_map :: "(json \<times> (json \<times> 'v) list) list \<Rightarrow> json \<Rightarrow> (json \<times> 'v) list" where
  "session_map ref sid = (case map_get ref sid of None \<Rightarrow> [] | Some m \<Rightarrow> m)"

text \<open>\<open>currentMessageIdPerSessionRef.current.get(sessionId)\<close> when it is truthy.\<close>

definition current_msgId :: "app \<Rightarrow> json \<Rightarrow> string option" where
  "current_msgId s sid =
     (case map_get (currentMessageIdPerSessionRef s) sid of
        Some (Some i) \<Rightarrow> if i \<noteq> [] then Some i else None
      | _ \<Rightarrow> None)"

text \<open>\<open>data.index ?? (currentBlockIndexPerSessionRef.current.get(sessionId) || 0)\<close>\<close>

definition event_blockIndex :: "app \<Rightarrow> json \<Rightarrow> json \<Rightarrow> json" where
  "event_blockIndex s sid data =
     nullish_or (field data ''index'')
       (js_or (case map_get (currentBlockIndexPerSessionRef s) sid of None \<Rightarrow> JUndef | Some j \<Rightarrow> j)
              (JNum 0))"

definition is_object :: "json \<Rightarrow> bool" where
  "is_object j = (case j of JArr x \<Rightarrow> True | JObj x \<Rightarrow> True | _ \<Rightarrow> False)"

definition modelled_index :: "json \<Rightarrow> bool" where
  "modelled_index j = (case j of JStr x \<Rightarrow> False | _ \<Rightarrow> \<not> is_object j)"

text \<open>The element an array subscript \<open>arr[j]\<close> denotes, for a subscript that is a number
  or a boolean: a non-negative whole number is an index, anything else names no element.\<close>

definition array_index :: "json \<Rightarrow> nat option" where
  "array_index j =
     (case j of
        JNum q \<Rightarrow> if 0 \<le> q \<and> q = of_int \<lfloor>q\<rfloor> then Some (nat \<lfloor>q\<rfloor>) else None
      | _ \<Rightarrow> None)"

text \<open>\<open>if (updatedContent[idx]) updatedContent[idx] = f(updatedContent[idx])\<close>\<close>

definition update_block :: "json \<Rightarrow> (content_block \<Rightarrow> content_block) \<Rightarrow> content_block list \<Rightarrow> content_block list" where
  "update_block blockIndex f blocks =
     (case array_index blockIndex of
        None \<Rightarrow> blocks
      | Some i \<Rightarrow> if i < length blocks then blocks[i := f (blocks ! i)] else blocks)"

text \<open>The updater every writer of blocks passes on:
  \<open>msgs.map(msg => msg.id === msgId ? { ...msg, content: g(msg.content) } : msg)\<close>\<close>

definition in_message :: "string \<Rightarrow> (content_block list \<Rightarrow> content_block list) \<Rightarrow> message list \<Rightarrow> message list" where
  "in_message msgId g =
     map (\<lambda>msg. if msg_id msg = JStr msgId then msg\<lparr>msg_content := g (msg_content msg)\<rparr> else msg)"

text \<open>The helpers of \<open>handleStreamEvent\<close> for the current session (React state) or a
  background one (the ref); \<open>cur\<close> is the \<open>currentSessionId\<close> of the calling closure.\<close>

definition update_messages_as :: "json \<Rightarrow> json \<Rightarrow> (message list \<Rightarrow> message list) \<Rightarrow> app \<Rightarrow> app" where
  "update_messages_as cur sid updateFn s =
     (if strict_eq sid cur then s\<lparr>messages := updateFn (messages s)\<rparr>
      else s\<lparr>messagesPerSessionRef :=
               map_set (messagesPerSessionRef s) sid
                 (updateFn (case map_get (messagesPerSessionRef s) sid of None \<Rightarrow> [] | Some ms \<Rightarrow> ms))\<rparr>)"

definition updateSessionMessages :: "json \<Rightarrow> (message list \<Rightarrow> message list) \<Rightarrow> app \<Rightarrow> app" where
  "updateSessionMessages sid updateFn s = update_messages_as (currentSessionId s) sid updateFn s"

definition updateSessionInfo :: "json \<Rightarrow> (session_info \<Rightarrow> session_info) \<Rightarrow> app \<Rightarrow> app" where
  "updateSessionInfo sid updateFn s =
     (if strict_eq sid (currentSessionId s) then s\<lparr>sessionInfo := updateFn (sessionInfo s)\<rparr>
      else s\<lparr>sessionInfoPerSessionRef :=
               map_set (sessionInfoPerSessionRef s) sid
                 (updateFn (case map_get (sessionInfoPerSessionRef s) sid of
                              None \<Rightarrow> default_sessionInfo | Some i \<Rightarrow> i))\<rparr>)"

definition showError :: "json \<Rightarrow> app \<Rightarrow> app" where
  "showError msg s = s\<lparr>error := msg\<rparr>"

subsection \<open>Renderer callbacks and the tool-JSON flush\<close>

text \<open>The \<open>onRender\<close> callback of the renderer of \<open>(sessionId, blockIndex)\<close>.\<close>

definition onRender :: "json \<Rightarrow> json \<Rightarrow> json \<Rightarrow> string \<Rightarrow> app \<Rightarrow> app" where
  "onRender sid blockIndex cur text s =
     (case current_msgId s sid of
        None \<Rightarrow> s
      | Some msgId \<Rightarrow>
          update_messages_as cur sid
            (in_message msgId (update_block blockIndex (\<lambda>b. b\<lparr>blk_content := blk_content b @ text\<rparr>)))
            s)"

text \<open>\<open>renderer.flush()\<close> seen from the component: the callback with all that is buffered.\<close>

definition renderer_flush :: "json \<Rightarrow> json \<Rightarrow> renderer \<Rightarrow> app \<Rightarrow> app" where
  "renderer_flush sid blockIndex r s =
     (if buffer r \<noteq> [] then onRender sid blockIndex (closure_currentSessionId r) (buffer r) s else s)"

text \<open>\<open>cleanupQuantumRenderers(sessionId)\<close>: flush and destroy each, then clear the map.\<close>

fun flush_renderers :: "json \<Rightarrow> (json \<times> renderer) list \<Rightarrow> app \<Rightarrow> app" where
  "flush_renderers sid [] s = s"
| "flush_renderers sid ((blockIndex, r) # rs) s = flush_renderers sid rs (renderer_flush sid blockIndex r s)"

definition cleanupQuantumRenderers :: "json \<Rightarrow> app \<Rightarrow> app" where
  "cleanupQuantumRenderers sid s =
     (case map_get (quantumRendererRef s) sid of
        None \<Rightarrow> s
      | Some sessionRenderers \<Rightarrow>
          (flush_renderers sid sessionRenderers s)
            \<lparr>quantumRendererRef := map_set (quantumRendererRef s) sid []\<rparr>)"

text \<open>\<open>getQuantumRenderer(sessionId, blockIndex)\<close> followed by \<open>renderer.onData(chunk)\<close>.\<close>

definition renderer_onData :: "json \<Rightarrow> json \<Rightarrow> string \<Rightarrow> app \<Rightarrow> app" where
  "renderer_onData sid blockIndex chunk s =
     (let sessionRenderers = session_map (quantumRendererRef s) sid;
          r = (case map_get sessionRenderers blockIndex of
                 None \<Rightarrow> \<lparr>buffer = [], closure_currentSessionId = currentSessionId s\<rparr>
               | Some r \<Rightarrow> r)
      in s\<lparr>quantumRendererRef :=
             map_set (quantumRendererRef s) sid
               (map_set sessionRenderers blockIndex (r\<lparr>buffer := buffer r @ chunk\<rparr>))\<rparr>)"

text \<open>One animation frame of the renderer of \<open>(sessionId, blockIndex)\<close>, if it exists:
  \<open>render\<close> with \<open>charsToRender\<close> the value of \<open>calculateRenderAmount\<close>.\<close>

definition render_frame :: "json \<Rightarrow> json \<Rightarrow> int \<Rightarrow> app \<Rightarrow> app" where
  "render_frame sid blockIndex charsToRender s =
     (case map_get (session_map (quantumRendererRef s) sid) blockIndex of
        None \<Rightarrow> s
      | Some r \<Rightarrow>
          if buffer r = [] \<or> charsToRender = 0 then s
          else case extractBatch charsToRender (buffer r) of
            (batch, rest) \<Rightarrow>
              let s1 = s\<lparr>quantumRendererRef :=
                         map_set (quantumRendererRef s) sid
                           (map_set (session_map (quantumRendererRef s) sid) blockIndex (r\<lparr>buffer := rest\<rparr>))\<rparr>
              in if batch = [] then s1
                 else onRender sid blockIndex (closure_currentSessionId r) batch s1)"

text \<open>\<open>flushToolJson(sessionId, blockIndex?)\<close> in a closure that captured \<open>cur\<close>.\<close>

definition flushToolJson :: "json \<Rightarrow> json option \<Rightarrow> json \<Rightarrow> app \<Rightarrow> app" where
  "flushToolJson sid blockIndex cur s =
     (case current_msgId s sid of
        None \<Rightarrow> s
      | Some msgId \<Rightarrow>
          let s1 = s\<lparr>toolJsonAccumulatorRef := getSessionMap (toolJsonAccumulatorRef s) sid,
                     lastFlushedLengthRef := getSessionMap (lastFlushedLengthRef s) sid\<rparr>;
              sessionAccumulator = session_map (toolJsonAccumulatorRef s1) sid;
              sessionLastFlushed = session_map (lastFlushedLengthRef s1) sid;
              indicesToFlush = (case blockIndex of Some i \<Rightarrow> [i] | None \<Rightarrow> map fst sessionAccumulator);
              isNew = (\<lambda>idx. case map_get sessionAccumulator idx of
                                None \<Rightarrow> False
                              | Some accumulated \<Rightarrow>
                                  accumulated \<noteq> []
                                  \<and> length accumulated > (case map_get sessionLastFlushed idx of None \<Rightarrow> 0 | Some n \<Rightarrow> n))
          in if indicesToFlush = [] then s1
             else if \<not> list_ex isNew indicesToFlush then s1
             else
               let sessionLastFlushed' =
                     foldl (\<lambda>m idx. if isNew idx
                                     then map_set m idx (length (the (map_get sessionAccumulator idx)))
                                     else m)
                       sessionLastFlushed indicesToFlush;
                   s2 = s1\<lparr>lastFlushedLengthRef := map_set (lastFlushedLengthRef s1) sid sessionLastFlushed'\<rparr>;
                   updateMessages =
                     in_message msgId
                       (\<lambda>content.
                          foldl (\<lambda>updatedContent idx.
                                   case map_get sessionAccumulator idx of
                                     None \<Rightarrow> updatedContent
                                   | Some accumulated \<Rightarrow>
                                       if accumulated \<noteq> []
                                       then update_block idx (\<lambda>b. b\<lparr>blk_content := accumulated\<rparr>) updatedContent
                                       else updatedContent)
                            content indicesToFlush)
               in update_messages_as cur sid updateMessages s2)"

definition ensureFlushTimer :: "json \<Rightarrow> app \<Rightarrow> app" where
  "ensureFlushTimer sid s =
     (case map_get (toolJsonFlushTimerRef s) sid of
        Some (Some t) \<Rightarrow> s
      | _ \<Rightarrow> s\<lparr>toolJsonFlushTimerRef := map_set (toolJsonFlushTimerRef s) sid (Some (currentSessionId s))\<rparr>)"

definition stopFlushTimer :: "json \<Rightarrow> app \<Rightarrow> app" where
  "stopFlushTimer sid s =
     (case map_get (toolJsonFlushTimerRef s) sid of
        Some (Some t) \<Rightarrow> s\<lparr>toolJsonFlushTimerRef := map_set (toolJsonFlushTimerRef s) sid None\<rparr>
      | _ \<Rightarrow> s)"


subsection \<open>handleStreamEvent\<close>

text \<open>\<open>prev.includes(id)\<close> and \<open>prev.filter(id => id !== eventSessionId)\<close>.\<close>

definition array_includes :: "json list \<Rightarrow> json \<Rightarrow> bool" where
  "array_includes xs x = list_ex (\<lambda>y. key_eq y x) xs"

definition on_status :: "json \<Rightarrow> app \<Rightarrow> app" where
  "on_status event s =
     (let eventSessionId = field event ''sessionId'';
          isCurrentSession = strict_eq eventSessionId (currentSessionId s)
      in if \<not> truthy eventSessionId then s
         else if field event ''status'' = JStr ''started'' then
           (let s1 = s\<lparr>activeSessionIds :=
                        (if array_includes (activeSessionIds s) eventSessionId then activeSessionIds s
                         else activeSessionIds s @ [eventSessionId])\<rparr>
            in if isCurrentSession then s1\<lparr>isConnected := True\<rparr> else s1)
         else if field event ''status'' = JStr ''stopped'' then
           (let s1 = s\<lparr>activeSessionIds := filter (\<lambda>i. \<not> strict_eq i eventSessionId) (activeSessionIds s),
                       streamingPerSessionRef := map_set (streamingPerSessionRef s) eventSessionId False\<rparr>
            in if isCurrentSession then s1\<lparr>isConnected := False, isStreaming := False\<rparr> else s1)
         else s)"

definition on_error :: "json \<Rightarrow> app \<Rightarrow> app" where
  "on_error event s =
     (let eventSessionId = field event ''sessionId'';
          isCurrentSession = strict_eq eventSessionId (currentSessionId s);
          s1 = s\<lparr>streamingPerSessionRef := map_set (streamingPerSessionRef s) eventSessionId False,
                  thinkingStatusPerSessionRef := map_set (thinkingStatusPerSessionRef s) eventSessionId ''idle''\<rparr>
      in if isCurrentSession
         then showError (js_or (field event ''error'') (JStr ''An error occurred''))
                (s1\<lparr>isStreaming := False, thinkingStatus := ''idle''\<rparr>)
         else s1)"

definition on_system :: "json \<Rightarrow> json \<Rightarrow> app \<Rightarrow> app" where
  "on_system data sid s =
     (if field data ''subtype'' \<noteq> JStr ''init'' then s
      else
        let isCurrentSession = strict_eq sid (currentSessionId s);
            s1 = (if isCurrentSession then s\<lparr>isConnected := True\<rparr> else s);
            s2 = updateSessionInfo sid
                   (\<lambda>prev. prev\<lparr>model := js_or (field data ''model'') (model prev),
                                 slashCommands := js_or (field data ''slash_commands'') (slashCommands prev)\<rparr>) s1;
            s3 = (if truthy (field data ''session_id'') then
                    (let s' = s2\<lparr>claudeSessionIdPerSessionRef :=
                                  map_set (claudeSessionIdPerSessionRef s2) sid (field data ''session_id'')\<rparr>
                     in if isCurrentSession then s'\<lparr>claudeSessionId := field data ''session_id''\<rparr> else s')
                  else s2)
        in if truthy (field data ''user'') \<or> truthy (field data ''email'') \<or> truthy (field data ''account'')
           then s3\<lparr>userInfo :=
                     \<lparr>email = js_or (js_or (js_or (field data ''email'') (field (field data ''user'') ''email''))
                                            (field (field data ''account'') ''email'')) JNull,
                      name = js_or (js_or (js_or (field data ''name'') (field (field data ''user'') ''name''))
                                           (field (field data ''account'') ''name'')) JNull,
                      isLoggedIn = True\<rparr>\<rparr>
           else s3)"

definition on_message_start :: "json \<Rightarrow> json \<Rightarrow> app \<Rightarrow> app" where
  "on_message_start data sid s =
     (let isCurrentSession = strict_eq sid (currentSessionId s);
          s1 = s\<lparr>streamingPerSessionRef := map_set (streamingPerSessionRef s) sid True,
                  streamStartTimePerSessionRef := map_set (streamStartTimePerSessionRef s) sid (Some (now s))\<rparr>
      in case generateId s1 of
           (newMessageId, s2) \<Rightarrow>
             let s3 = s2\<lparr>currentMessageIdPerSessionRef :=
                           map_set (currentMessageIdPerSessionRef s2) sid (Some newMessageId),
                         currentBlockIndexPerSessionRef :=
                           map_set (currentBlockIndexPerSessionRef s2) sid (JNum 0)\<rparr>;
                 s4 = (if isCurrentSession
                       then s3\<lparr>isStreaming := True, streamStartTime := Some (now s3),
                               currentMessageIdRef := Some newMessageId, currentBlockIndexRef := JNum 0\<rparr>
                       else s3);
                 usage = field (field data ''message'') ''usage'';
                 s5 = (if truthy usage
                       then updateSessionInfo sid
                              (\<lambda>prev. prev\<lparr>contextUsed := js_or (field usage ''input_tokens'') (JNum 0),
                                            outputTokens := js_or (field usage ''output_tokens'') (JNum 0)\<rparr>) s4
                       else s4);
                 newMessage = \<lparr>msg_id = JStr newMessageId, msg_role = ''assistant'', msg_content = [],
                               msg_timestamp = now s5, msg_isStreaming = JBool True\<rparr>
             in updateSessionMessages sid (\<lambda>prev. prev @ [newMessage]) s5)"

text \<open>What \<open>content_block_start\<close> records by the type of the block: the thinking status,
  the tool's name under the block index, the todos of a \<open>TodoWrite\<close> block.\<close>

definition note_block_start :: "json \<Rightarrow> json \<Rightarrow> json \<Rightarrow> app \<Rightarrow> app" where
  "note_block_start block sid blockIndex s =
     (let isCurrentSession = strict_eq sid (currentSessionId s)
      in if field block ''type'' = JStr ''thinking'' then
           (let s' = s\<lparr>thinkingStatusPerSessionRef :=
                         map_set (thinkingStatusPerSessionRef s) sid ''thinking''\<rparr>
            in if isCurrentSession then s'\<lparr>thinkingStatus := ''thinking''\<rparr> else s')
         else if field block ''type'' = JStr ''tool_use'' then
           (let sa = s\<lparr>toolNameByBlockRef := getSessionMap (toolNameByBlockRef s) sid\<rparr>;
                sb = (if truthy (field block ''name'')
                      then sa\<lparr>toolNameByBlockRef :=
                                map_set (toolNameByBlockRef sa) sid
                                  (map_set (session_map (toolNameByBlockRef sa) sid)
                                     blockIndex (field block ''name''))\<rparr>
                      else sa)
            in if field block ''name'' = JStr ''TodoWrite''
                  \<and> truthy (field (field block ''input'') ''todos'')
               then
                 (let sc = sb\<lparr>todosPerSessionRef :=
                                map_set (todosPerSessionRef sb) sid
                                  (field (field block ''input'') ''todos'')\<rparr>
                  in if isCurrentSession
                     then sc\<lparr>todos := field (field block ''input'') ''todos''\<rparr> else sc)
               else sb)
         else if field block ''type'' = JStr ''text'' then
           (let s' = s\<lparr>thinkingStatusPerSessionRef :=
                         map_set (thinkingStatusPerSessionRef s) sid ''responding''\<rparr>
            in if isCurrentSession then s'\<lparr>thinkingStatus := ''responding''\<rparr> else s')
         else s)"

definition on_content_block_start :: "json \<Rightarrow> json \<Rightarrow> app \<Rightarrow> js_error + app" where
  "on_content_block_start data sid s =
     (case current_msgId s sid of
        None \<Rightarrow> Inr s
      | Some msgId \<Rightarrow>
          if \<not> truthy (field data ''content_block'') then Inr s
          else
            let block = field data ''content_block'';
                isCurrentSession = strict_eq sid (currentSessionId s);
                blockIndex = event_blockIndex s sid data
            in if \<not> modelled_index blockIndex then Inl Unmodelled
               else case js_or (js_or (field block ''text'') (field block ''thinking'')) (JStr []) of
                 JStr content0 \<Rightarrow>
                   let blockType = (if field block ''type'' = JStr ''thinking'' then ''thinking''
                                    else if field block ''type'' = JStr ''tool_use'' then ''tool_use''
                                    else ''text'');
                       s1 = note_block_start block sid blockIndex s
                   in (case generateId s1 of
                         (newId, s2) \<Rightarrow>
                           let newBlock =
                                 \<lparr>blk_id = newId, blk_type = blockType, blk_content = content0,
                                  isComplete = False, toolName = field block ''name'',
                                  toolInput = field block ''input'',
                                  toolStatus = (if blockType = ''tool_use'' then JStr ''running'' else JUndef)\<rparr>;
                               s3 = updateSessionMessages sid
                                      (in_message msgId (\<lambda>content. content @ [newBlock])) s2;
                               s4 = s3\<lparr>currentBlockIndexPerSessionRef :=
                                         map_set (currentBlockIndexPerSessionRef s3) sid blockIndex\<rparr>
                           in Inr (if isCurrentSession then s4\<lparr>currentBlockIndexRef := blockIndex\<rparr> else s4))
               | _ \<Rightarrow> Inl Unmodelled)"

definition on_content_block_delta :: "json \<Rightarrow> json \<Rightarrow> app \<Rightarrow> js_error + app" where
  "on_content_block_delta data sid s =
     (case current_msgId s sid of
        None \<Rightarrow> Inr s
      | Some msgId \<Rightarrow>
          if \<not> truthy (field data ''delta'') then Inr s
          else
            let delta = field data ''delta'';
                blockIndex = event_blockIndex s sid data
            in if \<not> modelled_index blockIndex then Inl Unmodelled
               else if field delta ''type'' = JStr ''text_delta'' \<or> field delta ''type'' = JStr ''thinking_delta'' then
                 (let textToAppend =
                        (if field delta ''type'' = JStr ''text_delta''
                         then js_or (field delta ''text'') (JStr [])
                         else js_or (field delta ''thinking'') (JStr []))
                  in if \<not> truthy textToAppend then Inr s
                     else case textToAppend of
                            JStr chunk \<Rightarrow> Inr (renderer_onData sid blockIndex chunk s)
                          | _ \<Rightarrow> Inl TypeError)
               else if field delta ''type'' = JStr ''input_json_delta'' then
                 (let jsonChunk = js_or (field delta ''partial_json'') (JStr [])
                  in if \<not> truthy jsonChunk then Inr s
                     else case jsonChunk of
                            JStr chunk \<Rightarrow>
                              let s1 = s\<lparr>toolJsonAccumulatorRef := getSessionMap (toolJsonAccumulatorRef s) sid\<rparr>;
                                  sessionAccumulator = session_map (toolJsonAccumulatorRef s1) sid;
                                  current = (case map_get sessionAccumulator blockIndex of
                                               None \<Rightarrow> [] | Some c \<Rightarrow> c)
                              in Inr (ensureFlushTimer sid
                                        (s1\<lparr>toolJsonAccumulatorRef :=
                                               map_set (toolJsonAccumulatorRef s1) sid
                                                 (map_set sessionAccumulator blockIndex (current @ chunk))\<rparr>))
                          | _ \<Rightarrow> Inl Unmodelled)
               else Inr s)"


text \<open>\<open>renderer.flush(); renderer.destroy(); sessionRenderers.delete(blockIndex)\<close> for the
  renderer of the block, if there is one.\<close>

definition destroy_renderer :: "json \<Rightarrow> json \<Rightarrow> app \<Rightarrow> app" where
  "destroy_renderer sid blockIndex s =
     (case map_get (quantumRendererRef s) sid of
        None \<Rightarrow> s
      | Some sessionRenderers \<Rightarrow>
          (case map_get sessionRenderers blockIndex of
             None \<Rightarrow> s
           | Some r \<Rightarrow>
               (renderer_flush sid blockIndex r s)
                 \<lparr>quantumRendererRef :=
                    map_set (quantumRendererRef s) sid (map_delete sessionRenderers blockIndex)\<rparr>))"

text \<open>The accumulated JSON of the block is read and deleted; the flush timer stops when
  the session's accumulator is empty.\<close>

definition take_accumulated :: "json \<Rightarrow> json \<Rightarrow> app \<Rightarrow> string option \<times> app" where
  "take_accumulated sid blockIndex s =
     (let s2 = s\<lparr>toolJsonAccumulatorRef := getSessionMap (toolJsonAccumulatorRef s) sid\<rparr>;
          sessionAccumulator = session_map (toolJsonAccumulatorRef s2) sid;
          finalJsonContent = map_get sessionAccumulator blockIndex;
          sessionAccumulator' = map_delete sessionAccumulator blockIndex;
          s3 = s2\<lparr>toolJsonAccumulatorRef :=
                    map_set (toolJsonAccumulatorRef s2) sid sessionAccumulator'\<rparr>
      in (finalJsonContent, if sessionAccumulator' = [] then stopFlushTimer sid s3 else s3))"

text \<open>The stored tool name is read and deleted. With a tool name and accumulated JSON the
  JSON is parsed (\<open>parse\<close> is \<open>JSON.parse\<close>; \<open>None\<close>: it throws, and the \<open>try\<close> around it
  ignores that), and the todos of a \<open>TodoWrite\<close> input replace the session's.\<close>

definition take_tool_name :: "(string \<Rightarrow> json option) \<Rightarrow> json \<Rightarrow> json \<Rightarrow> string \<Rightarrow> app \<Rightarrow> json \<times> app" where
  "take_tool_name parse sid blockIndex final s =
     (let isCurrentSession = strict_eq sid (currentSessionId s);
          s5 = s\<lparr>toolNameByBlockRef := getSessionMap (toolNameByBlockRef s) sid\<rparr>;
          sessionToolNames = session_map (toolNameByBlockRef s5) sid;
          storedToolName = (case map_get sessionToolNames blockIndex of None \<Rightarrow> JUndef | Some n \<Rightarrow> n);
          preParsedInput =
            (if truthy storedToolName \<and> final \<noteq> []
             then (case parse final of None \<Rightarrow> JNull | Some j \<Rightarrow> j)
             else JNull);
          s6 = (if truthy storedToolName \<and> final \<noteq> [] \<and> parse final \<noteq> None
                   \<and> storedToolName = JStr ''TodoWrite'' \<and> truthy (field preParsedInput ''todos'')
                then
                  (let s' = s5\<lparr>todosPerSessionRef :=
                                map_set (todosPerSessionRef s5) sid (field preParsedInput ''todos'')\<rparr>
                   in if isCurrentSession then s'\<lparr>todos := field preParsedInput ''todos''\<rparr> else s')
                else s5)
      in (preParsedInput,
          s6\<lparr>toolNameByBlockRef :=
               map_set (toolNameByBlockRef s6) sid (map_delete sessionToolNames blockIndex)\<rparr>))"

text \<open>The block as \<open>content_block_stop\<close> leaves it.\<close>

definition complete_block :: "(string \<Rightarrow> json option) \<Rightarrow> string \<Rightarrow> json \<Rightarrow> content_block \<Rightarrow> content_block" where
  "complete_block parse final preParsedInput block =
     (let jsonContent = (if final \<noteq> [] then final else blk_content block);
          parsedInput0 = js_or preParsedInput (toolInput block);
          parsedInput =
            (if \<not> truthy preParsedInput \<and> blk_type block = ''tool_use'' \<and> jsonContent \<noteq> []
             then (case parse jsonContent of None \<Rightarrow> parsedInput0 | Some j \<Rightarrow> j)
             else parsedInput0)
      in block\<lparr>blk_content := jsonContent, isComplete := True,
               toolInput := parsedInput,
               toolStatus := (if truthy (toolStatus block) then JStr ''complete'' else JUndef)\<rparr>)"

definition on_content_block_stop :: "(string \<Rightarrow> json option) \<Rightarrow> json \<Rightarrow> json \<Rightarrow> app \<Rightarrow> js_error + app" where
  "on_content_block_stop parse data sid s =
     (case current_msgId s sid of
        None \<Rightarrow> Inr s
      | Some msgId \<Rightarrow>
          let blockIndex = event_blockIndex s sid data
          in if \<not> modelled_index blockIndex then Inl Unmodelled
             else
               case take_accumulated sid blockIndex (destroy_renderer sid blockIndex s) of
                 (finalJsonContent, s4) \<Rightarrow>
                   let final = (case finalJsonContent of None \<Rightarrow> [] | Some f \<Rightarrow> f)
                   in case take_tool_name parse sid blockIndex final s4 of
                        (preParsedInput, s7) \<Rightarrow>
                          Inr (updateSessionMessages sid
                                 (in_message msgId
                                    (update_block blockIndex (complete_block parse final preParsedInput)))
                                 s7))"

definition on_message_delta :: "json \<Rightarrow> json \<Rightarrow> app \<Rightarrow> app" where
  "on_message_delta data sid s =
     (if truthy (field (field data ''usage'') ''output_tokens'')
      then updateSessionInfo sid
             (\<lambda>prev. prev\<lparr>outputTokens := field (field data ''usage'') ''output_tokens''\<rparr>) s
      else s)"

definition on_message_stop :: "json \<Rightarrow> json \<Rightarrow> app \<Rightarrow> app" where
  "on_message_stop data sid s =
     (case current_msgId s sid of
        None \<Rightarrow> s
      | Some msgId \<Rightarrow>
          updateSessionMessages sid
            (map (\<lambda>msg. if msg_id msg = JStr msgId then msg\<lparr>msg_isStreaming := JBool False\<rparr> else msg)) s)"

text \<open>The \<open>assistant\<close> fallback. \<open>stringify\<close> is \<open>JSON.stringify(x)\<close> and \<open>stringify2\<close> is
  \<open>JSON.stringify(x, null, 2)\<close>. The blocks are converted in order, each drawing an id.\<close>

fun assistant_blocks :: "(json \<Rightarrow> string) \<Rightarrow> (json \<Rightarrow> string) \<Rightarrow> json list \<Rightarrow> app \<Rightarrow> js_error + (content_block list \<times> app)" where
  "assistant_blocks stringify stringify2 [] s = Inr ([], s)"
| "assistant_blocks stringify stringify2 (block # blocks) s =
     (if block = JNull \<or> block = JUndef then Inl TypeError
      else case generateId s of
        (newId, s1) \<Rightarrow>
          (case (if field block ''type'' = JStr ''text'' then
                   (case js_or (field block ''text'') (JStr []) of
                      JStr c \<Rightarrow> Inr \<lparr>blk_id = newId, blk_type = ''text'', blk_content = c, isComplete = True,
                                     toolName = JUndef, toolInput = JUndef, toolStatus = JUndef\<rparr>
                    | _ \<Rightarrow> Inl Unmodelled)
                 else if field block ''type'' = JStr ''thinking'' then
                   (case js_or (field block ''thinking'') (JStr []) of
                      JStr c \<Rightarrow> Inr \<lparr>blk_id = newId, blk_type = ''thinking'', blk_content = c, isComplete = True,
                                     toolName = JUndef, toolInput = JUndef, toolStatus = JUndef\<rparr>
                    | _ \<Rightarrow> Inl Unmodelled)
                 else if field block ''type'' = JStr ''tool_use'' then
                   Inr \<lparr>blk_id = newId, blk_type = ''tool_use'',
                        blk_content = stringify2 (js_or (field block ''input'') (JObj [])),
                        isComplete = True, toolName = field block ''name'', toolInput = field block ''input'',
                        toolStatus = JStr ''complete''\<rparr>
                 else
                   Inr \<lparr>blk_id = newId, blk_type = ''text'', blk_content = stringify block, isComplete = True,
                        toolName = JUndef, toolInput = JUndef, toolStatus = JUndef\<rparr>) of
             Inl e \<Rightarrow> Inl e
           | Inr b \<Rightarrow>
               (case assistant_blocks stringify stringify2 blocks s1 of
                  Inl e \<Rightarrow> Inl e
                | Inr (bs, s2) \<Rightarrow> Inr (b # bs, s2))))"

definition on_assistant :: "(json \<Rightarrow> string) \<Rightarrow> (json \<Rightarrow> string) \<Rightarrow> json \<Rightarrow> json \<Rightarrow> app \<Rightarrow> js_error + app" where
  "on_assistant stringify stringify2 data sid s =
     (let isCurrentSession = strict_eq sid (currentSessionId s);
          s0 = s\<lparr>streamingPerSessionRef := map_set (streamingPerSessionRef s) sid False\<rparr>;
          s1 = (if isCurrentSession then s0\<lparr>isStreaming := False\<rparr> else s0);
          content = field (field data ''message'') ''content''
      in if truthy content \<and> current_msgId s1 sid = None then
           (case content of
              JArr blocks \<Rightarrow>
                (case assistant_blocks stringify stringify2 blocks s1 of
                   Inl e \<Rightarrow> Inl e
                 | Inr (contentBlocks, s2) \<Rightarrow>
                     (case (if truthy (field data ''uuid'') then (field data ''uuid'', s2)
                            else (case generateId s2 of (i, s') \<Rightarrow> (JStr i, s'))) of
                        (newId, s3) \<Rightarrow>
                          Inr (updateSessionMessages sid
                                 (\<lambda>prev. prev @ [\<lparr>msg_id = newId, msg_role = ''assistant'',
                                                   msg_content = contentBlocks, msg_timestamp = now s3,
                                                   msg_isStreaming = JBool False\<rparr>])
                                 s3)))
            | _ \<Rightarrow> Inl TypeError)
         else Inr s1)"

text \<open>\<open>if (m) m.clear()\<close> for the session's map in a ref.\<close>

definition clear_session_map :: "(json \<times> (json \<times> 'v) list) list \<Rightarrow> json \<Rightarrow> (json \<times> (json \<times> 'v) list) list" where
  "clear_session_map ref sid = (if map_has ref sid then map_set ref sid [] else ref)"

definition on_result :: "json \<Rightarrow> json \<Rightarrow> app \<Rightarrow> app" where
  "on_result data sid s =
     (let isCurrentSession = strict_eq sid (currentSessionId s);
          s1 = s\<lparr>streamingPerSessionRef := map_set (streamingPerSessionRef s) sid False,
                  thinkingStatusPerSessionRef := map_set (thinkingStatusPerSessionRef s) sid ''idle'',
                  streamStartTimePerSessionRef := map_set (streamStartTimePerSessionRef s) sid None,
                  currentMessageIdPerSessionRef := map_set (currentMessageIdPerSessionRef s) sid None,
                  currentBlockIndexPerSessionRef := map_set (currentBlockIndexPerSessionRef s) sid (JNum 0)\<rparr>;
          s2 = (if isCurrentSession
                then s1\<lparr>isStreaming := False, thinkingStatus := ''idle'', streamStartTime := None,
                        currentMessageIdRef := None, currentBlockIndexRef := JNum 0\<rparr>
                else s1);
          s3 = stopFlushTimer sid (cleanupQuantumRenderers sid s2);
          s4 = s3\<lparr>toolJsonAccumulatorRef := clear_session_map (toolJsonAccumulatorRef s3) sid,
                   lastFlushedLengthRef := clear_session_map (lastFlushedLengthRef s3) sid,
                   toolNameByBlockRef := clear_session_map (toolNameByBlockRef s3) sid\<rparr>;
          usage = field data ''usage''
      in if truthy usage
         then updateSessionInfo sid
                (\<lambda>prev. prev\<lparr>contextUsed := js_or (field usage ''input_tokens'') (contextUsed prev),
                              outputTokens := js_or (field usage ''output_tokens'') (JNum 0),
                              totalCost := js_or (field data ''total_cost_usd'') (totalCost prev)\<rparr>) s4
         else s4)"

text \<open>The payload the \<open>switch\<close> looks at: \<open>event.data\<close>, unwrapped when the event is a
  \<open>stream_event\<close> whose data carries an \<open>event\<close>.\<close>

definition event_data :: "json \<Rightarrow> json" where
  "event_data event =
     (if field event ''type'' = JStr ''stream_event'' \<and> truthy (field (field event ''data'') ''event'')
      then field (field event ''data'') ''event''
      else field event ''data'')"

definition handleStreamEvent ::
  "(string \<Rightarrow> json option) \<Rightarrow> (json \<Rightarrow> string) \<Rightarrow> (json \<Rightarrow> string) \<Rightarrow> json \<Rightarrow> app \<Rightarrow> js_error + app" where
  "handleStreamEvent parse stringify stringify2 event s =
     (if event = JNull \<or> event = JUndef then Inl TypeError
      else if is_object (field event ''sessionId'') then Inl Unmodelled
      else
        let eventSessionId = field event ''sessionId'';
            data = event_data event
        in if field event ''type'' = JStr ''status'' then Inr (on_status event s)
           else if field event ''type'' = JStr ''error'' then Inr (on_error event s)
           else if field event ''type'' = JStr ''heartbeat'' then Inr s
           else if \<not> truthy (field event ''data'') then Inr s
           else if \<not> truthy eventSessionId then Inr s
           else if field data ''type'' = JStr ''system'' then Inr (on_system data eventSessionId s)
           else if field data ''type'' = JStr ''message_start'' then Inr (on_message_start data eventSessionId s)
           else if field data ''type'' = JStr ''content_block_start'' then on_content_block_start data eventSessionId s
           else if field data ''type'' = JStr ''content_block_delta'' then on_content_block_delta data eventSessionId s
           else if field data ''type'' = JStr ''content_block_stop'' then on_content_block_stop parse data eventSessionId s
           else if field data ''type'' = JStr ''message_delta'' then Inr (on_message_delta data eventSessionId s)
           else if field data ''type'' = JStr ''message_stop'' then Inr (on_message_stop data eventSessionId s)
           else if field data ''type'' = JStr ''assistant'' then on_assistant stringify stringify2 data eventSessionId s
           else if field data ''type'' = JStr ''result'' then Inr (on_result data eventSessionId s)
           else Inr s)"

subsection \<open>What the reducer processes\<close>

text \<open>
  An event from the main process, a tick of a session's tool-JSON flush timer, or an
  animation frame of the renderer of a block (with the number of characters
  \<open>calculateRenderAmount\<close> chose). A timer ticks and a renderer renders only while it exists.
\<close>

datatype action =
    Stream json
  | FlushTimer json
  | Frame json json int

definition step :: "(string \<Rightarrow> json option) \<Rightarrow> (json \<Rightarrow> string) \<Rightarrow> (json \<Rightarrow> string) \<Rightarrow> action \<Rightarrow> app \<Rightarrow> js_error + app" where
  "step parse stringify stringify2 a s =
     (case a of
        Stream event \<Rightarrow> handleStreamEvent parse stringify stringify2 event s
      | FlushTimer sid \<Rightarrow>
          (case map_get (toolJsonFlushTimerRef s) sid of
             Some (Some cur) \<Rightarrow> Inr (flushToolJson sid None cur s)
           | _ \<Rightarrow> Inr s)
      | Frame sid blockIndex charsToRender \<Rightarrow> Inr (render_frame sid blockIndex charsToRender s))"

fun run :: "(string \<Rightarrow> json option) \<Rightarrow> (json \<Rightarrow> string) \<Rightarrow> (json \<Rightarrow> string) \<Rightarrow> action list \<Rightarrow> app \<Rightarrow> js_error + app" where
  "run parse stringify stringify2 [] s = Inr s"
| "run parse stringify stringify2 (a # as) s =
     (case step parse stringify stringify2 a s of
        Inl e \<Rightarrow> Inl e
      | Inr s' \<Rightarrow> run parse stringify stringify2 as s')"

text \<open>The state of a freshly mounted component showing session \<open>cur\<close> (\<open>JNull\<close>: none).\<close>

definition initial_app :: "json \<Rightarrow> (nat \<Rightarrow> string) \<Rightarrow> int \<Rightarrow> app" where
  "initial_app cur gen t =
     \<lparr>messages = [], isStreaming = False, isConnected = False, sessionInfo = default_sessionInfo,
      currentSessionId = cur, claudeSessionId = JNull, error = JNull, thinkingStatus = ''idle'',
      todos = JArr [], streamStartTime = None,
      userInfo = \<lparr>email = JNull, name = JNull, isLoggedIn = False\<rparr>,
      activeSessionIds = [], currentMessageIdRef = None, currentBlockIndexRef = JNum 0,
      messagesPerSessionRef = [], sessionInfoPerSessionRef = [], todosPerSessionRef = [],
      streamingPerSessionRef = [], thinkingStatusPerSessionRef = [],
      currentMessageIdPerSessionRef = [], currentBlockIndexPerSessionRef = [],
      claudeSessionIdPerSessionRef = [], streamStartTimePerSessionRef = [],
      toolJsonAccumulatorRef = [], toolJsonFlushTimerRef = [], lastFlushedLengthRef = [],
      toolNameByBlockRef = [], quantumRendererRef = [], idCount = 0, ids = gen, now = t\<rparr>"

text \<open>The per-session view of the state: a session's messages, counters and thread id
  live in the React state while it is the current session and in the refs otherwise.\<close>

definition session_messages :: "app \<Rightarrow> json \<Rightarrow> message list" where
  "session_messages s sid =
     (if strict_eq sid (currentSessionId s) then messages s
      else case map_get (messagesPerSessionRef s) sid of None \<Rightarrow> [] | Some ms \<Rightarrow> ms)"

definition session_sessionInfo :: "app \<Rightarrow> json \<Rightarrow> session_info" where
  "session_sessionInfo s sid =
     (if strict_eq sid (currentSessionId s) then sessionInfo s
      else case map_get (sessionInfoPerSessionRef s) sid of None \<Rightarrow> default_sessionInfo | Some i \<Rightarrow> i)"


subsection \<open>The events of the spec's first end-to-end scenario\<close>

text \<open>What \<open>sendToRenderer\<close> delivers for a line of the subprocess: the envelope
  \<open>{type, data, sessionId}\<close>; the streaming events of the CLI come wrapped as
  \<open>{type: 'stream_event', event}\<close>. The session is \<open>s1\<close>; \<open>result\<close> is the payload of the
  final \<open>result\<close> line.\<close>

definition envelope :: "string \<Rightarrow> string \<Rightarrow> json \<Rightarrow> json" where
  "envelope ty sid data = JObj [(''type'', JStr ty), (''data'', data), (''sessionId'', JStr sid)]"

definition stream_event :: "string \<Rightarrow> json \<Rightarrow> json" where
  "stream_event sid ev = envelope ''stream_event'' sid (JObj [(''type'', JStr ''stream_event''), (''event'', ev)])"

definition scenario1 :: "json \<Rightarrow> action list" where
  "scenario1 result =
     [Stream (envelope ''system'' ''s1''
        (JObj [(''type'', JStr ''system''), (''subtype'', JStr ''init''), (''model'', JStr ''m1''),
               (''session_id'', JStr ''abc'')])),
      Stream (stream_event ''s1'' (JObj [(''type'', JStr ''message_start'')])),
      Stream (stream_event ''s1''
        (JObj [(''type'', JStr ''content_block_start''), (''index'', JNum 0),
               (''content_block'', JObj [(''type'', JStr ''text''), (''text'', JStr [])])])),
      Stream (stream_event ''s1''
        (JObj [(''type'', JStr ''content_block_delta''), (''index'', JNum 0),
               (''delta'', JObj [(''type'', JStr ''text_delta''), (''text'', JStr ''Hel'')])])),
      Stream (stream_event ''s1''
        (JObj [(''type'', JStr ''content_block_delta''), (''index'', JNum 0),
               (''delta'', JObj [(''type'', JStr ''text_delta''), (''text'', JStr ''lo '')])])),
      Stream (stream_event ''s1''
        (JObj [(''type'', JStr ''content_block_delta''), (''index'', JNum 0),
               (''delta'', JObj [(''type'', JStr ''text_delta''), (''text'', JStr ''world'')])])),
      Stream (stream_event ''s1'' (JObj [(''type'', JStr ''content_block_stop''), (''index'', JNum 0)])),
      Stream (stream_event ''s1'' (JObj [(''type'', JStr ''message_stop'')])),
      Stream (envelope ''result'' ''s1'' result)]"



section \<open>Properties of the Conversation Reducer\<close>

subsection \<open>A result without usage\<close>

text \<open>The events that reach the \<open>result\<close> case of the \<open>switch\<close> and carry no (truthy)
  \<open>usage\<close>.\<close>


definition result_without_usage :: "json \<Rightarrow> bool" where
  "result_without_usage event \<longleftrightarrow>
     event \<noteq> JNull \<and> event \<noteq> JUndef
     \<and> \<not> is_object (field event ''sessionId'') \<and> truthy (field event ''sessionId'')
     \<and> field event ''type'' \<noteq> JStr ''status'' \<and> field event ''type'' \<noteq> JStr ''error''
     \<and> field event ''type'' \<noteq> JStr ''heartbeat''
     \<and> truthy (field event ''data'')
     \<and> field (event_data event) ''type'' = JStr ''result''
     \<and> \<not> truthy (field (event_data event) ''usage'')"

lemma key_eq_refl: "\<not> is_object k \<Longrightarrow> key_eq k k"
  by (cases k) (auto simp: is_object_def)

lemma map_get_map_set_same: "key_eq k k \<Longrightarrow> map_get (map_set m k v) k = Some v"
proof (induction m)
  case Nil
  then show ?case by simp
next
  case (Cons e m)
  obtain k' v' where e: "e = (k', v')" by (cases e)
  show ?case
  proof (cases "key_eq k' k")
    case True
    then show ?thesis by (simp add: e)
  next
    case False
    with Cons show ?thesis by (simp add: e)
  qed
qed

lemma session_map_map_set: "key_eq k k \<Longrightarrow> session_map (map_set m k v) k = v"
  by (simp add: session_map_def map_get_map_set_same)

lemma onRender_no_msg: "current_msgId s sid = None \<Longrightarrow> onRender sid blockIndex cur text s = s"
  by (simp add: onRender_def)

lemma flush_renderers_no_msg: "current_msgId s sid = None \<Longrightarrow> flush_renderers sid rs s = s"
  by (induction rs arbitrary: s) (auto simp: renderer_flush_def onRender_no_msg)

lemma current_msgId_reset:
  "key_eq sid sid \<Longrightarrow>
   current_msgId (s\<lparr>currentMessageIdPerSessionRef := map_set (currentMessageIdPerSessionRef s) sid None\<rparr>) sid = None"
  by (simp add: current_msgId_def map_get_map_set_same)

lemma current_msgId_cong:
  "currentMessageIdPerSessionRef s' = currentMessageIdPerSessionRef s \<Longrightarrow> current_msgId s' sid = current_msgId s sid"
  by (simp add: current_msgId_def)

lemma cleanup_no_msg:
  "current_msgId s sid = None \<Longrightarrow>
   cleanupQuantumRenderers sid s =
     (case map_get (quantumRendererRef s) sid of
        None \<Rightarrow> s
      | Some rs \<Rightarrow> s\<lparr>quantumRendererRef := map_set (quantumRendererRef s) sid []\<rparr>)"
  by (simp add: cleanupQuantumRenderers_def flush_renderers_no_msg split: option.splits)

lemma session_map_cleared:
  "key_eq sid sid \<Longrightarrow> session_map (clear_session_map ref sid) sid = []"
  by (simp add: clear_session_map_def session_map_map_set map_has_def)
     (simp add: session_map_def)

lemma session_map_renderers_cleanup:
  "key_eq sid sid \<Longrightarrow> current_msgId s sid = None \<Longrightarrow>
   session_map (quantumRendererRef (cleanupQuantumRenderers sid s)) sid = []"
  by (simp add: cleanup_no_msg session_map_map_set split: option.splits)
     (simp add: session_map_def)

lemma stopFlushTimer_stopped:
  "key_eq sid sid \<Longrightarrow>
   (case map_get (toolJsonFlushTimerRef (stopFlushTimer sid s)) sid of Some (Some c) \<Rightarrow> False | _ \<Rightarrow> True)"
  by (auto simp: stopFlushTimer_def map_get_map_set_same split: option.splits)

lemma stopFlushTimer_other [simp]:
  "messages (stopFlushTimer sid s) = messages s"
  "messagesPerSessionRef (stopFlushTimer sid s) = messagesPerSessionRef s"
  "sessionInfo (stopFlushTimer sid s) = sessionInfo s"
  "sessionInfoPerSessionRef (stopFlushTimer sid s) = sessionInfoPerSessionRef s"
  "quantumRendererRef (stopFlushTimer sid s) = quantumRendererRef s"
  "streamingPerSessionRef (stopFlushTimer sid s) = streamingPerSessionRef s"
  "thinkingStatusPerSessionRef (stopFlushTimer sid s) = thinkingStatusPerSessionRef s"
  "currentMessageIdPerSessionRef (stopFlushTimer sid s) = currentMessageIdPerSessionRef s"
  "currentBlockIndexPerSessionRef (stopFlushTimer sid s) = currentBlockIndexPerSessionRef s"
  "isStreaming (stopFlushTimer sid s) = isStreaming s"
  "thinkingStatus (stopFlushTimer sid s) = thinkingStatus s"
  "currentMessageIdRef (stopFlushTimer sid s) = currentMessageIdRef s"
  "currentBlockIndexRef (stopFlushTimer sid s) = currentBlockIndexRef s"
  "streamStartTime (stopFlushTimer sid s) = streamStartTime s"
  "toolJsonAccumulatorRef (stopFlushTimer sid s) = toolJsonAccumulatorRef s"
  "lastFlushedLengthRef (stopFlushTimer sid s) = lastFlushedLengthRef s"
  "toolNameByBlockRef (stopFlushTimer sid s) = toolNameByBlockRef s"
  by (simp_all add: stopFlushTimer_def split: option.splits)

definition result_reset :: "app \<Rightarrow> json \<Rightarrow> app" where
  "result_reset s sid =
     (let s1 = s\<lparr>streamingPerSessionRef := map_set (streamingPerSessionRef s) sid False,
                  thinkingStatusPerSessionRef := map_set (thinkingStatusPerSessionRef s) sid ''idle'',
                  streamStartTimePerSessionRef := map_set (streamStartTimePerSessionRef s) sid None,
                  currentMessageIdPerSessionRef := map_set (currentMessageIdPerSessionRef s) sid None,
                  currentBlockIndexPerSessionRef := map_set (currentBlockIndexPerSessionRef s) sid (JNum 0)\<rparr>
      in if strict_eq sid (currentSessionId s)
                then s1\<lparr>isStreaming := False, thinkingStatus := ''idle'', streamStartTime := None,
                        currentMessageIdRef := None, currentBlockIndexRef := JNum 0\<rparr>
                else s1)"

lemma result_reset_facts:
  assumes k: "key_eq sid sid"
  shows "current_msgId (result_reset s sid) sid = None"
    and "map_get (streamingPerSessionRef (result_reset s sid)) sid = Some False"
    and "map_get (thinkingStatusPerSessionRef (result_reset s sid)) sid = Some ''idle''"
    and "map_get (currentMessageIdPerSessionRef (result_reset s sid)) sid = Some None"
    and "map_get (currentBlockIndexPerSessionRef (result_reset s sid)) sid = Some (JNum 0)"
    and "messages (result_reset s sid) = messages s"
    and "messagesPerSessionRef (result_reset s sid) = messagesPerSessionRef s"
    and "sessionInfo (result_reset s sid) = sessionInfo s"
    and "sessionInfoPerSessionRef (result_reset s sid) = sessionInfoPerSessionRef s"
    and "strict_eq sid (currentSessionId s) \<Longrightarrow>
           \<not> isStreaming (result_reset s sid) \<and> thinkingStatus (result_reset s sid) = ''idle''
           \<and> currentMessageIdRef (result_reset s sid) = None
           \<and> currentBlockIndexRef (result_reset s sid) = JNum 0
           \<and> streamStartTime (result_reset s sid) = None"
  using k by (simp_all add: result_reset_def current_msgId_def map_get_map_set_same Let_def)

lemma on_result_no_usage:
  assumes "\<not> truthy (field data ''usage'')"
  shows "on_result data sid s =
    (let s3 = stopFlushTimer sid (cleanupQuantumRenderers sid (result_reset s sid))
     in s3\<lparr>toolJsonAccumulatorRef := clear_session_map (toolJsonAccumulatorRef s3) sid,
           lastFlushedLengthRef := clear_session_map (lastFlushedLengthRef s3) sid,
           toolNameByBlockRef := clear_session_map (toolNameByBlockRef s3) sid\<rparr>)"
  using assms by (simp add: on_result_def result_reset_def Let_def)


text \<open>
  C10: processing a \<open>result\<close> event without a usage object leaves the token and cost
  counters of every session as they were, in the React state and in the per-session ref,
  whatever else the payload carries (a \<open>total_cost_usd\<close> is ignored); the session's
  streaming flag, thinking status, in-flight message id and block cursor are reset (also
  in the React state when the session is the current one), its renderers, tool-JSON
  accumulator, flushed-length and tool-name maps are empty afterwards and its flush timer
  is not running.
\<close>

theorem C10_result_without_usage:
  assumes "result_without_usage event"
  shows "case handleStreamEvent parse stringify stringify2 event s of
           Inl e \<Rightarrow> False
         | Inr s' \<Rightarrow>
             sessionInfo s' = sessionInfo s
             \<and> sessionInfoPerSessionRef s' = sessionInfoPerSessionRef s
             \<and> map_get (streamingPerSessionRef s') (field event ''sessionId'') = Some False
             \<and> map_get (thinkingStatusPerSessionRef s') (field event ''sessionId'') = Some ''idle''
             \<and> map_get (currentMessageIdPerSessionRef s') (field event ''sessionId'') = Some None
             \<and> map_get (currentBlockIndexPerSessionRef s') (field event ''sessionId'') = Some (JNum 0)
             \<and> (strict_eq (field event ''sessionId'') (currentSessionId s) \<longrightarrow>
                  \<not> isStreaming s' \<and> thinkingStatus s' = ''idle'' \<and> currentMessageIdRef s' = None
                  \<and> currentBlockIndexRef s' = JNum 0)
             \<and> session_map (quantumRendererRef s') (field event ''sessionId'') = []
             \<and> session_map (toolJsonAccumulatorRef s') (field event ''sessionId'') = []
             \<and> session_map (lastFlushedLengthRef s') (field event ''sessionId'') = []
             \<and> session_map (toolNameByBlockRef s') (field event ''sessionId'') = []
             \<and> (case map_get (toolJsonFlushTimerRef s') (field event ''sessionId'') of
                   Some (Some c) \<Rightarrow> False | _ \<Rightarrow> True)"
proof -
  let ?sid = "field event ''sessionId''"
  let ?data = "event_data event"
  from assms have k: "key_eq ?sid ?sid"
    by (simp add: result_without_usage_def key_eq_refl)
  from assms have nu: "\<not> truthy (field ?data ''usage'')" by (simp add: result_without_usage_def)
  from assms have h: "handleStreamEvent parse stringify stringify2 event s = Inr (on_result ?data ?sid s)"
    by (simp add: result_without_usage_def handleStreamEvent_def Let_def)
  note rf = result_reset_facts [OF k, of s]
  let ?r = "result_reset s ?sid"
  have c: "cleanupQuantumRenderers ?sid ?r =
     (case map_get (quantumRendererRef ?r) ?sid of
        None \<Rightarrow> ?r
      | Some rs \<Rightarrow> ?r\<lparr>quantumRendererRef := map_set (quantumRendererRef ?r) ?sid []\<rparr>)"
    using cleanup_no_msg [OF rf(1)] .
  have q: "session_map (quantumRendererRef (cleanupQuantumRenderers ?sid ?r)) ?sid = []"
    using session_map_renderers_cleanup [OF k rf(1)] .
  show ?thesis
    unfolding h on_result_no_usage [OF nu]
    using rf q stopFlushTimer_stopped [OF k, of "cleanupQuantumRenderers ?sid ?r"]
    by (simp add: Let_def session_map_cleared [OF k] c split: option.splits)
qed


definition bare_result_event :: json where
  "bare_result_event =
     JObj [(''type'', JStr ''result''),
           (''data'', JObj [(''type'', JStr ''result''), (''total_cost_usd'', JNum (2 / 1000))]),
           (''sessionId'', JStr ''s1'')]"

definition spent_state :: app where
  "spent_state =
     (initial_app (JStr ''s1'') (\<lambda>n. ''id'') 0)
       \<lparr>sessionInfo := default_sessionInfo\<lparr>totalCost := JNum (1 / 1000)\<rparr>, isStreaming := True\<rparr>"

theorem C10_result_without_usage_witness:
  "result_without_usage bare_result_event
   \<and> (case handleStreamEvent (\<lambda>x. None) (\<lambda>x. []) (\<lambda>x. []) bare_result_event spent_state of
         Inl e \<Rightarrow> False
       | Inr s' \<Rightarrow> totalCost (sessionInfo s') = JNum (1 / 1000) \<and> \<not> isStreaming s')"
proof -
  have h: "result_without_usage bare_result_event"
    by (simp add: result_without_usage_def bare_result_event_def event_data_def is_object_def)
  have sid: "field bare_result_event ''sessionId'' = JStr ''s1''"
    by (simp add: bare_result_event_def)
  have cur: "strict_eq (JStr ''s1'') (currentSessionId spent_state)"
    by (simp add: strict_eq_def initial_app_def spent_state_def)
  have si: "totalCost (sessionInfo spent_state) = JNum (1 / 1000)"
    by (simp add: spent_state_def)
  from C10_result_without_usage
         [OF h, where parse = "\<lambda>x. None" and stringify = "\<lambda>x. []" and ?stringify2.0 = "\<lambda>x. []"
            and s = spent_state]
       h
  show ?thesis
    by (cases "handleStreamEvent (\<lambda>x. None) (\<lambda>x. []) (\<lambda>x. []) bare_result_event spent_state")
       (simp_all add: sid cur si)
qed

subsection \<open>The first end-to-end scenario\<close>

text \<open>The result payload as the scenario gives it, and the part of the messages that the
  scenario speaks of: per message its role and, per block, type, content and completion.\<close>


definition two_ids :: "nat \<Rightarrow> string" where
  "two_ids n = (if n = 0 then ''m'' else ''b'')"

definition result_payload_bare :: json where
  "result_payload_bare = JObj [(''type'', JStr ''result''), (''total_cost_usd'', JNum (2 / 1000))]"

definition text_view :: "message list \<Rightarrow> (string \<times> (string \<times> string \<times> bool) list) list" where
  "text_view ms = map (\<lambda>m. (msg_role m, map (\<lambda>b. (blk_type b, blk_content b, isComplete b)) (msg_content m))) ms"

lemmas reducer_defs =
  scenario1_def envelope_def stream_event_def step_def handleStreamEvent_def event_data_def
  on_system_def on_message_start_def on_content_block_start_def on_content_block_delta_def
  on_content_block_stop_def on_message_stop_def on_result_def note_block_start_def
  destroy_renderer_def take_accumulated_def take_tool_name_def complete_block_def
  updateSessionInfo_def updateSessionMessages_def update_messages_as_def strict_eq_def
  generateId_def current_msgId_def event_blockIndex_def modelled_index_def is_object_def
  array_index_def update_block_def in_message_def renderer_onData_def renderer_flush_def onRender_def
  cleanupQuantumRenderers_def stopFlushTimer_def clear_session_map_def getSessionMap_def
  session_map_def map_has_def js_or_def nullish_or_def initial_app_def default_sessionInfo_def
  session_messages_def session_sessionInfo_def text_view_def

lemma truthy_of_field: "field j k = JStr x \<Longrightarrow> truthy j"
  by (cases j) auto


text \<open>
  C4, as the spec states it, expects the session cost \<open>0.002\<close> after a \<open>result\<close> carrying
  \<open>total_cost_usd: 0.002\<close>. The \<open>result\<close> case updates the counters only under
  \<open>if (data.usage)\<close>: with the payload \<open>{type: 'result', total_cost_usd: 0.002}\<close> of the
  scenario the cost stays \<open>0\<close>.
\<close>

theorem C4_cost_without_usage_counterexample:
"case run (\<lambda>x. None) (\<lambda>x. []) (\<lambda>x. []) (scenario1 result_payload_bare)
          (initial_app (JStr ''s1'') two_ids 0) of
     Inl e \<Rightarrow> False
   | Inr s' \<Rightarrow> totalCost (session_sessionInfo s' (JStr ''s1'')) = JNum 0
        \<and> JNum 0 \<noteq> JNum (2 / 1000)"
  by (simp add: reducer_defs result_payload_bare_def two_ids_def Let_def)



text \<open>
  C4 (amended): if the \<open>result\<close> payload also carries a usage object, and the id generated
  for the message is not the empty string, then after the event sequence of the scenario
  the session has exactly one message, an assistant message with exactly one block, a
  complete text block with content \<open>Hello world\<close>; the session's total cost is \<open>0.002\<close> and
  the captured agent thread id is \<open>abc\<close>. This holds whether the session is the current
  one or a background one, and the run ends without an exception.
\<close>

theorem C4_streaming_turn:
  assumes g: "gen 0 \<noteq> []"
    and ty: "field result ''type'' = JStr ''result''"
    and us: "truthy (field result ''usage'')"
    and co: "field result ''total_cost_usd'' = JNum (2 / 1000)"
  shows "case run parse stringify stringify2 (scenario1 result) (initial_app cur gen t) of
           Inl e \<Rightarrow> False
         | Inr s' \<Rightarrow>
             text_view (session_messages s' (JStr ''s1'')) = [(''assistant'', [(''text'', ''Hello world'', True)])]
             \<and> totalCost (session_sessionInfo s' (JStr ''s1'')) = JNum (2 / 1000)
             \<and> map_get (claudeSessionIdPerSessionRef s') (JStr ''s1'') = Some (JStr ''abc'')"
proof -
  have tr: "truthy result" using ty by (rule truthy_of_field)
  show ?thesis
  proof (cases "cur = JStr ''s1''")
    case True
    then show ?thesis using g ty us co tr
      by (simp add: reducer_defs Let_def)
  next
    case False
    then have "JStr ''s1'' \<noteq> cur" by auto
    then show ?thesis using g ty us co tr
      by (simp add: reducer_defs Let_def)
  qed
qed


theorem C4_streaming_turn_witness:
  "two_ids 0 \<noteq> []
   \<and> field (JObj [(''type'', JStr ''result''), (''total_cost_usd'', JNum (2 / 1000)),
                  (''usage'', JObj [(''input_tokens'', JNum 10), (''output_tokens'', JNum 3)])]) ''type''
       = JStr ''result''
   \<and> truthy (field (JObj [(''type'', JStr ''result''), (''total_cost_usd'', JNum (2 / 1000)),
                  (''usage'', JObj [(''input_tokens'', JNum 10), (''output_tokens'', JNum 3)])]) ''usage'')
   \<and> (case run (\<lambda>x. None) (\<lambda>x. []) (\<lambda>x. [])
           (scenario1 (JObj [(''type'', JStr ''result''), (''total_cost_usd'', JNum (2 / 1000)),
                  (''usage'', JObj [(''input_tokens'', JNum 10), (''output_tokens'', JNum 3)])]))
           (initial_app (JStr ''s1'') two_ids 0) of
         Inl e \<Rightarrow> False
       | Inr s' \<Rightarrow>
           text_view (session_messages s' (JStr ''s1'')) = [(''assistant'', [(''text'', ''Hello world'', True)])]
           \<and> totalCost (session_sessionInfo s' (JStr ''s1'')) = JNum (2 / 1000)
           \<and> map_get (claudeSessionIdPerSessionRef s') (JStr ''s1'') = Some (JStr ''abc''))"
proof -
  let ?r = "JObj [(''type'', JStr ''result''), (''total_cost_usd'', JNum (2 / 1000)),
                  (''usage'', JObj [(''input_tokens'', JNum 10), (''output_tokens'', JNum 3)])]"
  have h1: "two_ids 0 \<noteq> []" by (simp add: two_ids_def)
  have h2: "field ?r ''type'' = JStr ''result''" by simp
  have h3: "truthy (field ?r ''usage'')" by simp
  have h4: "field ?r ''total_cost_usd'' = JNum (2 / 1000)" by simp
  from C4_streaming_turn
         [where gen = two_ids and result = ?r and parse = "\<lambda>x. None" and stringify = "\<lambda>x. []"
            and ?stringify2.0 = "\<lambda>x. []" and cur = "JStr ''s1''" and t = 0, OF h1 h2 h3 h4]
       h1 h2 h3
  show ?thesis by simp
qed



section \<open>Session switch (handleSelectSession in App.tsx)\<close>

text \<open>
  \<open>handleSelectSession\<close> is an \<open>async\<close> function defined in the component body: it closes
  over the React state of the render that created it, and keeps these values across its
  \<open>await\<close>s. The values it reads are collected in a \<open>closure\<close>.
\<close>

record closure =
  cl_currentSessionId :: json
  cl_messages :: "message list"
  cl_sessionInfo :: session_info
  cl_todos :: json
  cl_isStreaming :: bool
  cl_thinkingStatus :: string
  cl_streamStartTime :: "int option"
  cl_claudeSessionId :: json
  cl_isSessionLocked :: bool
  cl_workingDirectory :: string
  cl_sessions :: "stored_session list"

text \<open>The three suspension points of a switch: \<open>await saveSession()\<close>,
  \<open>await window.electronAPI.messages.load(...)\<close> and
  \<open>await window.electronAPI.claude.status(...)\<close>.\<close>

datatype await_point = AwaitSave | AwaitLoad | AwaitStatus

record switch_task =
  sw_session :: stored_session
  sw_closure :: closure
  sw_at :: await_point

text \<open>
  The component with the switch machinery: the reducer's state, the remaining React state
  the switch writes, the lock and queue refs, the invocations of \<open>handleSelectSession\<close>
  that are suspended at an \<open>await\<close>, and the pending
  \<open>setTimeout(() => handleSelectSession(queuedSession), 0)\<close> callbacks, each with the
  closure of the invocation that scheduled it.
\<close>

record ui =
  app_state :: app
  workingDirectory :: string
  pendingDirectory :: "string option"
  isSessionLocked :: bool
  sessions :: "stored_session list"
  sessionSwitchLockRef :: bool
  sessionSwitchQueueRef :: "string option"
  switches :: "switch_task list"
  timeouts :: "(stored_session \<times> closure) list"

text \<open>The closure of the handlers of the latest render.\<close>

definition closure_of :: "ui \<Rightarrow> closure" where
  "closure_of u =
     \<lparr>cl_currentSessionId = currentSessionId (app_state u), cl_messages = messages (app_state u),
      cl_sessionInfo = sessionInfo (app_state u), cl_todos = todos (app_state u),
      cl_isStreaming = isStreaming (app_state u), cl_thinkingStatus = thinkingStatus (app_state u),
      cl_streamStartTime = streamStartTime (app_state u),
      cl_claudeSessionId = claudeSessionId (app_state u), cl_isSessionLocked = isSessionLocked u,
      cl_workingDirectory = workingDirectory u, cl_sessions = sessions u\<rparr>"

text \<open>``Save current session state to refs before switching'': the snapshot.\<close>

definition snapshot :: "closure \<Rightarrow> app \<Rightarrow> app" where
  "snapshot c a =
     (let k = cl_currentSessionId c
      in a\<lparr>messagesPerSessionRef := map_set (messagesPerSessionRef a) k (cl_messages c),
           sessionInfoPerSessionRef := map_set (sessionInfoPerSessionRef a) k (cl_sessionInfo c),
           todosPerSessionRef := map_set (todosPerSessionRef a) k (cl_todos c),
           streamingPerSessionRef := map_set (streamingPerSessionRef a) k (cl_isStreaming c),
           thinkingStatusPerSessionRef := map_set (thinkingStatusPerSessionRef a) k (cl_thinkingStatus c),
           streamStartTimePerSessionRef := map_set (streamStartTimePerSessionRef a) k (cl_streamStartTime c),
           claudeSessionIdPerSessionRef :=
             (if truthy (cl_claudeSessionId c)
              then map_set (claudeSessionIdPerSessionRef a) k (cl_claudeSessionId c)
              else claudeSessionIdPerSessionRef a),
           currentMessageIdPerSessionRef :=
             map_set (currentMessageIdPerSessionRef a) k (currentMessageIdRef a),
           currentBlockIndexPerSessionRef :=
             map_set (currentBlockIndexPerSessionRef a) k (currentBlockIndexRef a)\<rparr>)"

text \<open>``Restore new session state from refs'' and ``switch to selected session'': the
  hydration, which ends at the \<open>await\<close> of the status.\<close>

definition hydrate :: "stored_session \<Rightarrow> closure \<Rightarrow> message list \<Rightarrow> ui \<Rightarrow> ui" where
  "hydrate session c newMessages u =
     (let a = app_state u;
          k = JStr (ss_id session);
          savedSessionInfo = map_get (sessionInfoPerSessionRef a) k;
          savedTodos = (case map_get (todosPerSessionRef a) k of None \<Rightarrow> JUndef | Some t \<Rightarrow> t);
          savedIsStreaming = (case map_get (streamingPerSessionRef a) k of None \<Rightarrow> False | Some b \<Rightarrow> b);
          savedThinkingStatus =
            (case map_get (thinkingStatusPerSessionRef a) k of
               None \<Rightarrow> ''idle'' | Some t \<Rightarrow> if t \<noteq> [] then t else ''idle'');
          savedStreamStartTime =
            (case map_get (streamStartTimePerSessionRef a) k of
               Some (Some t) \<Rightarrow> if t \<noteq> 0 then Some t else None | _ \<Rightarrow> None);
          savedClaudeSessionId =
            js_or (js_or (case map_get (claudeSessionIdPerSessionRef a) k of None \<Rightarrow> JUndef | Some i \<Rightarrow> i)
                         (case ss_claudeSessionId session of None \<Rightarrow> JUndef | Some i \<Rightarrow> JStr i))
                  JNull;
          a1 = a\<lparr>currentMessageIdRef :=
                    (case map_get (currentMessageIdPerSessionRef a) k of
                       Some (Some i) \<Rightarrow> if i \<noteq> [] then Some i else None | _ \<Rightarrow> None),
                  currentBlockIndexRef :=
                    js_or (case map_get (currentBlockIndexPerSessionRef a) k of None \<Rightarrow> JUndef | Some j \<Rightarrow> j)
                          (JNum 0),
                  currentSessionId := k,
                  messages := newMessages,
                  todos := js_or savedTodos (JArr []),
                  claudeSessionId := savedClaudeSessionId,
                  isStreaming := savedIsStreaming,
                  thinkingStatus := savedThinkingStatus,
                  streamStartTime := savedStreamStartTime,
                  sessionInfo :=
                    (case savedSessionInfo of
                       Some i \<Rightarrow> i
                     | None \<Rightarrow>
                         (sessionInfo a)
                           \<lparr>contextUsed := JNum 0, outputTokens := JNum 0,
                            totalCost := (case ss_totalCost session of
                                            None \<Rightarrow> JNum 0
                                          | Some x \<Rightarrow> if x \<noteq> 0 then JNum x else JNum 0)\<rparr>)\<rparr>
      in u\<lparr>app_state := a1, workingDirectory := ss_workingDirectory session,
           pendingDirectory := Some (ss_workingDirectory session), isSessionLocked := True,
           switches := switches u @ [\<lparr>sw_session = session, sw_closure = c, sw_at = AwaitStatus\<rparr>]\<rparr>)"

text \<open>From ``check if we have this session's messages in memory'': hydrate from the ref,
  or suspend at the load from disk.\<close>

definition restore :: "stored_session \<Rightarrow> closure \<Rightarrow> ui \<Rightarrow> ui" where
  "restore session c u =
     (case map_get (messagesPerSessionRef (app_state u)) (JStr (ss_id session)) of
        Some newMessages \<Rightarrow> hydrate session c newMessages u
      | None \<Rightarrow>
          u\<lparr>switches := switches u @ [\<lparr>sw_session = session, sw_closure = c, sw_at = AwaitLoad\<rparr>]\<rparr>)"

text \<open>
  A call \<open>handleSelectSession(session)\<close> of the handler with closure \<open>c\<close>, up to its first
  \<open>await\<close>: the same-session guard, the lock check (a request arriving while the lock is
  held only overwrites the queue), the acquisition of the lock, and the snapshot.
\<close>

definition handleSelectSession :: "stored_session \<Rightarrow> closure \<Rightarrow> ui \<Rightarrow> ui" where
  "handleSelectSession session c u =
     (if JStr (ss_id session) = cl_currentSessionId c then u
      else if sessionSwitchLockRef u then u\<lparr>sessionSwitchQueueRef := Some (ss_id session)\<rparr>
      else
        let u1 = u\<lparr>sessionSwitchLockRef := True\<rparr>
        in if truthy (cl_currentSessionId c) then
             (let u2 = u1\<lparr>app_state := snapshot c (app_state u1)\<rparr>
              in if cl_isSessionLocked c
                 then u2\<lparr>switches := switches u2 @
                            [\<lparr>sw_session = session, sw_closure = c, sw_at = AwaitSave\<rparr>]\<rparr>
                 else restore session c u2)
           else restore session c u1)"

text \<open>
  The \<open>finally\<close> block of the invocation with closure \<open>c\<close>: release the lock, and replay
  the queued request if it differs from the \<open>currentSessionId\<close> of the closure and is found
  in the closure's \<open>sessions\<close>.
\<close>

definition finish_switch :: "closure \<Rightarrow> ui \<Rightarrow> ui" where
  "finish_switch c u =
     (let u1 = u\<lparr>sessionSwitchLockRef := False\<rparr>
      in case sessionSwitchQueueRef u1 of
           None \<Rightarrow> u1
         | Some queuedSessionId \<Rightarrow>
             if queuedSessionId \<noteq> [] \<and> JStr queuedSessionId \<noteq> cl_currentSessionId c then
               (let u2 = u1\<lparr>sessionSwitchQueueRef := None\<rparr>
                in case find (\<lambda>s. ss_id s = queuedSessionId) (cl_sessions c) of
                     None \<Rightarrow> u2
                   | Some queuedSession \<Rightarrow> u2\<lparr>timeouts := timeouts u2 @ [(queuedSession, c)]\<rparr>)
             else u1)"

text \<open>What happens to the component: a click on a session (the handler of the latest
  render is called), the resumption of the suspended invocation number \<open>k\<close> with the
  awaited value (the updated session list of \<open>saveSession\<close>, the loaded messages, the
  running status) or with a rejection, a pending timeout firing, or an action of the
  reducer.\<close>

datatype ui_action =
    Select stored_session
  | ResumeSave nat "stored_session list"
  | ResumeLoad nat "message list"
  | ResumeStatus nat bool
  | Reject nat
  | Timeout nat
  | Reducer action

definition remove_nth :: "nat \<Rightarrow> 'a list \<Rightarrow> 'a list" where
  "remove_nth k xs = take k xs @ drop (Suc k) xs"

definition ui_step ::
  "(string \<Rightarrow> json option) \<Rightarrow> (json \<Rightarrow> string) \<Rightarrow> (json \<Rightarrow> string) \<Rightarrow> ui_action \<Rightarrow> ui \<Rightarrow> ui" where
  "ui_step parse stringify stringify2 act u =
     (case act of
        Select session \<Rightarrow> handleSelectSession session (closure_of u) u
      | ResumeSave k updated \<Rightarrow>
          if k < length (switches u) \<and> sw_at (switches u ! k) = AwaitSave then
            (let t = switches u ! k;
                 u1 = u\<lparr>switches := remove_nth k (switches u)\<rparr>;
                 u2 = (if truthy (cl_currentSessionId (sw_closure t)) \<and> cl_workingDirectory (sw_closure t) \<noteq> []
                       then u1\<lparr>sessions := updated\<rparr> else u1)
             in restore (sw_session t) (sw_closure t) u2)
          else u
      | ResumeLoad k loaded \<Rightarrow>
          if k < length (switches u) \<and> sw_at (switches u ! k) = AwaitLoad then
            (let t = switches u ! k;
                 u1 = u\<lparr>switches := remove_nth k (switches u)\<rparr>;
                 u2 = (if loaded \<noteq> []
                       then u1\<lparr>app_state := (app_state u1)
                                 \<lparr>messagesPerSessionRef :=
                                    map_set (messagesPerSessionRef (app_state u1))
                                      (JStr (ss_id (sw_session t))) loaded\<rparr>\<rparr>
                       else u1)
             in hydrate (sw_session t) (sw_closure t) loaded u2)
          else u
      | ResumeStatus k running \<Rightarrow>
          if k < length (switches u) \<and> sw_at (switches u ! k) = AwaitStatus then
            (let t = switches u ! k;
                 u1 = u\<lparr>switches := remove_nth k (switches u)\<rparr>;
                 u2 = u1\<lparr>app_state := (app_state u1)\<lparr>isConnected := running\<rparr>\<rparr>
             in finish_switch (sw_closure t) u2)
          else u
      | Reject k \<Rightarrow>
          if k < length (switches u) then
            (let t = switches u ! k;
                 u1 = u\<lparr>switches := remove_nth k (switches u)\<rparr>;
                 u2 = u1\<lparr>app_state := showError (JStr ''Failed to switch session'') (app_state u1)\<rparr>
             in finish_switch (sw_closure t) u2)
          else u
      | Timeout k \<Rightarrow>
          if k < length (timeouts u) then
            (case timeouts u ! k of
               (queuedSession, c) \<Rightarrow>
                 handleSelectSession queuedSession c (u\<lparr>timeouts := remove_nth k (timeouts u)\<rparr>))
          else u
      | Reducer a \<Rightarrow>
          (case step parse stringify stringify2 a (app_state u) of
             Inl e \<Rightarrow> u
           | Inr a' \<Rightarrow> u\<lparr>app_state := a'\<rparr>))"

text \<open>The component after mounting, showing the session \<open>cur\<close> with the working directory
  \<open>wd\<close> and the stored sessions \<open>ss\<close>; no switch is in flight.\<close>

definition ui_init :: "app \<Rightarrow> string \<Rightarrow> stored_session list \<Rightarrow> ui" where
  "ui_init a wd ss =
     \<lparr>app_state = a, workingDirectory = wd, pendingDirectory = None, isSessionLocked = (wd \<noteq> []),
      sessions = ss, sessionSwitchLockRef = False, sessionSwitchQueueRef = None, switches = [],
      timeouts = []\<rparr>"





definition two_sessions :: ui where
  "two_sessions =
     ui_init (initial_app (JStr ''A'') (\<lambda>n. ''id'') 0) ''/home/u/a''
       [session_with_id ''A'', session_with_id ''B'', session_with_id ''C'']"

subsection \<open>Serialization of switches\<close>
















lemmas switch_defs =
  two_sessions_def ui_init_def ui_step_def handleSelectSession_def closure_of_def snapshot_def
  restore_def hydrate_def finish_switch_def remove_nth_def session_with_id_def initial_app_def
  default_sessionInfo_def js_or_def


text \<open>
  The \<open>finally\<close> block compares the queued id with the \<open>currentSessionId\<close> of its own
  closure, which is the session that was current when the switch began. After the switch
  from A to B has hydrated B, a request for A is queued; when the switch ends, the queued
  id equals the closure's \<open>currentSessionId\<close>, so the request is not replayed and stays in
  the queue.
\<close>

lemma queued_request_for_left_session_not_replayed:
  "(let u = foldl (\<lambda>u a. ui_step (\<lambda>x. None) (\<lambda>x. []) (\<lambda>x. []) a u) two_sessions
              [Select (session_with_id ''B''),
               ResumeSave 0 [session_with_id ''A'', session_with_id ''B'', session_with_id ''C''],
               ResumeLoad 0 [],
               Select (session_with_id ''A''),
               ResumeStatus 0 True]
    in (currentSessionId (app_state u), sessionSwitchLockRef u, sessionSwitchQueueRef u, timeouts u, switches u))
   = (JStr ''B'', False, Some ''A'', [], [])"
  by (simp add: switch_defs Let_def)




section \<open>Blocks of a message under the Conversation Reducer\<close>

subsection \<open>Blocks and their writers\<close>

text \<open>Block \<open>i\<close> of message \<open>m\<close> of a session, by position: the reducer only appends
  messages and blocks, so a position names the same block for as long as the component
  lives.\<close>

definition block_of :: "message list \<Rightarrow> nat \<Rightarrow> nat \<Rightarrow> content_block option" where
  "block_of ms m i =
     (if m < length ms \<and> i < length (msg_content (ms ! m)) then Some (msg_content (ms ! m) ! i) else None)"

definition block_at :: "app \<Rightarrow> json \<Rightarrow> nat \<Rightarrow> nat \<Rightarrow> content_block option" where
  "block_at s sid m i = block_of (session_messages s sid) m i"

text \<open>Message \<open>m\<close> of the session carries the id that the session's entry of
  \<open>currentMessageIdPerSessionRef\<close> holds: the writers look a message up by that id.\<close>

definition in_flight :: "app \<Rightarrow> json \<Rightarrow> nat \<Rightarrow> bool" where
  "in_flight s sid m =
     (case current_msgId s sid of
        None \<Rightarrow> False
      | Some msgId \<Rightarrow> m < length (session_messages s sid) \<and> msg_id (session_messages s sid ! m) = JStr msgId)"

text \<open>The key under which the writers of block \<open>i\<close> are kept: its index as a number.\<close>

definition block_key :: "nat \<Rightarrow> json" where
  "block_key i = JNum (of_nat i)"

text \<open>What can still write to block \<open>i\<close> of the message in flight: a renderer of the
  block, or accumulated tool JSON under its index.\<close>

definition has_renderer :: "app \<Rightarrow> json \<Rightarrow> nat \<Rightarrow> bool" where
  "has_renderer s sid i = map_has (session_map (quantumRendererRef s) sid) (block_key i)"

definition accumulated_json :: "app \<Rightarrow> json \<Rightarrow> nat \<Rightarrow> string option" where
  "accumulated_json s sid i = map_get (session_map (toolJsonAccumulatorRef s) sid) (block_key i)"

definition pending :: "app \<Rightarrow> json \<Rightarrow> nat \<Rightarrow> bool" where
  "pending s sid i = (has_renderer s sid i \<or> accumulated_json s sid i \<noteq> None)"

text \<open>A block is settled when it is complete and, if its message is the one in flight,
  nothing is pending for its index.\<close>

definition settled :: "app \<Rightarrow> json \<Rightarrow> nat \<Rightarrow> nat \<Rightarrow> bool" where
  "settled s sid m i =
     ((case block_at s sid m i of None \<Rightarrow> False | Some b \<Rightarrow> isComplete b)
      \<and> (in_flight s sid m \<longrightarrow> \<not> pending s sid i))"

text \<open>Every renderer and every flush timer was created by a handler that closed over the
  \<open>currentSessionId\<close> the state has now. The reducer never changes \<open>currentSessionId\<close>, so
  this holds for as long as the session shown stays the same.\<close>

definition closures_fresh :: "app \<Rightarrow> bool" where
  "closures_fresh s =
     (list_all (\<lambda>e. list_all (\<lambda>r. closure_currentSessionId (snd r) = currentSessionId s) (snd e))
        (quantumRendererRef s)
      \<and> list_all (\<lambda>e. snd e = None \<or> snd e = Some (currentSessionId s)) (toolJsonFlushTimerRef s))"

text \<open>The events that get past the guards of \<open>handleStreamEvent\<close> to the \<open>switch\<close> on the
  payload's type.\<close>

definition payload_event :: "json \<Rightarrow> bool" where
  "payload_event event \<longleftrightarrow>
     event \<noteq> JNull \<and> event \<noteq> JUndef
     \<and> \<not> is_object (field event ''sessionId'') \<and> truthy (field event ''sessionId'')
     \<and> field event ''type'' \<noteq> JStr ''status'' \<and> field event ''type'' \<noteq> JStr ''error''
     \<and> field event ''type'' \<noteq> JStr ''heartbeat''
     \<and> truthy (field event ''data'')"

text \<open>The event is a \<open>content_block_stop\<close> of the session for block \<open>i\<close> of message \<open>m\<close>, the
  message in flight.\<close>

definition closes_block :: "app \<Rightarrow> json \<Rightarrow> json \<Rightarrow> nat \<Rightarrow> nat \<Rightarrow> bool" where
  "closes_block s event sid m i \<longleftrightarrow>
     payload_event event \<and> field event ''sessionId'' = sid
     \<and> field (event_data event) ''type'' = JStr ''content_block_stop''
     \<and> in_flight s sid m
     \<and> array_index (event_blockIndex s sid (event_data event)) = Some i
     \<and> i < length (msg_content (session_messages s sid ! m))"

text \<open>The actions after which block \<open>i\<close> of message \<open>m\<close> is written again: a
  \<open>content_block_delta\<close> or \<open>content_block_stop\<close> of the session that carries the index of
  the block while its message is in flight, and a \<open>message_start\<close> of the session for which
  \<open>generateId\<close> draws the id of message \<open>m\<close> once more.\<close>

definition reopens :: "app \<Rightarrow> json \<Rightarrow> nat \<Rightarrow> nat \<Rightarrow> action \<Rightarrow> bool" where
  "reopens s sid m i a =
     (case a of
        Stream event \<Rightarrow>
          payload_event event \<and> field event ''sessionId'' = sid
          \<and> ((field (event_data event) ''type'' = JStr ''content_block_delta''
                \<or> field (event_data event) ''type'' = JStr ''content_block_stop'')
               \<and> in_flight s sid m
               \<and> array_index (event_blockIndex s sid (event_data event)) = Some i
              \<or> field (event_data event) ''type'' = JStr ''message_start''
                \<and> m < length (session_messages s sid)
                \<and> msg_id (session_messages s sid ! m) = JStr (ids s (idCount s)))
      | _ \<Rightarrow> False)"

text \<open>No action of the run reopens the block in the state it is applied to.\<close>

fun undisturbed ::
  "(string \<Rightarrow> json option) \<Rightarrow> (json \<Rightarrow> string) \<Rightarrow> (json \<Rightarrow> string) \<Rightarrow> json \<Rightarrow> nat \<Rightarrow> nat
     \<Rightarrow> action list \<Rightarrow> app \<Rightarrow> bool" where
  "undisturbed parse stringify stringify2 sid m i [] s = True"
| "undisturbed parse stringify stringify2 sid m i (a # as) s =
     (\<not> reopens s sid m i a
      \<and> (case step parse stringify stringify2 a s of
            Inl e \<Rightarrow> True
          | Inr s' \<Rightarrow> undisturbed parse stringify stringify2 sid m i as s'))"

text \<open>What a renderer callback does to a block: it appends to its content.\<close>

definition appended :: "content_block \<Rightarrow> content_block \<Rightarrow> bool" where
  "appended b b' \<longleftrightarrow> b' = b\<lparr>blk_content := blk_content b'\<rparr> \<and> prefix (blk_content b) (blk_content b')"

text \<open>What a tick of the flush timer does to a block: its content becomes the tool JSON
  accumulated under its index.\<close>

definition replaced :: "app \<Rightarrow> json \<Rightarrow> nat \<Rightarrow> content_block \<Rightarrow> content_block \<Rightarrow> bool" where
  "replaced s sid i b b' =
     (case accumulated_json s sid i of None \<Rightarrow> False | Some x \<Rightarrow> b' = b\<lparr>blk_content := x\<rparr>)"

text \<open>The only ways an action changes block \<open>i\<close> of the message in flight: an animation
  frame of the block's renderer appends to its content, a tick of the session's flush
  timer replaces its content by the JSON accumulated under its index, and the
  \<open>content_block_stop\<close> that carries its index completes it.\<close>

definition touches :: "app \<Rightarrow> action \<Rightarrow> json \<Rightarrow> nat \<Rightarrow> content_block \<Rightarrow> content_block \<Rightarrow> bool" where
  "touches s a sid i b b' =
     (case a of
        Frame sid' idx n \<Rightarrow> sid' = sid \<and> idx = block_key i \<and> has_renderer s sid i \<and> appended b b'
      | FlushTimer sid' \<Rightarrow> sid' = sid \<and> replaced s sid i b b'
      | Stream event \<Rightarrow>
          payload_event event \<and> field event ''sessionId'' = sid
          \<and> field (event_data event) ''type'' = JStr ''content_block_stop''
          \<and> event_blockIndex s sid (event_data event) = block_key i)"

text \<open>The id of the message in flight, as a message carries it.\<close>

definition cur_mid :: "app \<Rightarrow> json \<Rightarrow> json option" where
  "cur_mid s sid = map_option JStr (current_msgId s sid)"

text \<open>How the messages of a session change: messages and blocks are only added, ids stay,
  and a block changes only inside the message with id \<open>mid\<close> and only as \<open>R\<close> allows.\<close>

definition changes_blocks ::
  "(nat \<Rightarrow> content_block \<Rightarrow> content_block \<Rightarrow> bool) \<Rightarrow> json option \<Rightarrow> message list \<Rightarrow> message list \<Rightarrow> bool" where
  "changes_blocks R mid ms ms' \<longleftrightarrow>
     length ms \<le> length ms'
     \<and> (\<forall>m < length ms.
           msg_id (ms' ! m) = msg_id (ms ! m)
           \<and> length (msg_content (ms ! m)) \<le> length (msg_content (ms' ! m))
           \<and> (\<forall>i < length (msg_content (ms ! m)).
                 msg_content (ms' ! m) ! i = msg_content (ms ! m) ! i
                 \<or> mid = Some (msg_id (ms ! m)) \<and> R i (msg_content (ms ! m) ! i) (msg_content (ms' ! m) ! i)))"

text \<open>The refs that decide who writes to which block are as before.\<close>

definition refs_same :: "app \<Rightarrow> app \<Rightarrow> bool" where
  "refs_same s s' \<longleftrightarrow>
     currentSessionId s' = currentSessionId s
     \<and> currentMessageIdPerSessionRef s' = currentMessageIdPerSessionRef s
     \<and> quantumRendererRef s' = quantumRendererRef s
     \<and> toolJsonFlushTimerRef s' = toolJsonFlushTimerRef s
     \<and> (\<forall>sid. session_map (toolJsonAccumulatorRef s') sid = session_map (toolJsonAccumulatorRef s) sid)"

text \<open>The other effects of an action on a session: a new message in flight, a new pending
  writer.\<close>

definition starts_message :: "action \<Rightarrow> json \<Rightarrow> bool" where
  "starts_message a sid =
     (case a of
        Stream event \<Rightarrow>
          payload_event event \<and> field event ''sessionId'' = sid
          \<and> field (event_data event) ''type'' = JStr ''message_start''
      | _ \<Rightarrow> False)"

definition delta_at :: "app \<Rightarrow> action \<Rightarrow> json \<Rightarrow> nat \<Rightarrow> bool" where
  "delta_at s a sid i =
     (case a of
        Stream event \<Rightarrow>
          payload_event event \<and> field event ''sessionId'' = sid
          \<and> field (event_data event) ''type'' = JStr ''content_block_delta''
          \<and> current_msgId s sid \<noteq> None
          \<and> event_blockIndex s sid (event_data event) = block_key i
      | _ \<Rightarrow> False)"

definition step_effect :: "app \<Rightarrow> action \<Rightarrow> app \<Rightarrow> json \<Rightarrow> nat \<Rightarrow> bool" where
  "step_effect s a s' sid i \<longleftrightarrow>
     closures_fresh s'
     \<and> changes_blocks (touches s a sid) (cur_mid s sid) (session_messages s sid) (session_messages s' sid)
     \<and> (current_msgId s' sid = current_msgId s sid \<or> current_msgId s' sid = None
         \<or> starts_message a sid \<and> current_msgId s' sid = Some (ids s (idCount s)))
     \<and> (pending s' sid i \<longrightarrow> pending s sid i \<or> delta_at s a sid i)"

text \<open>A text block of session \<open>s1\<close> that has received \<open>Hel\<close>, its \<open>content_block_stop\<close>, and
  a delta for the same block that arrives after it, followed by a frame of the renderer
  the delta created.\<close>

definition text_block_open :: "action list" where
  "text_block_open =
     [Stream (stream_event ''s1'' (JObj [(''type'', JStr ''message_start'')])),
      Stream (stream_event ''s1''
        (JObj [(''type'', JStr ''content_block_start''), (''index'', JNum 0),
               (''content_block'', JObj [(''type'', JStr ''text''), (''text'', JStr [])])])),
      Stream (stream_event ''s1''
        (JObj [(''type'', JStr ''content_block_delta''), (''index'', JNum 0),
               (''delta'', JObj [(''type'', JStr ''text_delta''), (''text'', JStr ''Hel'')])]))]"

definition block_stop_event :: json where
  "block_stop_event = stream_event ''s1'' (JObj [(''type'', JStr ''content_block_stop''), (''index'', JNum 0)])"

definition late_delta :: "action list" where
  "late_delta =
     [Stream (stream_event ''s1''
        (JObj [(''type'', JStr ''content_block_delta''), (''index'', JNum 0),
               (''delta'', JObj [(''type'', JStr ''text_delta''), (''text'', JStr ''lo'')])])),
      Frame (JStr ''s1'') (JNum 0) 10]"

definition block_view :: "app \<Rightarrow> (string \<times> bool) option" where
  "block_view s = map_option (\<lambda>b. (blk_content b, isComplete b)) (block_at s (JStr ''s1'') 0 0)"

text \<open>The state in which the text block is open, and a continuation that leaves the block
  alone: a second block with its delta, frames and stop, a tick of the flush timer, the
  end of the message, the next message and the result.\<close>

definition open_state :: app where
  "open_state =
     (case run (\<lambda>x. None) (\<lambda>x. []) (\<lambda>x. []) text_block_open
             (initial_app (JStr ''s1'') (\<lambda>n. replicate (Suc n) CHR ''i'') 0) of
        Inl e \<Rightarrow> initial_app (JStr ''s1'') (\<lambda>n. replicate (Suc n) CHR ''i'') 0
      | Inr s \<Rightarrow> s)"

definition quiet_rest :: "action list" where
  "quiet_rest =
     [Stream (stream_event ''s1''
        (JObj [(''type'', JStr ''content_block_start''), (''index'', JNum 1),
               (''content_block'', JObj [(''type'', JStr ''text''), (''text'', JStr [])])])),
      Stream (stream_event ''s1''
        (JObj [(''type'', JStr ''content_block_delta''), (''index'', JNum 1),
               (''delta'', JObj [(''type'', JStr ''text_delta''), (''text'', JStr ''lo!'')])])),
      Frame (JStr ''s1'') (JNum 1) 2,
      Frame (JStr ''s1'') (JNum 0) 2,
      FlushTimer (JStr ''s1''),
      Stream (stream_event ''s1'' (JObj [(''type'', JStr ''content_block_stop''), (''index'', JNum 1)])),
      Stream (stream_event ''s1'' (JObj [(''type'', JStr ''message_stop'')])),
      Stream (stream_event ''s1'' (JObj [(''type'', JStr ''message_start'')])),
      Stream (envelope ''result'' ''s1'' (JObj [(''type'', JStr ''result'')]))]"

subsection \<open>Association lists\<close>

lemma key_eq_sym: "key_eq a b \<Longrightarrow> key_eq b a"
  by (cases a) auto

lemma key_eq_eq: "key_eq a b \<Longrightarrow> a = b"
  by (cases a) auto

lemma key_eq_left: "key_eq a b \<Longrightarrow> key_eq a a"
  by (cases a) auto

lemma map_get_map_set: "map_get (map_set m k v) k' = (if key_eq k k' then Some v else map_get m k')"
proof (induction m)
  case Nil
  then show ?case by simp
next
  case (Cons e m)
  obtain k0 v0 where e: "e = (k0, v0)" by (cases e)
  show ?case
  proof (cases "key_eq k0 k")
    case True
    then have "k0 = k" by (rule key_eq_eq)
    with True show ?thesis by (simp add: e)
  next
    case False
    show ?thesis
    proof (cases "key_eq k0 k'")
      case True
      then have k0: "k0 = k'" "key_eq k' k'" by (auto dest: key_eq_eq key_eq_left)
      with False have "\<not> key_eq k k'" by (auto dest: key_eq_eq)
      with False True Cons show ?thesis by (simp add: e)
    next
      case F2: False
      with False Cons show ?thesis by (simp add: e)
    qed
  qed
qed

lemma map_get_map_delete: "map_get (map_delete m k) k' = (if key_eq k k' then None else map_get m k')"
proof (induction m)
  case Nil
  then show ?case by simp
next
  case (Cons e m)
  obtain k0 v0 where e: "e = (k0, v0)" by (cases e)
  show ?case
  proof (cases "key_eq k0 k")
    case True
    then have k0: "k0 = k" by (rule key_eq_eq)
    with True Cons show ?thesis by (simp add: e)
  next
    case False
    show ?thesis
    proof (cases "key_eq k0 k'")
      case True
      then have k0: "k0 = k'" "key_eq k' k'" by (auto dest: key_eq_eq key_eq_left)
      with False have "\<not> key_eq k k'" by (auto dest: key_eq_eq)
      with False True Cons show ?thesis by (simp add: e)
    next
      case F2: False
      with False Cons show ?thesis by (simp add: e)
    qed
  qed
qed

lemma map_get_None_keys: "map_get m k = None \<Longrightarrow> key_eq k k \<Longrightarrow> k \<notin> fst ` set m"
proof (induction m)
  case Nil
  then show ?case by simp
next
  case (Cons e m)
  obtain k0 v0 where e: "e = (k0, v0)" by (cases e)
  from Cons.prems have n: "\<not> key_eq k0 k" "map_get m k = None"
    by (auto simp: e split: if_splits)
  from n(1) Cons.prems(2) have "k0 \<noteq> k" by auto
  with Cons.IH [OF n(2) Cons.prems(2)] show ?case by (simp add: e)
qed

lemma map_get_Some_set: "map_get m k = Some v \<Longrightarrow> (k, v) \<in> set m"
proof (induction m)
  case Nil
  then show ?case by simp
next
  case (Cons e m)
  obtain k0 v0 where e: "e = (k0, v0)" by (cases e)
  show ?case
  proof (cases "key_eq k0 k")
    case True
    with Cons.prems show ?thesis by (auto simp: e dest: key_eq_eq)
  next
    case False
    with Cons show ?thesis by (simp add: e)
  qed
qed

lemma list_all_map_get:
  "list_all (\<lambda>e. P (snd e)) m \<Longrightarrow> map_get m k = Some v \<Longrightarrow> P v"
  by (auto simp: list_all_iff dest!: map_get_Some_set)

lemma list_all_map_set:
  "list_all (\<lambda>e. P (snd e)) m \<Longrightarrow> P v \<Longrightarrow> list_all (\<lambda>e. P (snd e)) (map_set m k v)"
  by (induction m) auto

lemma list_all_map_delete:
  "list_all (\<lambda>e. P (snd e)) m \<Longrightarrow> list_all (\<lambda>e. P (snd e)) (map_delete m k)"
  by (induction m) auto

lemma session_map_getSessionMap [simp]: "session_map (getSessionMap ref sid) sid' = session_map ref sid'"
  by (auto simp: getSessionMap_def session_map_def map_has_def map_get_map_set dest: key_eq_eq)

lemma session_map_set: "session_map (map_set ref sid v) sid' = (if key_eq sid sid' then v else session_map ref sid')"
  by (simp add: session_map_def map_get_map_set)

lemma session_map_clear:
  "session_map (clear_session_map ref sid) sid' = (if key_eq sid sid' then [] else session_map ref sid')"
  by (auto simp: clear_session_map_def session_map_def map_has_def map_get_map_set dest: key_eq_eq)

lemma list_all_session_map:
  "list_all (\<lambda>e. list_all P (snd e)) ref \<Longrightarrow> list_all P (session_map ref sid)"
  by (auto simp: session_map_def split: option.splits dest: list_all_map_get [where P = "list_all P"])

lemma list_all_getSessionMap:
  "list_all (\<lambda>e. list_all P (snd e)) ref \<Longrightarrow> list_all (\<lambda>e. list_all P (snd e)) (getSessionMap ref sid)"
  by (simp add: getSessionMap_def list_all_map_set [where P = "list_all P"])

subsection \<open>Block indices\<close>

lemma array_index_Some: "array_index j = Some i \<longleftrightarrow> j = block_key i"
proof
  assume "array_index j = Some i"
  then obtain q where j: "j = JNum q" and q: "0 \<le> q" "q = of_int \<lfloor>q\<rfloor>" and i: "i = nat \<lfloor>q\<rfloor>"
    by (auto simp: array_index_def split: json.splits if_splits)
  from q(1) have "0 \<le> \<lfloor>q\<rfloor>" by simp
  then have "of_nat (nat \<lfloor>q\<rfloor>) = (of_int \<lfloor>q\<rfloor> :: rat)" by simp
  with q(2) i j show "j = block_key i" by (simp add: block_key_def)
next
  assume "j = block_key i"
  then show "array_index j = Some i" by (simp add: array_index_def block_key_def)
qed

lemma key_eq_block_key [simp]: "key_eq (block_key i) k \<longleftrightarrow> k = block_key i"
  by (auto simp: block_key_def)

lemma key_eq_block_key2 [simp]: "key_eq k (block_key i) \<longleftrightarrow> k = block_key i"
  by (cases k) (auto simp: block_key_def)

lemma length_update_block [simp]: "length (update_block idx f bs) = length bs"
  by (simp add: update_block_def split: option.splits)

lemma array_index_block_key [simp]: "array_index (block_key i) = Some i"
  by (simp add: array_index_Some)

lemma block_key_inj [simp]: "block_key a = block_key b \<longleftrightarrow> a = b"
  by (simp add: block_key_def)

lemma nth_update_block:
  "i < length bs \<Longrightarrow> update_block idx f bs ! i = (if idx = block_key i then f (bs ! i) else bs ! i)"
proof (cases "array_index idx")
  case None
  then have "idx \<noteq> block_key i" by auto
  with None show ?thesis by (simp add: update_block_def)
next
  case (Some a)
  then have idx: "idx = block_key a" by (simp add: array_index_Some)
  assume "i < length bs"
  then show ?thesis by (simp add: update_block_def idx nth_list_update)
qed

subsection \<open>Messages of a session\<close>

lemma session_messages_update:
  "session_messages (update_messages_as (currentSessionId s) sid' f s) sid =
     (if key_eq sid' sid then f (session_messages s sid) else session_messages s sid)"
  by (auto simp: session_messages_def update_messages_as_def strict_eq_def map_get_map_set
           dest: key_eq_eq key_eq_left split: option.splits)

lemma update_messages_as_refs [simp]:
  "currentSessionId (update_messages_as cur sid f s) = currentSessionId s"
  "currentMessageIdPerSessionRef (update_messages_as cur sid f s) = currentMessageIdPerSessionRef s"
  "quantumRendererRef (update_messages_as cur sid f s) = quantumRendererRef s"
  "toolJsonAccumulatorRef (update_messages_as cur sid f s) = toolJsonAccumulatorRef s"
  "toolJsonFlushTimerRef (update_messages_as cur sid f s) = toolJsonFlushTimerRef s"
  by (simp_all add: update_messages_as_def)

lemma current_msgId_update [simp]:
  "current_msgId (update_messages_as cur sid f s) sid' = current_msgId s sid'"
  by (simp add: current_msgId_def)

lemma changes_blocks_refl [simp]: "changes_blocks R mid ms ms"
  by (simp add: changes_blocks_def)

lemma changes_blocks_append [simp]: "changes_blocks R mid ms (ms @ xs)"
  by (simp add: changes_blocks_def nth_append)

lemma changes_blocks_mono:
  "changes_blocks R mid ms ms' \<Longrightarrow> (\<And>i b b'. R i b b' \<Longrightarrow> R' i b b') \<Longrightarrow> changes_blocks R' mid ms ms'"
  unfolding changes_blocks_def by blast

lemma changes_blocks_keep:
  "changes_blocks (\<lambda>i b b'. False) mid ms ms' \<Longrightarrow> changes_blocks R mid' ms ms'"
  unfolding changes_blocks_def by blast

lemma changes_blocks_in_message:
  assumes "\<And>bs. length bs \<le> length (g bs)"
    and "\<And>bs i. i < length bs \<Longrightarrow> g bs ! i = bs ! i \<or> R i (bs ! i) (g bs ! i)"
  shows "changes_blocks R (Some (JStr msgId)) ms (in_message msgId g ms)"
  unfolding changes_blocks_def in_message_def
proof (intro conjI allI impI)
  show "length ms \<le> length (map (\<lambda>msg. if msg_id msg = JStr msgId then msg\<lparr>msg_content := g (msg_content msg)\<rparr> else msg) ms)"
    by simp
next
  fix m assume m: "m < length ms"
  let ?F = "\<lambda>msg. if msg_id msg = JStr msgId then msg\<lparr>msg_content := g (msg_content msg)\<rparr> else msg"
  show "msg_id (map ?F ms ! m) = msg_id (ms ! m)" using m by simp
  show "length (msg_content (ms ! m)) \<le> length (msg_content (map ?F ms ! m))"
    using m assms(1) by simp
  fix i assume i: "i < length (msg_content (ms ! m))"
  show "msg_content (map ?F ms ! m) ! i = msg_content (ms ! m) ! i
        \<or> Some (JStr msgId) = Some (msg_id (ms ! m))
          \<and> R i (msg_content (ms ! m) ! i) (msg_content (map ?F ms ! m) ! i)"
    using m i assms(2) [of i "msg_content (ms ! m)"] by auto
qed

lemma changes_blocks_trans:
  assumes "changes_blocks R mid ms ms'" "changes_blocks R' mid ms' ms''"
    and "\<And>i b b' b''. R i b b' \<or> b' = b \<Longrightarrow> R' i b' b'' \<or> b'' = b' \<Longrightarrow> b'' = b \<or> R'' i b b''"
  shows "changes_blocks R'' mid ms ms''"
  unfolding changes_blocks_def
proof (intro conjI allI impI)
  from assms(1,2) show "length ms \<le> length ms''" by (auto simp: changes_blocks_def)
next
  fix m assume m: "m < length ms"
  with assms(1) have m': "m < length ms'" by (auto simp: changes_blocks_def)
  from assms(1) m have a: "msg_id (ms' ! m) = msg_id (ms ! m)"
      "length (msg_content (ms ! m)) \<le> length (msg_content (ms' ! m))"
    by (auto simp: changes_blocks_def)
  from assms(2) m' have b: "msg_id (ms'' ! m) = msg_id (ms' ! m)"
      "length (msg_content (ms' ! m)) \<le> length (msg_content (ms'' ! m))"
    by (auto simp: changes_blocks_def)
  from a b show "msg_id (ms'' ! m) = msg_id (ms ! m)" by simp
  from a b show "length (msg_content (ms ! m)) \<le> length (msg_content (ms'' ! m))" by simp
  fix i assume i: "i < length (msg_content (ms ! m))"
  with a have i': "i < length (msg_content (ms' ! m))" by simp
  from assms(1) m i have c1:
    "msg_content (ms' ! m) ! i = msg_content (ms ! m) ! i
     \<or> mid = Some (msg_id (ms ! m)) \<and> R i (msg_content (ms ! m) ! i) (msg_content (ms' ! m) ! i)"
    unfolding changes_blocks_def by blast
  from assms(2) m' i' have c2:
    "msg_content (ms'' ! m) ! i = msg_content (ms' ! m) ! i
     \<or> mid = Some (msg_id (ms' ! m)) \<and> R' i (msg_content (ms' ! m) ! i) (msg_content (ms'' ! m) ! i)"
    unfolding changes_blocks_def by blast
  show "msg_content (ms'' ! m) ! i = msg_content (ms ! m) ! i
        \<or> mid = Some (msg_id (ms ! m)) \<and> R'' i (msg_content (ms ! m) ! i) (msg_content (ms'' ! m) ! i)"
  proof (cases "mid = Some (msg_id (ms ! m))")
    case True
    from c1 c2 assms(3) [of i "msg_content (ms ! m) ! i" "msg_content (ms' ! m) ! i" "msg_content (ms'' ! m) ! i"]
    show ?thesis using True by auto
  next
    case False
    with c1 c2 a show ?thesis by auto
  qed
qed

lemma session_messages_update2:
  "cur = currentSessionId s \<Longrightarrow>
   session_messages (update_messages_as cur sid' f s) sid =
     (if key_eq sid' sid then f (session_messages s sid) else session_messages s sid)"
  by (simp add: session_messages_update)

lemma session_messages_upd [simp]:
  "session_messages (s\<lparr>isStreaming := x1\<rparr>) sid = session_messages s sid"
  "session_messages (s\<lparr>isConnected := x2\<rparr>) sid = session_messages s sid"
  "session_messages (s\<lparr>sessionInfo := x3\<rparr>) sid = session_messages s sid"
  "session_messages (s\<lparr>claudeSessionId := x5\<rparr>) sid = session_messages s sid"
  "session_messages (s\<lparr>error := x6\<rparr>) sid = session_messages s sid"
  "session_messages (s\<lparr>thinkingStatus := x7\<rparr>) sid = session_messages s sid"
  "session_messages (s\<lparr>todos := x8\<rparr>) sid = session_messages s sid"
  "session_messages (s\<lparr>streamStartTime := x9\<rparr>) sid = session_messages s sid"
  "session_messages (s\<lparr>userInfo := x10\<rparr>) sid = session_messages s sid"
  "session_messages (s\<lparr>activeSessionIds := x11\<rparr>) sid = session_messages s sid"
  "session_messages (s\<lparr>currentMessageIdRef := x12\<rparr>) sid = session_messages s sid"
  "session_messages (s\<lparr>currentBlockIndexRef := x13\<rparr>) sid = session_messages s sid"
  "session_messages (s\<lparr>sessionInfoPerSessionRef := x15\<rparr>) sid = session_messages s sid"
  "session_messages (s\<lparr>todosPerSessionRef := x16\<rparr>) sid = session_messages s sid"
  "session_messages (s\<lparr>streamingPerSessionRef := x17\<rparr>) sid = session_messages s sid"
  "session_messages (s\<lparr>thinkingStatusPerSessionRef := x18\<rparr>) sid = session_messages s sid"
  "session_messages (s\<lparr>currentMessageIdPerSessionRef := x19\<rparr>) sid = session_messages s sid"
  "session_messages (s\<lparr>currentBlockIndexPerSessionRef := x20\<rparr>) sid = session_messages s sid"
  "session_messages (s\<lparr>claudeSessionIdPerSessionRef := x21\<rparr>) sid = session_messages s sid"
  "session_messages (s\<lparr>streamStartTimePerSessionRef := x22\<rparr>) sid = session_messages s sid"
  "session_messages (s\<lparr>toolJsonAccumulatorRef := x23\<rparr>) sid = session_messages s sid"
  "session_messages (s\<lparr>toolJsonFlushTimerRef := x24\<rparr>) sid = session_messages s sid"
  "session_messages (s\<lparr>lastFlushedLengthRef := x25\<rparr>) sid = session_messages s sid"
  "session_messages (s\<lparr>toolNameByBlockRef := x26\<rparr>) sid = session_messages s sid"
  "session_messages (s\<lparr>quantumRendererRef := x27\<rparr>) sid = session_messages s sid"
  "session_messages (s\<lparr>idCount := x28\<rparr>) sid = session_messages s sid"
  "session_messages (s\<lparr>ids := x29\<rparr>) sid = session_messages s sid"
  "session_messages (s\<lparr>now := x30\<rparr>) sid = session_messages s sid"
  by (simp_all add: session_messages_def)

lemma current_msgId_upd [simp]:
  "current_msgId (s\<lparr>messages := x0\<rparr>) sid = current_msgId s sid"
  "current_msgId (s\<lparr>isStreaming := x1\<rparr>) sid = current_msgId s sid"
  "current_msgId (s\<lparr>isConnected := x2\<rparr>) sid = current_msgId s sid"
  "current_msgId (s\<lparr>sessionInfo := x3\<rparr>) sid = current_msgId s sid"
  "current_msgId (s\<lparr>currentSessionId := x4\<rparr>) sid = current_msgId s sid"
  "current_msgId (s\<lparr>claudeSessionId := x5\<rparr>) sid = current_msgId s sid"
  "current_msgId (s\<lparr>error := x6\<rparr>) sid = current_msgId s sid"
  "current_msgId (s\<lparr>thinkingStatus := x7\<rparr>) sid = current_msgId s sid"
  "current_msgId (s\<lparr>todos := x8\<rparr>) sid = current_msgId s sid"
  "current_msgId (s\<lparr>streamStartTime := x9\<rparr>) sid = current_msgId s sid"
  "current_msgId (s\<lparr>userInfo := x10\<rparr>) sid = current_msgId s sid"
  "current_msgId (s\<lparr>activeSessionIds := x11\<rparr>) sid = current_msgId s sid"
  "current_msgId (s\<lparr>currentMessageIdRef := x12\<rparr>) sid = current_msgId s sid"
  "current_msgId (s\<lparr>currentBlockIndexRef := x13\<rparr>) sid = current_msgId s sid"
  "current_msgId (s\<lparr>messagesPerSessionRef := x14\<rparr>) sid = current_msgId s sid"
  "current_msgId (s\<lparr>sessionInfoPerSessionRef := x15\<rparr>) sid = current_msgId s sid"
  "current_msgId (s\<lparr>todosPerSessionRef := x16\<rparr>) sid = current_msgId s sid"
  "current_msgId (s\<lparr>streamingPerSessionRef := x17\<rparr>) sid = current_msgId s sid"
  "current_msgId (s\<lparr>thinkingStatusPerSessionRef := x18\<rparr>) sid = current_msgId s sid"
  "current_msgId (s\<lparr>currentBlockIndexPerSessionRef := x20\<rparr>) sid = current_msgId s sid"
  "current_msgId (s\<lparr>claudeSessionIdPerSessionRef := x21\<rparr>) sid = current_msgId s sid"
  "current_msgId (s\<lparr>streamStartTimePerSessionRef := x22\<rparr>) sid = current_msgId s sid"
  "current_msgId (s\<lparr>toolJsonAccumulatorRef := x23\<rparr>) sid = current_msgId s sid"
  "current_msgId (s\<lparr>toolJsonFlushTimerRef := x24\<rparr>) sid = current_msgId s sid"
  "current_msgId (s\<lparr>lastFlushedLengthRef := x25\<rparr>) sid = current_msgId s sid"
  "current_msgId (s\<lparr>toolNameByBlockRef := x26\<rparr>) sid = current_msgId s sid"
  "current_msgId (s\<lparr>quantumRendererRef := x27\<rparr>) sid = current_msgId s sid"
  "current_msgId (s\<lparr>idCount := x28\<rparr>) sid = current_msgId s sid"
  "current_msgId (s\<lparr>ids := x29\<rparr>) sid = current_msgId s sid"
  "current_msgId (s\<lparr>now := x30\<rparr>) sid = current_msgId s sid"
  by (simp_all add: current_msgId_def)

subsection \<open>Renderer callbacks\<close>

lemma onRender_refs [simp]:
  "currentSessionId (onRender sid idx cur chunk s) = currentSessionId s"
  "currentMessageIdPerSessionRef (onRender sid idx cur chunk s) = currentMessageIdPerSessionRef s"
  "quantumRendererRef (onRender sid idx cur chunk s) = quantumRendererRef s"
  "toolJsonAccumulatorRef (onRender sid idx cur chunk s) = toolJsonAccumulatorRef s"
  "toolJsonFlushTimerRef (onRender sid idx cur chunk s) = toolJsonFlushTimerRef s"
  by (simp_all add: onRender_def split: option.splits)

lemma onRender_messages:
  "cur = currentSessionId s \<Longrightarrow>
   session_messages (onRender sid' idx cur chunk s) sid =
     (case current_msgId s sid' of
        None \<Rightarrow> session_messages s sid
      | Some msgId \<Rightarrow>
          if key_eq sid' sid
          then in_message msgId (update_block idx (\<lambda>b. b\<lparr>blk_content := blk_content b @ chunk\<rparr>))
                 (session_messages s sid)
          else session_messages s sid)"
  by (simp add: onRender_def session_messages_update2 split: option.splits)

lemma appended_refl [simp]: "appended b b"
  by (simp add: appended_def)

lemma appended_append [simp]: "appended b (b\<lparr>blk_content := blk_content b @ t\<rparr>)"
  by (simp add: appended_def)

lemma onRender_changes:
  assumes "cur = currentSessionId s"
  shows "changes_blocks (\<lambda>i b b'. sid' = sid \<and> idx = block_key i \<and> appended b b')
           (map_option JStr (current_msgId s sid))
           (session_messages s sid) (session_messages (onRender sid' idx cur chunk s) sid)"
proof (cases "current_msgId s sid'")
  case None
  then show ?thesis by (simp add: onRender_messages [OF assms])
next
  case (Some msgId)
  show ?thesis
  proof (cases "key_eq sid' sid")
    case True
    then have e: "sid' = sid" by (rule key_eq_eq)
    show ?thesis
      unfolding onRender_messages [OF assms] using Some True
      by (simp add: e) (rule changes_blocks_in_message, simp, simp add: nth_update_block)
  next
    case False
    then show ?thesis by (simp add: onRender_messages [OF assms] Some)
  qed
qed

lemma fresh_renderer:
  assumes "closures_fresh s" "map_get (session_map (quantumRendererRef s) sid) idx = Some r"
  shows "closure_currentSessionId r = currentSessionId s"
proof -
  from assms(1) have "list_all (\<lambda>r. closure_currentSessionId (snd r) = currentSessionId s)
                        (session_map (quantumRendererRef s) sid)"
    by (simp add: closures_fresh_def list_all_session_map)
  from list_all_map_get [where P = "\<lambda>r. closure_currentSessionId r = currentSessionId s", OF this assms(2)]
  show ?thesis .
qed

lemma fresh_timer:
  assumes "closures_fresh s" "map_get (toolJsonFlushTimerRef s) sid = Some (Some c)"
  shows "c = currentSessionId s"
proof -
  from assms(1) have "list_all (\<lambda>e. snd e = None \<or> snd e = Some (currentSessionId s))
                        (toolJsonFlushTimerRef s)"
    by (simp add: closures_fresh_def)
  from list_all_map_get [where P = "\<lambda>t. t = None \<or> t = Some (currentSessionId s)",
                         OF this assms(2)]
  show ?thesis by simp
qed

lemma fresh_set_renderer:
  assumes "closures_fresh s" "closure_currentSessionId r = currentSessionId s"
  shows "closures_fresh (s\<lparr>quantumRendererRef :=
           map_set (quantumRendererRef s) sid (map_set (session_map (quantumRendererRef s) sid) idx r)\<rparr>)"
proof -
  let ?P = "\<lambda>r. closure_currentSessionId r = currentSessionId s"
  from assms(1) have a: "list_all (\<lambda>e. list_all (\<lambda>r. ?P (snd r)) (snd e)) (quantumRendererRef s)"
    by (simp add: closures_fresh_def)
  then have "list_all (\<lambda>r. ?P (snd r)) (session_map (quantumRendererRef s) sid)"
    by (rule list_all_session_map)
  then have "list_all (\<lambda>r. ?P (snd r)) (map_set (session_map (quantumRendererRef s) sid) idx r)"
    using assms(2) by (rule list_all_map_set [where P = ?P])
  with a have "list_all (\<lambda>e. list_all (\<lambda>r. ?P (snd r)) (snd e))
                 (map_set (quantumRendererRef s) sid (map_set (session_map (quantumRendererRef s) sid) idx r))"
    by (rule list_all_map_set [where P = "list_all (\<lambda>r. ?P (snd r))"])
  with assms(1) show ?thesis by (simp add: closures_fresh_def)
qed

lemma closures_fresh_cong:
  "currentSessionId s' = currentSessionId s \<Longrightarrow> quantumRendererRef s' = quantumRendererRef s \<Longrightarrow>
   toolJsonFlushTimerRef s' = toolJsonFlushTimerRef s \<Longrightarrow> closures_fresh s' = closures_fresh s"
  by (simp add: closures_fresh_def)

subsection \<open>An animation frame\<close>

lemma render_frame_refs [simp]:
  "currentSessionId (render_frame sid idx n s) = currentSessionId s"
  "currentMessageIdPerSessionRef (render_frame sid idx n s) = currentMessageIdPerSessionRef s"
  "toolJsonAccumulatorRef (render_frame sid idx n s) = toolJsonAccumulatorRef s"
  "toolJsonFlushTimerRef (render_frame sid idx n s) = toolJsonFlushTimerRef s"
  by (simp_all add: render_frame_def Let_def split: option.splits prod.splits)

lemma render_frame_renderers:
  "map_has (session_map (quantumRendererRef (render_frame sid' idx n s)) sid) k
   = map_has (session_map (quantumRendererRef s) sid) k"
  by (auto simp: render_frame_def Let_def map_has_def session_map_set map_get_map_set
           split: option.splits prod.splits dest!: key_eq_eq)

lemma render_frame_fresh:
  assumes "closures_fresh s"
  shows "closures_fresh (render_frame sid idx n s)"
proof (cases "map_get (session_map (quantumRendererRef s) sid) idx")
  case None
  with assms show ?thesis by (simp add: render_frame_def)
next
  case (Some r)
  have c: "closure_currentSessionId (r\<lparr>buffer := x\<rparr>) = currentSessionId s" for x
    using fresh_renderer [OF assms Some] by simp
  note f = fresh_set_renderer [OF assms c]
  have g: "closures_fresh (onRender sid idx cur t s1) = closures_fresh s1" for cur t s1
    by (rule closures_fresh_cong) simp_all
  show ?thesis
    using assms f by (simp add: render_frame_def Some Let_def g split: prod.splits)
qed

lemma render_frame_changes:
  assumes "closures_fresh s"
  shows "changes_blocks (\<lambda>i b b'. sid' = sid \<and> idx = block_key i \<and> has_renderer s sid i \<and> appended b b')
           (cur_mid s sid)
           (session_messages s sid) (session_messages (render_frame sid' idx n s) sid)"
proof (cases "map_get (session_map (quantumRendererRef s) sid') idx")
  case None
  then show ?thesis by (simp add: render_frame_def)
next
  case (Some r)
  have c: "closure_currentSessionId r = currentSessionId s"
    using fresh_renderer [OF assms Some] .
  have h: "sid' = sid \<Longrightarrow> idx = block_key i \<Longrightarrow> has_renderer s sid i" for i
    using Some by (simp add: has_renderer_def map_has_def)
  show ?thesis
  proof (cases "buffer r = [] \<or> n = 0")
    case True
    then show ?thesis by (simp add: render_frame_def Some)
  next
    case False
    obtain batch rest where e: "extractBatch n (buffer r) = (batch, rest)" by (cases "extractBatch n (buffer r)")
    let ?s1 = "s\<lparr>quantumRendererRef :=
                   map_set (quantumRendererRef s) sid'
                     (map_set (session_map (quantumRendererRef s) sid') idx (r\<lparr>buffer := rest\<rparr>))\<rparr>"
    have r: "render_frame sid' idx n s = (if batch = [] then ?s1 else onRender sid' idx (currentSessionId s) batch ?s1)"
      using False by (simp add: render_frame_def Some e Let_def c)
    have cs: "currentSessionId s = currentSessionId ?s1" by simp
    show ?thesis
    proof (cases "batch = []")
      case True
      then show ?thesis by (simp add: r)
    next
      case F: False
      from onRender_changes [where cur = "currentSessionId s" and s = ?s1 and sid' = sid' and sid = sid and idx = idx and chunk = batch, OF cs]
      have "changes_blocks (\<lambda>i b b'. sid' = sid \<and> idx = block_key i \<and> appended b b')
              (cur_mid s sid) (session_messages s sid) (session_messages (render_frame sid' idx n s) sid)"
        using F by (simp add: r cur_mid_def)
      then show ?thesis
        by (rule changes_blocks_mono) (auto intro: h)
    qed
  qed
qed

subsection \<open>A tick of the flush timer\<close>

lemma flush_fold:
  fixes acc :: "(json \<times> string) list"
  defines "F \<equiv> (\<lambda>updatedContent idx.
                   case map_get acc idx of
                     None \<Rightarrow> updatedContent
                   | Some accumulated \<Rightarrow>
                       if accumulated \<noteq> []
                       then update_block idx (\<lambda>b. b\<lparr>blk_content := accumulated\<rparr>) updatedContent
                       else updatedContent)"
  shows "length (foldl F bs idxs) = length bs
         \<and> (i < length bs \<longrightarrow>
              foldl F bs idxs ! i = bs ! i
              \<or> (case map_get acc (block_key i) of
                    None \<Rightarrow> False
                  | Some x \<Rightarrow> foldl F bs idxs ! i = (bs ! i)\<lparr>blk_content := x\<rparr>))"
proof (induction idxs arbitrary: bs)
  case Nil
  then show ?case by simp
next
  case (Cons idx idxs)
  have l: "length (F bs idx) = length bs"
    by (simp add: F_def split: option.splits)
  have n: "i < length bs \<Longrightarrow>
           F bs idx ! i = bs ! i
           \<or> (case map_get acc (block_key i) of None \<Rightarrow> False
               | Some x \<Rightarrow> F bs idx ! i = (bs ! i)\<lparr>blk_content := x\<rparr>)"
    by (auto simp: F_def nth_update_block split: option.splits)
  from Cons.IH [of "F bs idx"] l
  have ih: "length (foldl F (F bs idx) idxs) = length bs"
       "i < length bs \<Longrightarrow>
          foldl F (F bs idx) idxs ! i = F bs idx ! i
          \<or> (case map_get acc (block_key i) of None \<Rightarrow> False
              | Some x \<Rightarrow> foldl F (F bs idx) idxs ! i = (F bs idx ! i)\<lparr>blk_content := x\<rparr>)"
    by auto
  show ?case
  proof (intro conjI impI)
    show "length (foldl F bs (idx # idxs)) = length bs" using ih(1) by simp
  next
    assume i: "i < length bs"
    from n [OF i] ih(2) [OF i]
    show "foldl F bs (idx # idxs) ! i = bs ! i
          \<or> (case map_get acc (block_key i) of None \<Rightarrow> False
              | Some x \<Rightarrow> foldl F bs (idx # idxs) ! i = (bs ! i)\<lparr>blk_content := x\<rparr>)"
      by (auto split: option.splits)
  qed
qed

lemma flushToolJson_refs [simp]:
  "currentSessionId (flushToolJson sid bi cur s) = currentSessionId s"
  "currentMessageIdPerSessionRef (flushToolJson sid bi cur s) = currentMessageIdPerSessionRef s"
  "quantumRendererRef (flushToolJson sid bi cur s) = quantumRendererRef s"
  "toolJsonFlushTimerRef (flushToolJson sid bi cur s) = toolJsonFlushTimerRef s"
  "session_map (toolJsonAccumulatorRef (flushToolJson sid bi cur s)) sid' = session_map (toolJsonAccumulatorRef s) sid'"
  by (simp_all add: flushToolJson_def Let_def split: option.splits)

lemma flushToolJson_changes:
  assumes "cur = currentSessionId s"
  shows "changes_blocks (\<lambda>i b b'. sid' = sid \<and> replaced s sid i b b')
           (cur_mid s sid)
           (session_messages s sid) (session_messages (flushToolJson sid' bi cur s) sid)"
proof (cases "current_msgId s sid'")
  case None
  then show ?thesis by (simp add: flushToolJson_def)
next
  case (Some msgId)
  show ?thesis
  proof (cases "key_eq sid' sid")
    case False
    then show ?thesis
      using assms by (simp add: flushToolJson_def Some Let_def session_messages_update2)
  next
    case True
    then have e: "sid' = sid" by (rule key_eq_eq)
    have m: "cur_mid s sid = Some (JStr msgId)" using Some by (simp add: cur_mid_def e)
    let ?acc = "session_map (toolJsonAccumulatorRef s) sid"
    have "changes_blocks (\<lambda>i b b'. sid' = sid \<and> replaced s sid i b b') (Some (JStr msgId)) (session_messages s sid)
            (in_message msgId
               (\<lambda>content.
                  foldl (\<lambda>updatedContent idx.
                           case map_get ?acc idx of
                             None \<Rightarrow> updatedContent
                           | Some accumulated \<Rightarrow>
                               if accumulated \<noteq> []
                               then update_block idx (\<lambda>b. b\<lparr>blk_content := accumulated\<rparr>) updatedContent
                               else updatedContent)
                    content idxs)
               (session_messages s sid))" for idxs
    proof (rule changes_blocks_in_message)
      fix bs :: "content_block list"
      from flush_fold [where acc = ?acc and bs = bs and idxs = idxs]
      show "length bs \<le> length (foldl (\<lambda>updatedContent idx.
                           case map_get ?acc idx of
                             None \<Rightarrow> updatedContent
                           | Some accumulated \<Rightarrow>
                               if accumulated \<noteq> []
                               then update_block idx (\<lambda>b. b\<lparr>blk_content := accumulated\<rparr>) updatedContent
                               else updatedContent)
                    bs idxs)" by simp
    next
      fix bs :: "content_block list" and i
      assume "i < length bs"
      with flush_fold [where acc = ?acc and bs = bs and idxs = idxs and i = i]
      show "foldl (\<lambda>updatedContent idx.
                           case map_get ?acc idx of
                             None \<Rightarrow> updatedContent
                           | Some accumulated \<Rightarrow>
                               if accumulated \<noteq> []
                               then update_block idx (\<lambda>b. b\<lparr>blk_content := accumulated\<rparr>) updatedContent
                               else updatedContent)
                    bs idxs ! i = bs ! i
            \<or> sid' = sid \<and> replaced s sid i (bs ! i)
                 (foldl (\<lambda>updatedContent idx.
                           case map_get ?acc idx of
                             None \<Rightarrow> updatedContent
                           | Some accumulated \<Rightarrow>
                               if accumulated \<noteq> []
                               then update_block idx (\<lambda>b. b\<lparr>blk_content := accumulated\<rparr>) updatedContent
                               else updatedContent)
                    bs idxs ! i)"
        by (auto simp: replaced_def accumulated_json_def e split: option.splits)
    qed
    moreover have "current_msgId s sid = Some msgId" using Some by (simp add: e)
    ultimately show ?thesis
      using assms True
      by (simp add: flushToolJson_def Let_def session_messages_update2 m e)
  qed
qed

lemma refs_same_refl [simp]: "refs_same s s"
  by (simp add: refs_same_def)

lemma refs_same_facts:
  assumes "refs_same s s'"
  shows "closures_fresh s' = closures_fresh s"
    and "current_msgId s' sid = current_msgId s sid"
    and "pending s' sid i = pending s sid i"
  using assms
  by (simp_all add: refs_same_def closures_fresh_def current_msgId_def pending_def has_renderer_def
                    accumulated_json_def)

lemma updateSessionInfo_quiet [simp]:
  "currentSessionId (updateSessionInfo sid f s) = currentSessionId s"
  "currentMessageIdPerSessionRef (updateSessionInfo sid f s) = currentMessageIdPerSessionRef s"
  "quantumRendererRef (updateSessionInfo sid f s) = quantumRendererRef s"
  "toolJsonAccumulatorRef (updateSessionInfo sid f s) = toolJsonAccumulatorRef s"
  "toolJsonFlushTimerRef (updateSessionInfo sid f s) = toolJsonFlushTimerRef s"
  "messages (updateSessionInfo sid f s) = messages s"
  "messagesPerSessionRef (updateSessionInfo sid f s) = messagesPerSessionRef s"
  "idCount (updateSessionInfo sid f s) = idCount s"
  "ids (updateSessionInfo sid f s) = ids s"
  "now (updateSessionInfo sid f s) = now s"
  by (simp_all add: updateSessionInfo_def)

lemma session_messages_info [simp]:
  "session_messages (updateSessionInfo sid' f s) sid = session_messages s sid"
  by (simp add: session_messages_def)

lemma current_msgId_info [simp]:
  "current_msgId (updateSessionInfo sid' f s) sid = current_msgId s sid"
  by (simp add: current_msgId_def)

lemma on_status_quiet:
  "refs_same s (on_status event s)" "session_messages (on_status event s) sid = session_messages s sid"
  by (simp_all add: on_status_def refs_same_def Let_def session_messages_def)

lemma on_error_quiet:
  "refs_same s (on_error event s)" "session_messages (on_error event s) sid = session_messages s sid"
  by (simp_all add: on_error_def refs_same_def Let_def showError_def session_messages_def)

lemma on_system_quiet:
  "refs_same s (on_system data sid' s)" "session_messages (on_system data sid' s) sid = session_messages s sid"
  by (simp_all add: on_system_def refs_same_def Let_def session_messages_def)

lemma on_message_delta_quiet:
  "refs_same s (on_message_delta data sid' s)"
  "session_messages (on_message_delta data sid' s) sid = session_messages s sid"
  by (simp_all add: on_message_delta_def refs_same_def)

lemma updateSessionMessages_refs [simp]:
  "currentSessionId (updateSessionMessages sid f s) = currentSessionId s"
  "currentMessageIdPerSessionRef (updateSessionMessages sid f s) = currentMessageIdPerSessionRef s"
  "quantumRendererRef (updateSessionMessages sid f s) = quantumRendererRef s"
  "toolJsonAccumulatorRef (updateSessionMessages sid f s) = toolJsonAccumulatorRef s"
  "toolJsonFlushTimerRef (updateSessionMessages sid f s) = toolJsonFlushTimerRef s"
  by (simp_all add: updateSessionMessages_def)

lemma session_messages_updateSession:
  "session_messages (updateSessionMessages sid' f s) sid =
     (if key_eq sid' sid then f (session_messages s sid) else session_messages s sid)"
  by (simp add: updateSessionMessages_def session_messages_update)

lemma current_msgId_updateSession [simp]:
  "current_msgId (updateSessionMessages sid' f s) sid = current_msgId s sid"
  by (simp add: current_msgId_def)

lemma on_message_stop_effect:
  "refs_same s (on_message_stop data sid' s)"
  "changes_blocks (\<lambda>i b b'. False) mid (session_messages s sid) (session_messages (on_message_stop data sid' s) sid)"
proof -
  show "refs_same s (on_message_stop data sid' s)"
    by (simp add: on_message_stop_def refs_same_def split: option.splits)
  have "changes_blocks (\<lambda>i b b'. False) mid ms
          (map (\<lambda>msg. if msg_id msg = JStr x then msg\<lparr>msg_isStreaming := JBool False\<rparr> else msg) ms)" for x ms
    by (simp add: changes_blocks_def)
  then show "changes_blocks (\<lambda>i b b'. False) mid (session_messages s sid)
               (session_messages (on_message_stop data sid' s) sid)"
    by (simp add: on_message_stop_def session_messages_updateSession split: option.splits)
qed

lemma keeps_in_message_append:
  "changes_blocks (\<lambda>i b b'. False) mid ms (in_message x (\<lambda>bs. bs @ [nb]) ms)"
  by (rule changes_blocks_keep [OF changes_blocks_in_message]) (simp_all add: nth_append)

lemma note_block_start_fields [simp]:
  "currentSessionId (note_block_start block sid' bi s) = currentSessionId s"
  "currentMessageIdPerSessionRef (note_block_start block sid' bi s) = currentMessageIdPerSessionRef s"
  "quantumRendererRef (note_block_start block sid' bi s) = quantumRendererRef s"
  "toolJsonAccumulatorRef (note_block_start block sid' bi s) = toolJsonAccumulatorRef s"
  "toolJsonFlushTimerRef (note_block_start block sid' bi s) = toolJsonFlushTimerRef s"
  "idCount (note_block_start block sid' bi s) = idCount s"
  "ids (note_block_start block sid' bi s) = ids s"
  "session_messages (note_block_start block sid' bi s) sid = session_messages s sid"
  by (simp_all add: note_block_start_def Let_def session_messages_def)

lemma on_content_block_start_case:
  "case on_content_block_start data sid' s of
     Inl e \<Rightarrow> True
   | Inr s' \<Rightarrow>
       refs_same s s'
       \<and> changes_blocks (\<lambda>i b b'. False) mid (session_messages s sid) (session_messages s' sid)"
  by (simp add: on_content_block_start_def Let_def generateId_def session_messages_updateSession
                keeps_in_message_append refs_same_def
           split: option.splits json.splits)

lemma map_get_object: "\<not> key_eq k k \<Longrightarrow> map_get m k = None"
proof (induction m)
  case Nil
  then show ?case by simp
next
  case (Cons e m)
  obtain k0 v0 where e: "e = (k0, v0)" by (cases e)
  from Cons.prems have "\<not> key_eq k0 k" by (auto dest: key_eq_sym key_eq_left)
  with Cons show ?case by (simp add: e)
qed

subsection \<open>message_start\<close>

lemma on_message_start_fields [simp]:
  "currentSessionId (on_message_start data sid' s) = currentSessionId s"
  "quantumRendererRef (on_message_start data sid' s) = quantumRendererRef s"
  "toolJsonAccumulatorRef (on_message_start data sid' s) = toolJsonAccumulatorRef s"
  "toolJsonFlushTimerRef (on_message_start data sid' s) = toolJsonFlushTimerRef s"
  by (simp_all add: on_message_start_def Let_def generateId_def)

lemma on_message_start_current:
  "current_msgId (on_message_start data sid' s) sid =
     (if key_eq sid' sid then (if ids s (idCount s) \<noteq> [] then Some (ids s (idCount s)) else None)
      else current_msgId s sid)"
  by (simp add: on_message_start_def Let_def generateId_def current_msgId_def map_get_map_set)

lemma on_message_start_messages:
  "changes_blocks (\<lambda>i b b'. False) mid (session_messages s sid)
     (session_messages (on_message_start data sid' s) sid)"
  by (simp add: on_message_start_def Let_def generateId_def session_messages_updateSession)

subsection \<open>assistant\<close>

lemma assistant_blocks_state:
  "case assistant_blocks stringify stringify2 blocks s of
     Inl e \<Rightarrow> True
   | Inr (bs, s2) \<Rightarrow> s2 = s\<lparr>idCount := idCount s2\<rparr>"
proof (induction blocks arbitrary: s)
  case Nil
  then show ?case by simp
next
  case (Cons block blocks)
  from Cons [of "s\<lparr>idCount := Suc (idCount s)\<rparr>"]
  show ?case
    by (auto simp: generateId_def split: sum.splits prod.splits json.splits if_splits)
qed

lemma on_assistant_case:
  "case on_assistant stringify stringify2 data sid' s of
     Inl e \<Rightarrow> True
   | Inr s' \<Rightarrow>
       refs_same s s'
       \<and> changes_blocks (\<lambda>i b b'. False) mid (session_messages s sid) (session_messages s' sid)"
proof -
  let ?s0 = "s\<lparr>streamingPerSessionRef := map_set (streamingPerSessionRef s) sid' False\<rparr>"
  let ?s1 = "if strict_eq sid' (currentSessionId s) then ?s0\<lparr>isStreaming := False\<rparr> else ?s0"
  have r1: "refs_same s ?s1" by (simp add: refs_same_def)
  have m1: "session_messages ?s1 sid = session_messages s sid" by simp
  have main: "refs_same s s2 \<and> session_messages s2 sid = session_messages s sid"
    if "assistant_blocks stringify stringify2 blocks ?s1 = Inr (bs, s2)" for blocks bs s2
  proof -
    from assistant_blocks_state [where stringify = stringify and ?stringify2.0 = stringify2
                                   and blocks = blocks and s = ?s1] that
    have s2: "s2 = ?s1\<lparr>idCount := idCount s2\<rparr>" by simp
    show ?thesis
      by (subst s2, subst (2) s2, simp add: refs_same_def)
  qed
  show ?thesis
  proof (cases "on_assistant stringify stringify2 data sid' s")
    case (Inl e)
    then show ?thesis by simp
  next
    case (Inr s')
    show ?thesis
    proof (cases "truthy (field (field data ''message'') ''content'') \<and> current_msgId ?s1 sid' = None")
      case False
      with Inr have "s' = ?s1" by (auto simp: on_assistant_def Let_def)
      with r1 m1 Inr show ?thesis by simp
    next
      case True
      with Inr obtain blocks where c: "field (field data ''message'') ''content'' = JArr blocks"
        by (auto simp: on_assistant_def Let_def split: json.splits)
      from Inr True c obtain bs s2 where a: "assistant_blocks stringify stringify2 blocks ?s1 = Inr (bs, s2)"
        by (auto simp: on_assistant_def Let_def split: sum.splits)
      note f = main [OF a]
      from Inr True c a have
        "\<exists>y x. s' = updateSessionMessages sid' (\<lambda>prev. prev @ [y]) x
               \<and> (x = s2 \<or> x = s2\<lparr>idCount := Suc (idCount s2)\<rparr>)"
        by (auto simp: on_assistant_def Let_def generateId_def split: if_splits)
      then obtain y x where e: "s' = updateSessionMessages sid' (\<lambda>prev. prev @ [y]) x"
          and x: "x = s2 \<or> x = s2\<lparr>idCount := Suc (idCount s2)\<rparr>"
        by blast
      from x f have f: "refs_same s x \<and> session_messages x sid = session_messages s sid"
        by (auto simp: refs_same_def)
      show ?thesis
        using f by (simp add: Inr e refs_same_def session_messages_updateSession)
    qed
  qed
qed

subsection \<open>content_block_delta\<close>

lemma renderer_onData_fields [simp]:
  "currentSessionId (renderer_onData sid' bi chunk s) = currentSessionId s"
  "currentMessageIdPerSessionRef (renderer_onData sid' bi chunk s) = currentMessageIdPerSessionRef s"
  "toolJsonAccumulatorRef (renderer_onData sid' bi chunk s) = toolJsonAccumulatorRef s"
  "toolJsonFlushTimerRef (renderer_onData sid' bi chunk s) = toolJsonFlushTimerRef s"
  "session_messages (renderer_onData sid' bi chunk s) sid = session_messages s sid"
  by (simp_all add: renderer_onData_def Let_def)

lemma renderer_onData_fresh:
  assumes "closures_fresh s"
  shows "closures_fresh (renderer_onData sid bi chunk s)"
proof (cases "map_get (session_map (quantumRendererRef s) sid) bi")
  case None
  from fresh_set_renderer [OF assms, where r = "\<lparr>buffer = [] @ chunk, closure_currentSessionId = currentSessionId s\<rparr>"]
  show ?thesis by (simp add: renderer_onData_def Let_def None)
next
  case (Some r)
  from fresh_renderer [OF assms Some]
  have "closure_currentSessionId (r\<lparr>buffer := buffer r @ chunk\<rparr>) = currentSessionId s" by simp
  from fresh_set_renderer [OF assms this]
  show ?thesis by (simp add: renderer_onData_def Let_def Some)
qed

lemma renderer_onData_has:
  "has_renderer (renderer_onData sid' bi chunk s) sid i \<longleftrightarrow>
     has_renderer s sid i \<or> (key_eq sid' sid \<and> bi = block_key i)"
  by (auto simp: renderer_onData_def Let_def has_renderer_def map_has_def session_map_set map_get_map_set
           dest: key_eq_eq)

lemma ensureFlushTimer_fields [simp]:
  "currentSessionId (ensureFlushTimer sid' s) = currentSessionId s"
  "currentMessageIdPerSessionRef (ensureFlushTimer sid' s) = currentMessageIdPerSessionRef s"
  "toolJsonAccumulatorRef (ensureFlushTimer sid' s) = toolJsonAccumulatorRef s"
  "quantumRendererRef (ensureFlushTimer sid' s) = quantumRendererRef s"
  "session_messages (ensureFlushTimer sid' s) sid = session_messages s sid"
  by (simp_all add: ensureFlushTimer_def split: option.splits)

lemma ensureFlushTimer_fresh:
  assumes "closures_fresh s"
  shows "closures_fresh (ensureFlushTimer sid s)"
proof -
  from assms have "list_all (\<lambda>e. snd e = None \<or> snd e = Some (currentSessionId s)) (toolJsonFlushTimerRef s)"
    by (simp add: closures_fresh_def)
  from list_all_map_set [where P = "\<lambda>t. t = None \<or> t = Some (currentSessionId s)", OF this]
  have "list_all (\<lambda>e. snd e = None \<or> snd e = Some (currentSessionId s))
          (map_set (toolJsonFlushTimerRef s) sid (Some (currentSessionId s)))" by simp
  with assms show ?thesis
    by (simp add: ensureFlushTimer_def closures_fresh_def split: option.splits)
qed

lemma has_renderer_cong:
  "quantumRendererRef s' = quantumRendererRef s \<Longrightarrow> has_renderer s' sid i = has_renderer s sid i"
  by (simp add: has_renderer_def)

lemma accumulated_json_cong:
  "toolJsonAccumulatorRef s' = toolJsonAccumulatorRef s \<Longrightarrow> accumulated_json s' sid i = accumulated_json s sid i"
  by (simp add: accumulated_json_def)

lemma on_content_block_delta_case:
  "case on_content_block_delta data sid' s of
     Inl e \<Rightarrow> True
   | Inr s' \<Rightarrow>
       currentSessionId s' = currentSessionId s
       \<and> currentMessageIdPerSessionRef s' = currentMessageIdPerSessionRef s
       \<and> session_messages s' sid = session_messages s sid
       \<and> (closures_fresh s \<longrightarrow> closures_fresh s')
       \<and> (pending s' sid i \<longrightarrow>
            pending s sid i
            \<or> sid' = sid \<and> current_msgId s sid \<noteq> None \<and> event_blockIndex s sid data = block_key i)"
proof (cases "on_content_block_delta data sid' s")
  case (Inl e)
  then show ?thesis by simp
next
  case (Inr s')
  let ?bi = "event_blockIndex s sid' data"
  let ?s1 = "s\<lparr>toolJsonAccumulatorRef := getSessionMap (toolJsonAccumulatorRef s) sid'\<rparr>"
  from Inr consider
      (same) "s' = s"
    | (chars) chunk where "current_msgId s sid' \<noteq> None" "s' = renderer_onData sid' ?bi chunk s"
    | (frag) v where "current_msgId s sid' \<noteq> None"
        "s' = ensureFlushTimer sid'
               (?s1\<lparr>toolJsonAccumulatorRef :=
                     map_set (toolJsonAccumulatorRef ?s1) sid'
                       (map_set (session_map (toolJsonAccumulatorRef ?s1) sid') ?bi v)\<rparr>)"
    by (auto simp: on_content_block_delta_def Let_def split: option.splits if_splits json.splits)
  then show ?thesis
  proof cases
    case same
    then show ?thesis by (simp add: Inr)
  next
    case chars
    have "pending s' sid i \<longrightarrow> pending s sid i \<or> sid' = sid \<and> ?bi = block_key i"
      by (auto simp: pending_def chars(2) renderer_onData_has accumulated_json_def dest: key_eq_eq)
    with chars show ?thesis
      by (auto simp: Inr renderer_onData_fresh)
  next
    case frag
    let ?s2 = "?s1\<lparr>toolJsonAccumulatorRef :=
                     map_set (toolJsonAccumulatorRef ?s1) sid'
                       (map_set (session_map (toolJsonAccumulatorRef ?s1) sid') ?bi v)\<rparr>"
    have f: "closures_fresh s \<Longrightarrow> closures_fresh s'"
    proof -
      assume "closures_fresh s"
      then have "closures_fresh ?s2" by (simp add: closures_fresh_def)
      then show ?thesis unfolding frag(2) by (rule ensureFlushTimer_fresh)
    qed
    have h: "has_renderer s' sid i = has_renderer s sid i"
      unfolding frag(2) by (simp add: has_renderer_def)
    have a: "accumulated_json s' sid i \<noteq> None \<longrightarrow>
               accumulated_json s sid i \<noteq> None \<or> sid' = sid \<and> ?bi = block_key i"
      unfolding frag(2)
      by (auto simp: accumulated_json_def session_map_set map_get_map_set dest: key_eq_eq split: if_splits)
    have "pending s' sid i \<longrightarrow> pending s sid i \<or> sid' = sid \<and> ?bi = block_key i"
      using h a by (auto simp: pending_def)
    moreover have "currentSessionId s' = currentSessionId s"
        "currentMessageIdPerSessionRef s' = currentMessageIdPerSessionRef s"
        "session_messages s' sid = session_messages s sid"
      unfolding frag(2) by simp_all
    ultimately show ?thesis
      using frag(1) f by (auto simp: Inr)
  qed
qed

subsection \<open>content_block_stop\<close>

lemma renderer_flush_fields [simp]:
  "currentSessionId (renderer_flush sid bi r s) = currentSessionId s"
  "currentMessageIdPerSessionRef (renderer_flush sid bi r s) = currentMessageIdPerSessionRef s"
  "quantumRendererRef (renderer_flush sid bi r s) = quantumRendererRef s"
  "toolJsonAccumulatorRef (renderer_flush sid bi r s) = toolJsonAccumulatorRef s"
  "toolJsonFlushTimerRef (renderer_flush sid bi r s) = toolJsonFlushTimerRef s"
  by (simp_all add: renderer_flush_def)

lemma destroy_renderer_fields [simp]:
  "currentSessionId (destroy_renderer sid bi s) = currentSessionId s"
  "currentMessageIdPerSessionRef (destroy_renderer sid bi s) = currentMessageIdPerSessionRef s"
  "toolJsonAccumulatorRef (destroy_renderer sid bi s) = toolJsonAccumulatorRef s"
  "toolJsonFlushTimerRef (destroy_renderer sid bi s) = toolJsonFlushTimerRef s"
  by (simp_all add: destroy_renderer_def split: option.splits)

lemma destroy_renderer_fresh:
  assumes "closures_fresh s"
  shows "closures_fresh (destroy_renderer sid bi s)"
proof (cases "map_get (quantumRendererRef s) sid")
  case None
  with assms show ?thesis by (simp add: destroy_renderer_def)
next
  case (Some rs)
  let ?P = "\<lambda>r. closure_currentSessionId r = currentSessionId s"
  from assms have a: "list_all (\<lambda>e. list_all (\<lambda>r. ?P (snd r)) (snd e)) (quantumRendererRef s)"
    by (simp add: closures_fresh_def)
  from list_all_map_get [where P = "list_all (\<lambda>r. ?P (snd r))", OF a Some]
  have "list_all (\<lambda>r. ?P (snd r)) rs" .
  then have "list_all (\<lambda>r. ?P (snd r)) (map_delete rs bi)"
    by (rule list_all_map_delete [where P = ?P])
  with a have "list_all (\<lambda>e. list_all (\<lambda>r. ?P (snd r)) (snd e))
                 (map_set (quantumRendererRef s) sid (map_delete rs bi))"
    by (rule list_all_map_set [where P = "list_all (\<lambda>r. ?P (snd r))"])
  with assms show ?thesis
    by (simp add: destroy_renderer_def Some closures_fresh_def split: option.splits)
qed

lemma destroy_renderer_eq:
  "destroy_renderer sid' bi s =
     (case map_get (session_map (quantumRendererRef s) sid') bi of
        None \<Rightarrow> s
      | Some r \<Rightarrow>
          (renderer_flush sid' bi r s)
            \<lparr>quantumRendererRef :=
               map_set (quantumRendererRef s) sid' (map_delete (session_map (quantumRendererRef s) sid') bi)\<rparr>)"
  by (simp add: destroy_renderer_def session_map_def split: option.splits)

lemma destroy_renderer_has:
  "has_renderer (destroy_renderer sid' bi s) sid i \<longleftrightarrow>
     has_renderer s sid i \<and> \<not> (key_eq sid' sid \<and> bi = block_key i)"
proof (cases "map_get (session_map (quantumRendererRef s) sid') bi")
  case None
  then show ?thesis
    by (auto simp: destroy_renderer_eq has_renderer_def map_has_def dest: key_eq_eq)
next
  case (Some r)
  then show ?thesis
    by (auto simp: destroy_renderer_eq has_renderer_def map_has_def session_map_set map_get_map_delete
             dest: key_eq_eq)
qed

lemma destroy_renderer_changes:
  assumes "closures_fresh s"
  shows "changes_blocks (\<lambda>i b b'. sid' = sid \<and> bi = block_key i \<and> appended b b') (cur_mid s sid)
           (session_messages s sid) (session_messages (destroy_renderer sid' bi s) sid)"
proof (cases "map_get (session_map (quantumRendererRef s) sid') bi")
  case None
  then have "destroy_renderer sid' bi s = s"
    by (simp add: destroy_renderer_def session_map_def split: option.splits)
  then show ?thesis by simp
next
  case (Some r)
  from fresh_renderer [OF assms Some] have c: "closure_currentSessionId r = currentSessionId s" .
  from Some obtain rs where rs: "map_get (quantumRendererRef s) sid' = Some rs" "map_get rs bi = Some r"
    by (auto simp: session_map_def split: option.splits)
  have "session_messages (destroy_renderer sid' bi s) sid = session_messages (renderer_flush sid' bi r s) sid"
    by (simp add: destroy_renderer_def rs)
  also have "\<dots> = (if buffer r \<noteq> [] then session_messages (onRender sid' bi (currentSessionId s) (buffer r) s) sid
                   else session_messages s sid)"
    by (simp add: renderer_flush_def c)
  finally show ?thesis
    using onRender_changes [where cur = "currentSessionId s" and s = s and sid' = sid' and sid = sid
                              and idx = bi and chunk = "buffer r", OF refl]
    by (simp add: cur_mid_def)
qed

lemma session_messages_stopFlushTimer [simp]:
  "session_messages (stopFlushTimer sid' s) sid = session_messages s sid"
  by (simp add: stopFlushTimer_def split: option.splits)

lemma currentSessionId_stopFlushTimer [simp]:
  "currentSessionId (stopFlushTimer sid' s) = currentSessionId s"
  by (simp add: stopFlushTimer_def split: option.splits)

lemma stopFlushTimer_fresh:
  assumes "closures_fresh s"
  shows "closures_fresh (stopFlushTimer sid s)"
proof -
  from assms have "list_all (\<lambda>e. snd e = None \<or> snd e = Some (currentSessionId s)) (toolJsonFlushTimerRef s)"
    by (simp add: closures_fresh_def)
  from list_all_map_set [where P = "\<lambda>t. t = None \<or> t = Some (currentSessionId s)", OF this]
  have "list_all (\<lambda>e. snd e = None \<or> snd e = Some (currentSessionId s))
          (map_set (toolJsonFlushTimerRef s) sid None)" by simp
  with assms show ?thesis
    by (simp add: stopFlushTimer_def closures_fresh_def split: option.splits)
qed

lemma take_accumulated_case:
  "case take_accumulated sid' bi s of
     (f, s4) \<Rightarrow>
       f = map_get (session_map (toolJsonAccumulatorRef s) sid') bi
       \<and> currentSessionId s4 = currentSessionId s
       \<and> currentMessageIdPerSessionRef s4 = currentMessageIdPerSessionRef s
       \<and> quantumRendererRef s4 = quantumRendererRef s
       \<and> session_messages s4 sid = session_messages s sid
       \<and> (closures_fresh s \<longrightarrow> closures_fresh s4)
       \<and> accumulated_json s4 sid i =
           (if key_eq sid' sid \<and> bi = block_key i then None else accumulated_json s sid i)"
proof -
  let ?s2 = "s\<lparr>toolJsonAccumulatorRef := getSessionMap (toolJsonAccumulatorRef s) sid'\<rparr>"
  let ?acc = "map_delete (session_map (toolJsonAccumulatorRef s) sid') bi"
  let ?s3 = "?s2\<lparr>toolJsonAccumulatorRef := map_set (toolJsonAccumulatorRef ?s2) sid' ?acc\<rparr>"
  have e: "take_accumulated sid' bi s =
             (map_get (session_map (toolJsonAccumulatorRef s) sid') bi,
              if ?acc = [] then stopFlushTimer sid' ?s3 else ?s3)"
    by (simp add: take_accumulated_def Let_def)
  have f3: "closures_fresh s \<Longrightarrow> closures_fresh ?s3" by (simp add: closures_fresh_def)
  have a3: "accumulated_json ?s3 sid i =
              (if key_eq sid' sid \<and> bi = block_key i then None else accumulated_json s sid i)"
    by (auto simp: accumulated_json_def session_map_set map_get_map_delete dest: key_eq_eq)
  have a4: "accumulated_json (stopFlushTimer sid' ?s3) sid i = accumulated_json ?s3 sid i"
    by (rule accumulated_json_cong) simp
  show ?thesis
  proof (cases "?acc = []")
    case True
    then have e': "take_accumulated sid' bi s =
                    (map_get (session_map (toolJsonAccumulatorRef s) sid') bi, stopFlushTimer sid' ?s3)"
      by (simp add: e)
    have "closures_fresh s \<longrightarrow> closures_fresh (stopFlushTimer sid' ?s3)"
      using f3 by (auto intro: stopFlushTimer_fresh)
    then show ?thesis
      unfolding e' using a3 a4 by simp
  next
    case False
    then have e': "take_accumulated sid' bi s =
                    (map_get (session_map (toolJsonAccumulatorRef s) sid') bi, ?s3)"
      by (simp add: e)
    show ?thesis
      unfolding e' using a3 f3 by simp
  qed
qed

lemma take_tool_name_case:
  "case take_tool_name parse sid' bi final s of
     (p, s7) \<Rightarrow>
       currentSessionId s7 = currentSessionId s
       \<and> currentMessageIdPerSessionRef s7 = currentMessageIdPerSessionRef s
       \<and> quantumRendererRef s7 = quantumRendererRef s
       \<and> toolJsonAccumulatorRef s7 = toolJsonAccumulatorRef s
       \<and> toolJsonFlushTimerRef s7 = toolJsonFlushTimerRef s
       \<and> session_messages s7 sid = session_messages s sid"
  by (simp add: take_tool_name_def Let_def)

lemma isComplete_complete_block [simp]: "isComplete (complete_block parse final p b)"
  by (simp add: complete_block_def Let_def)

text \<open>The state a \<open>content_block_stop\<close> leaves, step by step.\<close>

lemma on_content_block_stop_steps:
  assumes "on_content_block_stop parse data sid' s = Inr s'" "current_msgId s sid' = Some msgId"
  obtains f s4 p s7 where
    "take_accumulated sid' (event_blockIndex s sid' data) (destroy_renderer sid' (event_blockIndex s sid' data) s)
       = (f, s4)"
    "take_tool_name parse sid' (event_blockIndex s sid' data) (case f of None \<Rightarrow> [] | Some x \<Rightarrow> x) s4 = (p, s7)"
    "s' = updateSessionMessages sid'
            (in_message msgId
               (update_block (event_blockIndex s sid' data)
                  (complete_block parse (case f of None \<Rightarrow> [] | Some x \<Rightarrow> x) p)))
            s7"
  using assms
  by (auto simp: on_content_block_stop_def Let_def split: if_splits prod.splits)

lemma on_content_block_stop_case:
  "case on_content_block_stop parse data sid' s of
     Inl e \<Rightarrow> True
   | Inr s' \<Rightarrow>
       currentSessionId s' = currentSessionId s
       \<and> currentMessageIdPerSessionRef s' = currentMessageIdPerSessionRef s
       \<and> (closures_fresh s \<longrightarrow> closures_fresh s')
       \<and> (pending s' sid i \<longrightarrow> pending s sid i)
       \<and> (closures_fresh s \<longrightarrow>
            changes_blocks (\<lambda>i b b'. sid' = sid \<and> event_blockIndex s sid data = block_key i)
              (cur_mid s sid) (session_messages s sid) (session_messages s' sid))"
proof (cases "on_content_block_stop parse data sid' s")
  case (Inl e)
  then show ?thesis by simp
next
  case (Inr s')
  show ?thesis
  proof (cases "current_msgId s sid'")
    case None
    with Inr have "s' = s" by (simp add: on_content_block_stop_def)
    then show ?thesis by (simp add: Inr)
  next
    case (Some msgId)
    let ?bi = "event_blockIndex s sid' data"
    let ?s1 = "destroy_renderer sid' ?bi s"
    from on_content_block_stop_steps [OF Inr Some]
    obtain f s4 p s7 where
      t: "take_accumulated sid' ?bi ?s1 = (f, s4)"
      and n: "take_tool_name parse sid' ?bi (case f of None \<Rightarrow> [] | Some x \<Rightarrow> x) s4 = (p, s7)"
      and e: "s' = updateSessionMessages sid'
                (in_message msgId (update_block ?bi (complete_block parse (case f of None \<Rightarrow> [] | Some x \<Rightarrow> x) p)))
                s7"
      by blast
    note t4 = take_accumulated_case [where sid' = sid' and bi = ?bi and s = ?s1 and sid = sid and i = i,
                                     unfolded t, simplified]
    note t7 = take_tool_name_case [where parse = parse and sid' = sid' and bi = ?bi
                                     and final = "case f of None \<Rightarrow> [] | Some x \<Rightarrow> x" and s = s4 and sid = sid,
                                   unfolded n, simplified]
    have c: "currentSessionId s' = currentSessionId s"
      "currentMessageIdPerSessionRef s' = currentMessageIdPerSessionRef s"
      using t4 t7 by (simp_all add: e)
    have fr: "closures_fresh s \<Longrightarrow> closures_fresh s'"
    proof -
      assume "closures_fresh s"
      then have "closures_fresh ?s1" by (rule destroy_renderer_fresh)
      with t4 have "closures_fresh s4" by simp
      moreover have "closures_fresh s' = closures_fresh s4"
        by (rule closures_fresh_cong) (use t7 in \<open>simp_all add: e\<close>)
      ultimately show ?thesis by simp
    qed
    have h: "has_renderer s' sid i = has_renderer ?s1 sid i"
      using t4 t7 by (simp add: has_renderer_def e)
    have a: "accumulated_json s' sid i = accumulated_json s4 sid i"
      using t7 by (simp add: accumulated_json_def e)
    have a1: "accumulated_json ?s1 sid i = accumulated_json s sid i"
      by (simp add: accumulated_json_def)
    have pe: "pending s' sid i \<longrightarrow> pending s sid i"
      using h a a1 t4 by (auto simp: pending_def destroy_renderer_has split: if_splits)
    have ch: "changes_blocks (\<lambda>i b b'. sid' = sid \<and> event_blockIndex s sid data = block_key i)
                (cur_mid s sid) (session_messages s sid) (session_messages s' sid)"
      if fs: "closures_fresh s"
    proof -
      have m7: "session_messages s7 sid = session_messages ?s1 sid"
        using t4 t7 by simp
      have c1: "changes_blocks (\<lambda>i b b'. sid' = sid \<and> ?bi = block_key i \<and> appended b b') (cur_mid s sid)
                  (session_messages s sid) (session_messages ?s1 sid)"
        using destroy_renderer_changes [OF fs] .
      show ?thesis
      proof (cases "key_eq sid' sid")
        case False
        then have "session_messages s' sid = session_messages ?s1 sid"
          by (simp add: e session_messages_updateSession m7)
        with c1 show ?thesis
          by (auto elim!: changes_blocks_mono)
      next
        case True
        then have sid: "sid' = sid" by (rule key_eq_eq)
        have cm: "cur_mid s sid = Some (JStr msgId)" using Some by (simp add: cur_mid_def sid)
        have c2: "changes_blocks (\<lambda>i b b'. sid' = sid \<and> ?bi = block_key i) (cur_mid s sid)
                    (session_messages ?s1 sid) (session_messages s' sid)"
          using True
          by (simp add: e session_messages_updateSession m7 cm)
             (rule changes_blocks_in_message, simp, simp add: nth_update_block sid)
        from changes_blocks_trans [OF c1 c2, where R'' = "\<lambda>i b b'. sid' = sid \<and> ?bi = block_key i"]
        show ?thesis by (auto simp: sid)
      qed
    qed
    from c fr pe ch show ?thesis by (simp add: Inr)
  qed
qed

text \<open>After \<open>content_block_stop\<close> for block \<open>i\<close> of the message in flight the block is
  complete and nothing is pending for it.\<close>

lemma on_content_block_stop_settles:
  assumes fs: "closures_fresh s"
    and k: "key_eq sid sid"
    and fl: "in_flight s sid m"
    and bi: "event_blockIndex s sid data = block_key i"
    and i: "i < length (msg_content (session_messages s sid ! m))"
  shows "case on_content_block_stop parse data sid s of
           Inl e \<Rightarrow> False
         | Inr s' \<Rightarrow> settled s' sid m i"
proof -
  from fl obtain msgId where cur: "current_msgId s sid = Some msgId"
    and m: "m < length (session_messages s sid)" and mid: "msg_id (session_messages s sid ! m) = JStr msgId"
    by (auto simp: in_flight_def split: option.splits)
  have mi: "modelled_index (block_key i)"
    by (simp add: modelled_index_def block_key_def is_object_def)
  have "\<exists>s'. on_content_block_stop parse data sid s = Inr s'"
    using cur mi by (simp add: on_content_block_stop_def Let_def bi split: prod.splits)
  then obtain s' where r: "on_content_block_stop parse data sid s = Inr s'" by blast
  let ?s1 = "destroy_renderer sid (block_key i) s"
  from on_content_block_stop_steps [OF r cur]
  obtain f s4 p s7 where
    t: "take_accumulated sid (block_key i) ?s1 = (f, s4)"
    and n: "take_tool_name parse sid (block_key i) (case f of None \<Rightarrow> [] | Some x \<Rightarrow> x) s4 = (p, s7)"
    and e: "s' = updateSessionMessages sid
              (in_message msgId
                 (update_block (block_key i) (complete_block parse (case f of None \<Rightarrow> [] | Some x \<Rightarrow> x) p)))
              s7"
    unfolding bi by blast
  note t4 = take_accumulated_case [where sid' = sid and bi = "block_key i" and s = ?s1 and sid = sid and i = i,
                                   unfolded t, simplified]
  note t7 = take_tool_name_case [where parse = parse and sid' = sid and bi = "block_key i"
                                   and final = "case f of None \<Rightarrow> [] | Some x \<Rightarrow> x" and s = s4 and sid = sid,
                                 unfolded n, simplified]
  have m7: "session_messages s7 sid = session_messages ?s1 sid"
    using t4 t7 by simp
  from destroy_renderer_changes [OF fs, of sid sid "block_key i"] m i
  have m1: "m < length (session_messages ?s1 sid)"
    and id1: "msg_id (session_messages ?s1 sid ! m) = JStr msgId"
    and i1: "i < length (msg_content (session_messages ?s1 sid ! m))"
    by (auto simp: changes_blocks_def mid)
  have b: "block_at s' sid m i =
             Some (complete_block parse (case f of None \<Rightarrow> [] | Some x \<Rightarrow> x) p
                     (msg_content (session_messages ?s1 sid ! m) ! i))"
    using m1 id1 i1 k
    by (simp add: block_at_def block_of_def e session_messages_updateSession m7 in_message_def
                  nth_update_block)
  have h: "\<not> has_renderer s' sid i"
    using t4 t7 k by (simp add: has_renderer_def e) (simp add: destroy_renderer_has [unfolded has_renderer_def])
  have a: "accumulated_json s' sid i = None"
    using t4 t7 k by (simp add: accumulated_json_def e)
  show ?thesis
    by (simp add: r settled_def b pending_def h a)
qed

subsection \<open>result\<close>

lemma on_result_eq:
  "on_result data sid s =
    (let s3 = stopFlushTimer sid (cleanupQuantumRenderers sid (result_reset s sid));
         s4 = s3\<lparr>toolJsonAccumulatorRef := clear_session_map (toolJsonAccumulatorRef s3) sid,
                 lastFlushedLengthRef := clear_session_map (lastFlushedLengthRef s3) sid,
                 toolNameByBlockRef := clear_session_map (toolNameByBlockRef s3) sid\<rparr>
     in if truthy (field data ''usage'')
        then updateSessionInfo sid
               (\<lambda>prev. prev\<lparr>contextUsed := js_or (field (field data ''usage'') ''input_tokens'') (contextUsed prev),
                             outputTokens := js_or (field (field data ''usage'') ''output_tokens'') (JNum 0),
                             totalCost := js_or (field data ''total_cost_usd'') (totalCost prev)\<rparr>) s4
        else s4)"
  by (simp add: on_result_def result_reset_def Let_def)

lemma result_reset_fields [simp]:
  "currentSessionId (result_reset s sid) = currentSessionId s"
  "quantumRendererRef (result_reset s sid) = quantumRendererRef s"
  "toolJsonAccumulatorRef (result_reset s sid) = toolJsonAccumulatorRef s"
  "toolJsonFlushTimerRef (result_reset s sid) = toolJsonFlushTimerRef s"
  "currentMessageIdPerSessionRef (result_reset s sid) = map_set (currentMessageIdPerSessionRef s) sid None"
  "session_messages (result_reset s sid) sid0 = session_messages s sid0"
  by (simp_all add: result_reset_def Let_def session_messages_def)

lemma result_reset_current:
  "current_msgId (result_reset s sid') sid = (if key_eq sid' sid then None else current_msgId s sid)"
  by (simp add: current_msgId_def map_get_map_set)

lemma cleanup_after_reset:
  "cleanupQuantumRenderers sid (result_reset s sid) =
     (case map_get (quantumRendererRef s) sid of
        None \<Rightarrow> result_reset s sid
      | Some rs \<Rightarrow> (result_reset s sid)\<lparr>quantumRendererRef := map_set (quantumRendererRef s) sid []\<rparr>)"
proof -
  have "current_msgId (result_reset s sid) sid = None"
  proof (cases "key_eq sid sid")
    case True
    then show ?thesis by (simp add: result_reset_current)
  next
    case False
    then show ?thesis by (simp add: current_msgId_def map_get_object)
  qed
  from cleanup_no_msg [OF this] show ?thesis by (simp split: option.splits)
qed

lemma on_result_facts:
  shows "currentSessionId (on_result data sid' s) = currentSessionId s"
    and "session_messages (on_result data sid' s) sid = session_messages s sid"
    and "current_msgId (on_result data sid' s) sid = (if key_eq sid' sid then None else current_msgId s sid)"
    and "closures_fresh s \<Longrightarrow> closures_fresh (on_result data sid' s)"
    and "pending (on_result data sid' s) sid i \<Longrightarrow> pending s sid i"
proof -
  let ?r = "result_reset s sid'"
  let ?c = "cleanupQuantumRenderers sid' ?r"
  let ?s3 = "stopFlushTimer sid' ?c"
  let ?s4 = "?s3\<lparr>toolJsonAccumulatorRef := clear_session_map (toolJsonAccumulatorRef ?s3) sid',
                 lastFlushedLengthRef := clear_session_map (lastFlushedLengthRef ?s3) sid',
                 toolNameByBlockRef := clear_session_map (toolNameByBlockRef ?s3) sid'\<rparr>"
  have c1: "currentSessionId ?c = currentSessionId s"
    "session_messages ?c sid = session_messages s sid"
    "currentMessageIdPerSessionRef ?c = map_set (currentMessageIdPerSessionRef s) sid' None"
    "toolJsonAccumulatorRef ?c = toolJsonAccumulatorRef s"
    "toolJsonFlushTimerRef ?c = toolJsonFlushTimerRef s"
    by (simp_all add: cleanup_after_reset split: option.splits)
  have q: "session_map (quantumRendererRef ?c) sid = (if key_eq sid' sid then [] else session_map (quantumRendererRef s) sid)"
  proof (cases "map_get (quantumRendererRef s) sid'")
    case None
    then have "key_eq sid' sid \<Longrightarrow> session_map (quantumRendererRef s) sid = []"
      by (auto simp: session_map_def dest: key_eq_eq)
    with None show ?thesis by (simp add: cleanup_after_reset)
  next
    case (Some rs)
    then show ?thesis by (simp add: cleanup_after_reset session_map_set)
  qed
  have fc: "closures_fresh s \<Longrightarrow> closures_fresh ?c"
  proof -
    assume f: "closures_fresh s"
    let ?P = "\<lambda>r. closure_currentSessionId r = currentSessionId s"
    from f have a: "list_all (\<lambda>e. list_all (\<lambda>r. ?P (snd r)) (snd e)) (quantumRendererRef s)"
      by (simp add: closures_fresh_def)
    from list_all_map_set [where P = "list_all (\<lambda>r. ?P (snd r))" and v = "[]", OF a]
    have "list_all (\<lambda>e. list_all (\<lambda>r. ?P (snd r)) (snd e)) (map_set (quantumRendererRef s) sid' [])"
      by simp
    with f show ?thesis
      by (simp add: cleanup_after_reset closures_fresh_def split: option.splits)
  qed
  have e: "on_result data sid' s = ?s4 \<or> (\<exists>F. on_result data sid' s = updateSessionInfo sid' F ?s4)"
  proof (cases "truthy (field data ''usage'')")
    case True
    have "on_result data sid' s =
            updateSessionInfo sid'
              (\<lambda>prev. prev\<lparr>contextUsed := js_or (field (field data ''usage'') ''input_tokens'') (contextUsed prev),
                            outputTokens := js_or (field (field data ''usage'') ''output_tokens'') (JNum 0),
                            totalCost := js_or (field data ''total_cost_usd'') (totalCost prev)\<rparr>) ?s4"
      unfolding on_result_eq Let_def using True by (simp only: if_True)
    then show ?thesis by blast
  next
    case False
    have "on_result data sid' s = ?s4"
      unfolding on_result_eq Let_def using False by (simp only: if_False)
    then show ?thesis by blast
  qed
  have s4: "currentSessionId ?s4 = currentSessionId s"
    "session_messages ?s4 sid = session_messages s sid"
    "currentMessageIdPerSessionRef ?s4 = map_set (currentMessageIdPerSessionRef s) sid' None"
    "quantumRendererRef ?s4 = quantumRendererRef ?c"
    "toolJsonAccumulatorRef ?s4 = clear_session_map (toolJsonAccumulatorRef s) sid'"
    "toolJsonFlushTimerRef ?s4 = toolJsonFlushTimerRef ?s3"
    using c1 by simp_all
  have f4: "closures_fresh s \<Longrightarrow> closures_fresh ?s4"
  proof -
    assume "closures_fresh s"
    then have "closures_fresh ?s3" by (intro stopFlushTimer_fresh fc)
    moreover have "closures_fresh ?s4 = closures_fresh ?s3"
      by (rule closures_fresh_cong) simp_all
    ultimately show ?thesis by simp
  qed
  have p4: "pending ?s4 sid i \<Longrightarrow> pending s sid i"
    unfolding pending_def has_renderer_def accumulated_json_def map_has_def s4 q
    by (auto simp: session_map_clear split: if_splits)
  from e show "currentSessionId (on_result data sid' s) = currentSessionId s"
    using s4 by auto
  from e show "session_messages (on_result data sid' s) sid = session_messages s sid"
    using s4 by auto
  from e show "current_msgId (on_result data sid' s) sid = (if key_eq sid' sid then None else current_msgId s sid)"
    using s4(3) by (auto simp: current_msgId_def map_get_map_set)
  from e show "closures_fresh s \<Longrightarrow> closures_fresh (on_result data sid' s)"
  proof
    assume "on_result data sid' s = ?s4" "closures_fresh s"
    then show ?thesis using f4 by simp
  next
    assume "\<exists>F. on_result data sid' s = updateSessionInfo sid' F ?s4" and f: "closures_fresh s"
    then obtain F where x: "on_result data sid' s = updateSessionInfo sid' F ?s4" by blast
    have "closures_fresh (updateSessionInfo sid' F ?s4) = closures_fresh ?s4"
      by (rule closures_fresh_cong) simp_all
    with f4 [OF f] show ?thesis by (simp add: x)
  qed
  from e show "pending (on_result data sid' s) sid i \<Longrightarrow> pending s sid i"
  proof
    assume "on_result data sid' s = ?s4" "pending (on_result data sid' s) sid i"
    then show ?thesis using p4 by simp
  next
    assume "\<exists>F. on_result data sid' s = updateSessionInfo sid' F ?s4" and p: "pending (on_result data sid' s) sid i"
    then obtain F where x: "on_result data sid' s = updateSessionInfo sid' F ?s4" by blast
    have "pending (updateSessionInfo sid' F ?s4) sid i = pending ?s4 sid i"
      by (simp add: pending_def has_renderer_def accumulated_json_def)
    with p p4 show ?thesis by (simp add: x)
  qed
qed

lemma touches_simps:
  "touches s (Frame sid' idx n) sid =
     (\<lambda>i b b'. sid' = sid \<and> idx = block_key i \<and> has_renderer s sid i \<and> appended b b')"
  "touches s (FlushTimer sid') sid = (\<lambda>i b b'. sid' = sid \<and> replaced s sid i b b')"
  "touches s (Stream event) sid =
     (\<lambda>i b b'. payload_event event \<and> field event ''sessionId'' = sid
          \<and> field (event_data event) ''type'' = JStr ''content_block_stop''
          \<and> event_blockIndex s sid (event_data event) = block_key i)"
  by (rule ext, rule ext, rule ext, simp add: touches_def)+

lemma step_effect_quiet:
  assumes "closures_fresh s" "refs_same s s'"
    and "changes_blocks (\<lambda>i b b'. False) None (session_messages s sid) (session_messages s' sid)"
  shows "step_effect s a s' sid i"
  using assms refs_same_facts [OF assms(2)]
  by (auto simp: step_effect_def intro: changes_blocks_keep)

lemma step_effect_same:
  assumes "closures_fresh s" "refs_same s s'" "session_messages s' sid = session_messages s sid"
  shows "step_effect s a s' sid i"
  by (rule step_effect_quiet [OF assms(1,2)]) (simp add: assms(3))

lemma handleStreamEvent_cases:
  assumes "handleStreamEvent parse stringify stringify2 event s = Inr s'"
  obtains
    (status) "s' = on_status event s"
  | (error) "s' = on_error event s"
  | (ignored) "s' = s"
  | (system) "payload_event event" "s' = on_system (event_data event) (field event ''sessionId'') s"
  | (message_start) "payload_event event" "field (event_data event) ''type'' = JStr ''message_start''"
      "s' = on_message_start (event_data event) (field event ''sessionId'') s"
  | (block_start) "payload_event event"
      "on_content_block_start (event_data event) (field event ''sessionId'') s = Inr s'"
  | (block_delta) "payload_event event" "field (event_data event) ''type'' = JStr ''content_block_delta''"
      "on_content_block_delta (event_data event) (field event ''sessionId'') s = Inr s'"
  | (block_stop) "payload_event event" "field (event_data event) ''type'' = JStr ''content_block_stop''"
      "on_content_block_stop parse (event_data event) (field event ''sessionId'') s = Inr s'"
  | (message_delta) "s' = on_message_delta (event_data event) (field event ''sessionId'') s"
  | (message_stop) "s' = on_message_stop (event_data event) (field event ''sessionId'') s"
  | (assistant) "on_assistant stringify stringify2 (event_data event) (field event ''sessionId'') s = Inr s'"
  | (result) "s' = on_result (event_data event) (field event ''sessionId'') s"
proof -
  let ?sid = "field event ''sessionId''"
  let ?data = "event_data event"
  let ?ty = "field ?data ''type''"
  from assms have
    "s' = on_status event s \<or> s' = on_error event s \<or> s' = s
     \<or> payload_event event
        \<and> (s' = on_system ?data ?sid s
           \<or> ?ty = JStr ''message_start'' \<and> s' = on_message_start ?data ?sid s
           \<or> on_content_block_start ?data ?sid s = Inr s'
           \<or> ?ty = JStr ''content_block_delta'' \<and> on_content_block_delta ?data ?sid s = Inr s'
           \<or> ?ty = JStr ''content_block_stop'' \<and> on_content_block_stop parse ?data ?sid s = Inr s'
           \<or> s' = on_message_delta ?data ?sid s
           \<or> s' = on_message_stop ?data ?sid s
           \<or> on_assistant stringify stringify2 ?data ?sid s = Inr s'
           \<or> s' = on_result ?data ?sid s)"
    by (simp add: handleStreamEvent_def Let_def payload_event_def split: if_splits)
  then show ?thesis
    using status error ignored system message_start block_start block_delta block_stop
      message_delta message_stop assistant result
    by blast
qed

lemma step_effect_holds:
  assumes f: "closures_fresh s" and st: "step parse stringify stringify2 a s = Inr s'"
  shows "step_effect s a s' sid i"
proof (cases a)
  case (Frame sid' idx n)
  with st have s': "s' = render_frame sid' idx n s" by (simp add: step_def)
  have "pending s' sid i = pending s sid i"
    using render_frame_renderers [where sid' = sid' and idx = idx and n = n and s = s and sid = sid and k = "block_key i"]
    by (simp add: pending_def has_renderer_def accumulated_json_def s')
  moreover have "current_msgId s' sid = current_msgId s sid"
    by (rule current_msgId_cong) (simp add: s')
  ultimately show ?thesis
    using render_frame_fresh [OF f, where sid = sid' and idx = idx and n = n]
      render_frame_changes [OF f, where sid' = sid' and sid = sid and idx = idx and n = n]
    by (simp add: step_effect_def s' touches_simps Frame)
next
  case (FlushTimer sid')
  show ?thesis
  proof (cases "map_get (toolJsonFlushTimerRef s) sid'")
    case None
    with st FlushTimer have "s' = s" by (simp add: step_def)
    with f show ?thesis by (simp add: step_effect_def)
  next
    case (Some t)
    show ?thesis
    proof (cases t)
      case None
      with st FlushTimer Some have "s' = s" by (simp add: step_def)
      with f show ?thesis by (simp add: step_effect_def)
    next
      case (Some cur)
      with \<open>map_get (toolJsonFlushTimerRef s) sid' = Some t\<close>
      have t: "map_get (toolJsonFlushTimerRef s) sid' = Some (Some cur)" by simp
      from fresh_timer [OF f t] have cur: "cur = currentSessionId s" .
      from st FlushTimer t have s': "s' = flushToolJson sid' None cur s" by (simp add: step_def)
      have "closures_fresh s' = closures_fresh s"
        by (rule closures_fresh_cong) (simp_all add: s')
      moreover have "pending s' sid i = pending s sid i"
        by (simp add: pending_def has_renderer_def accumulated_json_def s')
      moreover have "current_msgId s' sid = current_msgId s sid"
        by (rule current_msgId_cong) (simp add: s')
      ultimately show ?thesis
        using f flushToolJson_changes [OF cur, where sid' = sid' and sid = sid and bi = None]
        by (simp add: step_effect_def s' touches_simps FlushTimer)
    qed
  qed
next
  case (Stream event)
  let ?sid' = "field event ''sessionId''"
  let ?data = "event_data event"
  from st Stream have h: "handleStreamEvent parse stringify stringify2 event s = Inr s'"
    by (simp add: step_def)
  from h show ?thesis
  proof (cases rule: handleStreamEvent_cases)
    case status
    show ?thesis
      unfolding status by (rule step_effect_same [OF f on_status_quiet(1) on_status_quiet(2)])
  next
    case error
    show ?thesis
      unfolding error by (rule step_effect_same [OF f on_error_quiet(1) on_error_quiet(2)])
  next
    case ignored
    show ?thesis
      unfolding ignored by (rule step_effect_same [OF f refs_same_refl refl])
  next
    case system
    show ?thesis
      unfolding system(2) by (rule step_effect_same [OF f on_system_quiet(1) on_system_quiet(2)])
  next
    case message_delta
    show ?thesis
      unfolding message_delta
      by (rule step_effect_same [OF f on_message_delta_quiet(1) on_message_delta_quiet(2)])
  next
    case message_stop
    show ?thesis
      unfolding message_stop
      by (rule step_effect_quiet [OF f on_message_stop_effect(1) on_message_stop_effect(2)])
  next
    case block_start
    from on_content_block_start_case [where data = ?data and sid' = ?sid' and s = s and mid = None and sid = sid]
      block_start(2)
    show ?thesis using f by (auto intro!: step_effect_quiet)
  next
    case assistant
    from on_assistant_case [where stringify = stringify and ?stringify2.0 = stringify2 and data = ?data
                              and sid' = ?sid' and s = s and mid = None and sid = sid]
      assistant
    show ?thesis using f by (auto intro!: step_effect_quiet)
  next
    case message_start
    have fr: "closures_fresh s'"
      using f by (simp add: closures_fresh_def message_start(3))
    have pe: "pending s' sid i = pending s sid i"
      by (simp add: pending_def has_renderer_def accumulated_json_def message_start(3))
    have cu: "current_msgId s' sid = current_msgId s sid \<or> current_msgId s' sid = None
              \<or> starts_message a sid \<and> current_msgId s' sid = Some (ids s (idCount s))"
      using message_start(1,2)
      by (auto simp: message_start(3) on_message_start_current starts_message_def Stream dest: key_eq_eq)
    from on_message_start_messages [where mid = None and s = s and sid = sid and data = ?data and sid' = ?sid']
    have "changes_blocks (touches s a sid) (cur_mid s sid) (session_messages s sid) (session_messages s' sid)"
      by (auto simp: message_start(3) intro: changes_blocks_keep)
    with fr pe cu show ?thesis by (simp add: step_effect_def)
  next
    case block_delta
    from on_content_block_delta_case [where data = ?data and sid' = ?sid' and s = s and sid = sid and i = i]
         block_delta(3)
    have d: "currentSessionId s' = currentSessionId s"
        "currentMessageIdPerSessionRef s' = currentMessageIdPerSessionRef s"
        "session_messages s' sid = session_messages s sid"
        "closures_fresh s'"
        "pending s' sid i \<longrightarrow>
            pending s sid i
            \<or> ?sid' = sid \<and> current_msgId s sid \<noteq> None \<and> event_blockIndex s sid ?data = block_key i"
      using f by simp_all
    from d(2) have "current_msgId s' sid = current_msgId s sid" by (rule current_msgId_cong)
    with d block_delta(1,2) show ?thesis
      by (auto simp: step_effect_def delta_at_def Stream)
  next
    case block_stop
    from on_content_block_stop_case [where parse = parse and data = ?data and sid' = ?sid' and s = s
                                       and sid = sid and i = i]
         block_stop(3)
    have d: "currentMessageIdPerSessionRef s' = currentMessageIdPerSessionRef s"
        "closures_fresh s'"
        "pending s' sid i \<longrightarrow> pending s sid i"
        "changes_blocks (\<lambda>i b b'. ?sid' = sid \<and> event_blockIndex s sid ?data = block_key i)
              (cur_mid s sid) (session_messages s sid) (session_messages s' sid)"
      using f by simp_all
    from d(1) have "current_msgId s' sid = current_msgId s sid" by (rule current_msgId_cong)
    moreover from d(4) have "changes_blocks (touches s a sid) (cur_mid s sid)
                               (session_messages s sid) (session_messages s' sid)"
      by (rule changes_blocks_mono) (use block_stop(1,2) in \<open>simp add: touches_simps Stream\<close>)
    ultimately show ?thesis using d(2,3) by (simp add: step_effect_def)
  next
    case result
    note r = on_result_facts
    have "changes_blocks (touches s a sid) (cur_mid s sid) (session_messages s sid) (session_messages s' sid)"
      by (simp add: result r(2))
    moreover have "current_msgId s' sid = current_msgId s sid \<or> current_msgId s' sid = None"
      by (simp add: result r(3))
    ultimately show ?thesis
      using r(4) [OF f, where data = ?data and sid' = ?sid']
        r(5) [where data = ?data and sid' = ?sid' and s = s and sid = sid and i = i]
      by (auto simp: step_effect_def result)
  qed
qed

lemma in_flight_iff:
  "m < length (session_messages s sid) \<Longrightarrow>
   in_flight s sid m \<longleftrightarrow> cur_mid s sid = Some (msg_id (session_messages s sid ! m))"
  by (auto simp: in_flight_def cur_mid_def split: option.splits)

lemma step_block:
  assumes f: "closures_fresh s" and st: "step parse stringify stringify2 a s = Inr s'"
    and b: "block_at s sid m i = Some b"
  shows "case block_at s' sid m i of
           None \<Rightarrow> False
         | Some b' \<Rightarrow> b' = b \<or> in_flight s sid m \<and> touches s a sid i b b'"
proof -
  from step_effect_holds [OF f st, of sid i]
  have c: "changes_blocks (touches s a sid) (cur_mid s sid) (session_messages s sid) (session_messages s' sid)"
    by (simp add: step_effect_def)
  from b have m: "m < length (session_messages s sid)"
    and i: "i < length (msg_content (session_messages s sid ! m))"
    and bb: "b = msg_content (session_messages s sid ! m) ! i"
    by (auto simp: block_at_def block_of_def split: if_splits)
  from c m i have m': "m < length (session_messages s' sid)"
    and i': "i < length (msg_content (session_messages s' sid ! m))"
    and r: "msg_content (session_messages s' sid ! m) ! i = b
            \<or> cur_mid s sid = Some (msg_id (session_messages s sid ! m))
              \<and> touches s a sid i b (msg_content (session_messages s' sid ! m) ! i)"
    unfolding changes_blocks_def bb by (fastforce, fastforce, blast)
  from m' i' r show ?thesis
    by (auto simp: block_at_def block_of_def in_flight_iff [OF m])
qed

lemma settled_step:
  assumes f: "closures_fresh s" and st: "step parse stringify stringify2 a s = Inr s'"
    and se: "settled s sid m i" and nr: "\<not> reopens s sid m i a"
  shows "closures_fresh s'" and "settled s' sid m i" and "block_at s' sid m i = block_at s sid m i"
proof -
  note e = step_effect_holds [OF f st, of sid i, unfolded step_effect_def]
  from e show "closures_fresh s'" by simp
  from se obtain b where b: "block_at s sid m i = Some b" and cb: "isComplete b"
    and np: "in_flight s sid m \<Longrightarrow> \<not> pending s sid i"
    by (auto simp: settled_def split: option.splits)
  from b have m: "m < length (session_messages s sid)"
    by (auto simp: block_at_def block_of_def split: if_splits)
  have nt: "\<not> (in_flight s sid m \<and> touches s a sid i b b')" for b'
  proof
    assume t: "in_flight s sid m \<and> touches s a sid i b b'"
    with np have p: "\<not> has_renderer s sid i" "accumulated_json s sid i = None"
      by (auto simp: pending_def)
    show False
    proof (cases a)
      case (Stream event)
      with t nr show False by (auto simp: touches_def reopens_def)
    next
      case (FlushTimer sid')
      with t p show False by (auto simp: touches_def replaced_def)
    next
      case (Frame sid' idx n)
      with t p show False by (auto simp: touches_def)
    qed
  qed
  from step_block [OF f st b] nt
  show b': "block_at s' sid m i = block_at s sid m i"
    by (auto simp: b split: option.splits)
  from e m have id: "msg_id (session_messages s' sid ! m) = msg_id (session_messages s sid ! m)"
    and m': "m < length (session_messages s' sid)"
    by (auto simp: changes_blocks_def)
  have "\<not> pending s' sid i" if fl: "in_flight s' sid m"
  proof
    assume p': "pending s' sid i"
    from e consider
        (same) "current_msgId s' sid = current_msgId s sid"
      | (none) "current_msgId s' sid = None"
      | (new) "starts_message a sid" "current_msgId s' sid = Some (ids s (idCount s))"
      by auto
    then show False
    proof cases
      case same
      with fl id m have fl0: "in_flight s sid m"
        by (auto simp: in_flight_def split: option.splits)
      with np have "\<not> pending s sid i" by simp
      with e p' have "delta_at s a sid i" by blast
      with nr fl0 show False
        by (auto simp: delta_at_def reopens_def split: action.splits)
    next
      case none
      with fl show False by (simp add: in_flight_def)
    next
      case new
      with fl id have "msg_id (session_messages s sid ! m) = JStr (ids s (idCount s))"
        by (simp add: in_flight_def)
      with new(1) nr m show False
        by (auto simp: starts_message_def reopens_def split: action.splits)
    qed
  qed
  with b' b cb show "settled s' sid m i"
    by (auto simp: settled_def)
qed

lemma settled_run:
  assumes "closures_fresh s" "settled s sid m i"
    and "undisturbed parse stringify stringify2 sid m i as s"
    and "run parse stringify stringify2 as s = Inr s'"
  shows "block_at s' sid m i = block_at s sid m i \<and> settled s' sid m i \<and> closures_fresh s'"
  using assms
proof (induction as arbitrary: s)
  case Nil
  then show ?case by simp
next
  case (Cons a as)
  from Cons.prems(4) obtain s1 where st: "step parse stringify stringify2 a s = Inr s1"
    and r: "run parse stringify stringify2 as s1 = Inr s'"
    by (auto split: sum.splits)
  from Cons.prems(3) st have nr: "\<not> reopens s sid m i a"
    and u: "undisturbed parse stringify stringify2 sid m i as s1"
    by auto
  note s1 = settled_step [OF Cons.prems(1) st Cons.prems(2) nr]
  from Cons.IH [OF s1(1) s1(2) u r] s1(3) show ?case by simp
qed

lemma stop_settles:
  assumes f: "closures_fresh s" and c: "closes_block s event sid m i"
  shows "case step parse stringify stringify2 (Stream event) s of
           Inl e \<Rightarrow> False
         | Inr s' \<Rightarrow> settled s' sid m i \<and> closures_fresh s'"
proof -
  let ?data = "event_data event"
  from c have p: "payload_event event" and sid: "field event ''sessionId'' = sid"
    and ty: "field ?data ''type'' = JStr ''content_block_stop''"
    and fl: "in_flight s sid m"
    and bi: "event_blockIndex s sid ?data = block_key i"
    and i: "i < length (msg_content (session_messages s sid ! m))"
    by (simp_all add: closes_block_def array_index_Some)
  from p sid have k: "key_eq sid sid" by (auto simp: payload_event_def intro: key_eq_refl)
  have h: "step parse stringify stringify2 (Stream event) s = on_content_block_stop parse ?data sid s"
    using p sid ty by (simp add: step_def handleStreamEvent_def Let_def payload_event_def)
  from on_content_block_stop_settles [OF f k fl bi i, of parse]
    on_content_block_stop_case [where parse = parse and data = ?data and sid' = sid and s = s
                                  and sid = sid and i = i]
  show ?thesis
    unfolding h using f by (auto split: sum.splits)
qed

subsection \<open>Completed blocks\<close>

text \<open>
  C5, as the spec states it, has a completed block immutable under every later event. The
  reducer never reads \<open>isComplete\<close>: a writer finds its block by the id of the message in
  flight and the index it was created for. A \<open>content_block_delta\<close> that carries the index
  of a completed block of the message in flight creates a renderer for that index, and
  the next animation frame of that renderer appends to the completed block: the block
  with content \<open>Hel\<close>, complete, has content \<open>Hello\<close> afterwards.
\<close>

theorem C5_late_delta_counterexample:
  "(case run (\<lambda>x. None) (\<lambda>x. []) (\<lambda>x. []) (text_block_open @ [Stream block_stop_event])
           (initial_app (JStr ''s1'') (\<lambda>n. ''id'') 0) of
      Inl e \<Rightarrow> False
    | Inr s \<Rightarrow>
        block_view s = Some (''Hel'', True)
        \<and> (case run (\<lambda>x. None) (\<lambda>x. []) (\<lambda>x. []) late_delta s of
              Inl e \<Rightarrow> False
            | Inr s' \<Rightarrow> block_view s' = Some (''Hello'', True)))"
  by code_simp

text \<open>
  C5 (amended), for a component whose renderers and flush timers were created while it
  showed the session it shows now. An action of the reducer (an event, a tick of a flush
  timer, an animation frame of a renderer) leaves every block of every session as it
  is, except a block of the session's message in flight, which changes in one of three
  ways only: an animation frame of the block's renderer appends to its content; a tick
  of the session's flush timer replaces its content by the tool JSON accumulated under
  its index; the \<open>content_block_stop\<close> that carries its index completes it. Once
  \<open>content_block_stop\<close> has processed a block of the message in flight, the block is
  complete and stays as it is, in content, \<open>toolInput\<close>, \<open>isComplete\<close> and every other
  field, through every later run of events, timer ticks and animation frames in which no
  \<open>content_block_delta\<close> or \<open>content_block_stop\<close> of its session carries its index while its
  message is in flight, and no \<open>message_start\<close> of its session draws the id of its message
  again.
\<close>

theorem C5_completed_block_immutable:
  assumes "closures_fresh s"
  shows "(step parse stringify stringify2 a s = Inr s' \<longrightarrow> block_at s sid m i = Some b \<longrightarrow>
            (case block_at s' sid m i of
               None \<Rightarrow> False
             | Some b' \<Rightarrow> b' = b \<or> in_flight s sid m \<and> touches s a sid i b b'))
         \<and> (closes_block s event sid m i \<longrightarrow>
              (case step parse stringify stringify2 (Stream event) s of
                 Inl e \<Rightarrow> False
               | Inr s1 \<Rightarrow>
                   (case block_at s1 sid m i of
                      None \<Rightarrow> False
                    | Some b1 \<Rightarrow>
                        isComplete b1
                        \<and> (undisturbed parse stringify stringify2 sid m i as s1 \<longrightarrow>
                             (case run parse stringify stringify2 as s1 of
                                Inl e \<Rightarrow> True
                              | Inr s2 \<Rightarrow> block_at s2 sid m i = Some b1)))))"
proof (intro conjI impI)
  assume "step parse stringify stringify2 a s = Inr s'" "block_at s sid m i = Some b"
  then show "case block_at s' sid m i of
               None \<Rightarrow> False
             | Some b' \<Rightarrow> b' = b \<or> in_flight s sid m \<and> touches s a sid i b b'"
    by (rule step_block [OF assms])
next
  assume c: "closes_block s event sid m i"
  from stop_settles [OF assms c, of parse stringify stringify2]
  obtain s1 where st: "step parse stringify stringify2 (Stream event) s = Inr s1"
    and se: "settled s1 sid m i" and f1: "closures_fresh s1"
    by (auto split: sum.splits)
  from se obtain b1 where b1: "block_at s1 sid m i = Some b1" "isComplete b1"
    by (auto simp: settled_def split: option.splits)
  have "block_at s2 sid m i = Some b1"
    if "undisturbed parse stringify stringify2 sid m i as s1"
      "run parse stringify stringify2 as s1 = Inr s2" for s2
    using settled_run [OF f1 se that] b1 by simp
  with b1 show "case step parse stringify stringify2 (Stream event) s of
                 Inl e \<Rightarrow> False
               | Inr s1 \<Rightarrow>
                   (case block_at s1 sid m i of
                      None \<Rightarrow> False
                    | Some b1 \<Rightarrow>
                        isComplete b1
                        \<and> (undisturbed parse stringify stringify2 sid m i as s1 \<longrightarrow>
                             (case run parse stringify stringify2 as s1 of
                                Inl e \<Rightarrow> True
                              | Inr s2 \<Rightarrow> block_at s2 sid m i = Some b1)))"
    by (auto simp: st split: sum.splits)
qed

theorem C5_completed_block_witness:
  "closures_fresh open_state
   \<and> closes_block open_state block_stop_event (JStr ''s1'') 0 0
   \<and> (case step (\<lambda>x. None) (\<lambda>x. []) (\<lambda>x. []) (Stream block_stop_event) open_state of
         Inl e \<Rightarrow> False
       | Inr s1 \<Rightarrow>
           block_view s1 = Some (''Hel'', True)
           \<and> undisturbed (\<lambda>x. None) (\<lambda>x. []) (\<lambda>x. []) (JStr ''s1'') 0 0 quiet_rest s1
           \<and> (case run (\<lambda>x. None) (\<lambda>x. []) (\<lambda>x. []) quiet_rest s1 of
                 Inl e \<Rightarrow> False
               | Inr s2 \<Rightarrow> block_view s2 = Some (''Hel'', True)))
   \<and> (case step (\<lambda>x. None) (\<lambda>x. []) (\<lambda>x. []) (Frame (JStr ''s1'') (JNum 0) 2) open_state of
         Inl e \<Rightarrow> False
       | Inr s' \<Rightarrow>
           block_view open_state = Some ([], False) \<and> block_view s' = Some (''He'', False)
           \<and> in_flight open_state (JStr ''s1'') 0)"
proof -
  have f: "closures_fresh open_state" by code_simp
  have c: "closes_block open_state block_stop_event (JStr ''s1'') 0 0" by code_simp
  have u: "case step (\<lambda>x. None) (\<lambda>x. []) (\<lambda>x. []) (Stream block_stop_event) open_state of
             Inl e \<Rightarrow> False
           | Inr s1 \<Rightarrow>
               block_view s1 = Some (''Hel'', True)
               \<and> undisturbed (\<lambda>x. None) (\<lambda>x. []) (\<lambda>x. []) (JStr ''s1'') 0 0 quiet_rest s1
               \<and> (case run (\<lambda>x. None) (\<lambda>x. []) (\<lambda>x. []) quiet_rest s1 of
                     Inl e \<Rightarrow> False
                   | Inr s2 \<Rightarrow> True)"
    by code_simp
  have v: "case step (\<lambda>x. None) (\<lambda>x. []) (\<lambda>x. []) (Frame (JStr ''s1'') (JNum 0) 2) open_state of
             Inl e \<Rightarrow> False
           | Inr s' \<Rightarrow>
               block_view open_state = Some ([], False) \<and> block_view s' = Some (''He'', False)"
    by code_simp
  from u obtain s1 where s1: "step (\<lambda>x. None) (\<lambda>x. []) (\<lambda>x. []) (Stream block_stop_event) open_state = Inr s1"
    and b1: "block_view s1 = Some (''Hel'', True)"
    and u1: "undisturbed (\<lambda>x. None) (\<lambda>x. []) (\<lambda>x. []) (JStr ''s1'') 0 0 quiet_rest s1"
    by (auto split: sum.splits)
  from u s1 obtain s2 where s2: "run (\<lambda>x. None) (\<lambda>x. []) (\<lambda>x. []) quiet_rest s1 = Inr s2"
    by (auto split: sum.splits)
  from v obtain s' where s': "step (\<lambda>x. None) (\<lambda>x. []) (\<lambda>x. []) (Frame (JStr ''s1'') (JNum 0) 2) open_state = Inr s'"
    and v0: "block_view open_state = Some ([], False)" and v1: "block_view s' = Some (''He'', False)"
    by (auto split: sum.splits)
  from v0 obtain b where b: "block_at open_state (JStr ''s1'') 0 0 = Some b" "blk_content b = []"
    by (auto simp: block_view_def)
  note t = C5_completed_block_immutable [OF f, where parse = "\<lambda>x. None" and stringify = "\<lambda>x. []" and ?stringify2.0 = "\<lambda>x. []"
                and a = "Frame (JStr ''s1'') (JNum 0) 2" and s' = s' and sid = "JStr ''s1''" and m = 0 and i = 0
                and b = b and event = block_stop_event and as = quiet_rest]
  from t c s1 u1 s2 have "block_at s2 (JStr ''s1'') 0 0 = block_at s1 (JStr ''s1'') 0 0"
    by (auto split: option.splits)
  then have b2: "block_view s2 = Some (''Hel'', True)"
    using b1 by (simp add: block_view_def)
  from t s' b v1 have fl: "in_flight open_state (JStr ''s1'') 0"
    by (auto simp: block_view_def split: option.splits)
  from f c s1 b1 u1 s2 b2 s' v0 v1 fl show ?thesis by simp
qed

end
